theory Spec2Isabelle
  imports Main "HOL-Library.Word"
begin

unbundle bit_operations_syntax

section \<open>Machine integers, faults and fixed-size arrays\<close>

text \<open>
  The embedding follows \<^verbatim>\<open>src/dos/dos_keyboard_layout.cpp\<close>. Unsigned machine integers
  are words; \<^verbatim>\<open>Bitu\<close> counters and buffer positions, which stay far below their width
  in this file, are natural numbers (the one place where a 32-bit difference wraps,
  \<^verbatim>\<open>bytes_read\<close>, has the wrap written out). A fixed-size C array is a function from
  indices to values together with its declared size: every access goes through
  \<open>rd\<close> or \<open>wr\<close>, which report an index outside the array as the fault
  \<open>OutOfBounds\<close> (undefined behaviour in the source).
\<close>

type_synonym u8 = "8 word"
type_synonym u16 = "16 word"
type_synonym u32 = "32 word"

datatype fault =
    OutOfBounds           \<comment> \<open>raw index outside a C array or vector\<close>
  | AssertFailed          \<comment> \<open>an \<^verbatim>\<open>assert\<close> of the source does not hold\<close>
  | OutOfRangeException   \<comment> \<open>\<^verbatim>\<open>std::array::at\<close> throws \<^verbatim>\<open>std::out_of_range\<close>\<close>
  | FatalExit             \<comment> \<open>\<^verbatim>\<open>E_Exit\<close>\<close>

definition bnd :: "fault + 'a \<Rightarrow> ('a \<Rightarrow> fault + 'b) \<Rightarrow> fault + 'b" where
  "bnd m f = (case m of Inl e \<Rightarrow> Inl e | Inr v \<Rightarrow> f v)"

definition rd :: "nat \<Rightarrow> (nat \<Rightarrow> 'a) \<Rightarrow> nat \<Rightarrow> fault + 'a" where
  "rd n a i = (if i < n then Inr (a i) else Inl OutOfBounds)"

definition wr :: "nat \<Rightarrow> (nat \<Rightarrow> 'a) \<Rightarrow> nat \<Rightarrow> 'a \<Rightarrow> fault + (nat \<Rightarrow> 'a)" where
  "wr n a i v = (if i < n then Inr (a(i := v)) else Inl OutOfBounds)"

definition le16 :: "u8 \<Rightarrow> u8 \<Rightarrow> u16" where
  "le16 lo hi = ucast lo OR push_bit 8 (ucast hi)"

definition le32 :: "u8 \<Rightarrow> u8 \<Rightarrow> u8 \<Rightarrow> u8 \<Rightarrow> u32" where
  "le32 b0 b1 b2 b3 =
     ucast b0 OR push_bit 8 (ucast b1) OR push_bit 16 (ucast b2) OR push_bit 24 (ucast b3)"

text \<open>\<^verbatim>\<open>host_readw(&a[i])\<close> on a raw array of size \<open>n\<close>: bytes \<open>i\<close> and \<open>i + 1\<close>.\<close>

definition host_readw :: "nat \<Rightarrow> (nat \<Rightarrow> u8) \<Rightarrow> nat \<Rightarrow> fault + u16" where
  "host_readw n a i =
     bnd (rd n a i) (\<lambda>lo. bnd (rd n a (i + 1)) (\<lambda>hi. Inr (le16 lo hi)))"

text \<open>Unchecked \<^verbatim>\<open>std::vector::operator[]\<close>.\<close>

definition vrd :: "u8 list \<Rightarrow> nat \<Rightarrow> fault + u8" where
  "vrd d i = (if i < length d then Inr (d ! i) else Inl OutOfBounds)"

definition vreadw :: "u8 list \<Rightarrow> nat \<Rightarrow> fault + u16" where
  "vreadw d i = bnd (vrd d i) (\<lambda>lo. bnd (vrd d (i + 1)) (\<lambda>hi. Inr (le16 lo hi)))"

section \<open>C strings and files\<close>

text \<open>
  A C string is the list of its bytes; a \<^verbatim>\<open>char\<close> buffer filled from file data may
  hold a NUL byte, where the string functions stop.
\<close>

definition cstr :: "string \<Rightarrow> u8 list" where
  "cstr s = map of_char s"

definition until_nul :: "u8 list \<Rightarrow> u8 list" where
  "until_nul s = takeWhile (\<lambda>c. c \<noteq> 0) s"

definition c_tolower :: "u8 \<Rightarrow> u8" where
  "c_tolower c = (if 0x41 \<le> c \<and> c \<le> 0x5A then c + 0x20 else c)"

definition c_toupper :: "u8 \<Rightarrow> u8" where
  "c_toupper c = (if 0x61 \<le> c \<and> c \<le> 0x7A then c - 0x20 else c)"

definition strcmp_eq :: "u8 list \<Rightarrow> u8 list \<Rightarrow> bool" where
  "strcmp_eq a b = (until_nul a = until_nul b)"

definition strcasecmp_eq :: "u8 list \<Rightarrow> u8 list \<Rightarrow> bool" where
  "strcasecmp_eq a b = (map c_tolower (until_nul a) = map c_tolower (until_nul b))"

definition strncasecmp_eq :: "u8 list \<Rightarrow> u8 list \<Rightarrow> nat \<Rightarrow> bool" where
  "strncasecmp_eq a b n =
     (map c_tolower (take n (until_nul a)) = map c_tolower (take n (until_nul b)))"

text \<open>\<^verbatim>\<open>safe_strcpy\<close> into a buffer of \<open>n\<close> chars keeps at most \<open>n - 1\<close> of them.\<close>

definition safe_strcpy :: "nat \<Rightarrow> u8 list \<Rightarrow> u8 list" where
  "safe_strcpy n s = take (n - 1) (until_nul s)"

text \<open>\<^verbatim>\<open>sprintf("%d", n)\<close> for a non-negative number.\<close>

fun dec_digits :: "nat \<Rightarrow> u8 list" where
  "dec_digits n =
     (if n < 10 then [0x30 + of_nat n]
      else dec_digits (n div 10) @ [0x30 + of_nat (n mod 10)])"

text \<open>
  A file is its contents. \<^verbatim>\<open>fread\<close> of \<open>n\<close> bytes at position \<open>pos\<close> yields the
  bytes there are; reading into a buffer overwrites that many leading cells and leaves the
  others as they were.
\<close>

definition fread :: "u8 list \<Rightarrow> nat \<Rightarrow> nat \<Rightarrow> u8 list" where
  "fread f pos n = take n (drop pos f)"

definition fread_into :: "(nat \<Rightarrow> u8) \<Rightarrow> u8 list \<Rightarrow> nat \<Rightarrow> nat \<Rightarrow> (nat \<Rightarrow> u8) \<times> nat" where
  "fread_into buf f pos n =
     (let got = fread f pos n
      in ((\<lambda>i. if i < length got then got ! i else buf i), length got))"

section \<open>The host: what the layout code takes from the rest of the emulator\<close>

datatype keyb_code =
    KEYB_NOERROR | KEYB_FILENOTFOUND | KEYB_INVALIDFILE | KEYB_LAYOUTNOTFOUND
  | KEYB_INVALIDCPFILE | KEYB_NOLAYOUT_0xff

text \<open>
  Read-only surroundings. \<open>MAX_SCAN_CODE\<close> is a macro of \<^verbatim>\<open>bios.h\<close>, the blobs and
  \<open>FILE_EGA_CPX\<close> are tables of \<^verbatim>\<open>dos_resources.h\<close>; none of them is among the sources,
  so they are parameters. \<open>dos_files\<close> is \<^verbatim>\<open>OpenDosboxFile\<close>: the contents of the named
  file, if it can be opened. \<open>upx_unpack\<close> stands for the decompression trampoline
  (\<^verbatim>\<open>DOS_AllocateMemory\<close>, \<^verbatim>\<open>MEM_BlockWrite\<close>, \<^verbatim>\<open>CALLBACK_RunRealFar\<close>,
  \<^verbatim>\<open>MEM_BlockRead\<close>, \<^verbatim>\<open>DOS_FreeMemory\<close>): from the patched buffer and the payload size
  to the 65536 bytes read back, or \<open>None\<close> when the allocation fails.
  \<open>cpi_stack\<close> is the indeterminate initial content of the local \<^verbatim>\<open>cpi_buf\<close>.
\<close>

record host =
  MAX_SCAN_CODE :: nat
  dos_files :: "u8 list \<Rightarrow> u8 list option"
  BLOB_KEYBOARD_SYS :: "nat \<Rightarrow> u8 list"
  BLOB_EGA_CPX :: "nat \<Rightarrow> u8 list"
  FILE_EGA_CPX :: "nat \<Rightarrow> u8 list"
  upx_unpack :: "(nat \<Rightarrow> u8) \<Rightarrow> nat \<Rightarrow> (nat \<Rightarrow> u8) option"
  cpi_stack :: "nat \<Rightarrow> u8"
  text_mode_on_egavga :: bool

text \<open>
  Calls into the video code, recorded in order. \<open>Phys_writeb t i b\<close> is
  \<^verbatim>\<open>phys_writeb\<close> of the byte \<open>b\<close> at offset \<open>i\<close> from the physical address of the ROM
  font area \<open>t\<close> of \<^verbatim>\<open>int10.rom\<close>.
\<close>

datatype font_target =
    Font_16 | Font_14 | Font_8_first | Font_8_second | Font_16_alternate | Font_14_alternate

datatype host_call =
    Phys_writeb font_target nat u8
  | INT10_ReloadFont
  | INT10_SetupRomMemoryChecksum

text \<open>
  Mutable state outside the layout object: \<^verbatim>\<open>dos.loaded_codepage\<close>, the values handed
  to \<^verbatim>\<open>BIOS_AddKeyToBuffer\<close> (oldest first), the calls that touch font memory, and the
  two function-local static scratch buffers \<^verbatim>\<open>read_buf\<close> (of \<^verbatim>\<open>read_keyboard_file\<close>
  and of \<^verbatim>\<open>extract_codepage\<close>), which keep their contents between calls.
\<close>

record dos_state =
  loaded_codepage :: u16
  bios_key_buffer :: "u16 list"
  video_calls :: "host_call list"
  kl_read_buf :: "nat \<Rightarrow> u8"
  cp_read_buf :: "nat \<Rightarrow> u8"

section \<open>The layout object\<close>

record plane_flags =
  required_flags :: u16
  forbidden_flags :: u16
  required_userflags :: u16
  forbidden_userflags :: u16

record keyboard_layout =
  current_layout :: "nat \<Rightarrow> u16"
  current_layout_planes :: "nat \<Rightarrow> plane_flags"
  additional_planes :: u8
  used_lock_modifiers :: u8
  diacritics :: "nat \<Rightarrow> u8"
  diacritics_entries :: u16
  diacritics_character :: u16
  user_keys :: u16
  current_keyboard_file_name :: "u8 list"
  use_foreign_layout :: bool
  language_codes :: "u8 list list"

definition layout_pages :: nat where
  "layout_pages = 12"

definition layout_size :: "host \<Rightarrow> nat" where
  "layout_size h = (MAX_SCAN_CODE h + 1) * layout_pages"

definition read_buf_size_max :: nat where
  "read_buf_size_max = 65535"

definition diacritics_size :: nat where
  "diacritics_size = 2048"

definition reset_planes :: plane_flags where
  "reset_planes = \<lparr> required_flags = 0, forbidden_flags = 0xffff,
                     required_userflags = 0, forbidden_userflags = 0xffff \<rparr>"

text \<open>\<^verbatim>\<open>keyboard_layout::reset\<close>. The language-code count drops to 0.\<close>

definition reset :: "keyboard_layout \<Rightarrow> keyboard_layout" where
  "reset L = L\<lparr> current_layout := (\<lambda>_. 0),
               current_layout_planes := (\<lambda>_. reset_planes),
               used_lock_modifiers := 0x0f,
               diacritics_entries := 0,
               diacritics_character := 0,
               user_keys := 0,
               language_codes := [] \<rparr>"

text \<open>
  The constructor: the member initialisers, \<^verbatim>\<open>reset()\<close>, and the file name "none".
  The diacritics array is not initialised by the source; it starts as all zero here.
\<close>

definition new_keyboard_layout :: keyboard_layout where
  "new_keyboard_layout =
     reset \<lparr> current_layout = (\<lambda>_. 0),
             current_layout_planes = (\<lambda>_. reset_planes),
             additional_planes = 0,
             used_lock_modifiers = 0x0f,
             diacritics = (\<lambda>_. 0),
             diacritics_entries = 0,
             diacritics_character = 0,
             user_keys = 0,
             current_keyboard_file_name = cstr ''none'',
             use_foreign_layout = False,
             language_codes = [] \<rparr>"

section \<open>Keyboard layout libraries (KCL)\<close>

text \<open>The inner loop of \<^verbatim>\<open>read_kcl_file\<close>: one language code, up to a comma.\<close>

function kcl_file_chars :: "u8 list \<Rightarrow> nat \<Rightarrow> nat \<Rightarrow> nat \<Rightarrow> u8 list \<Rightarrow> nat \<times> nat \<times> u8 list" where
  "kcl_file_chars f data_len pos i acc =
     (if i < data_len then
        (if pos < length f then
           (if f ! pos = 0x2C then (pos + 1, i + 1, acc)
            else kcl_file_chars f data_len (pos + 1) (i + 1) (acc @ [f ! pos]))
         else (pos, i, acc))
      else (pos, i, acc))"
  by pat_completeness auto
termination
  by (relation "measure (\<lambda>(f, data_len, pos, i, acc). data_len - i)") auto

lemma kcl_file_chars_mono:
  "kcl_file_chars f data_len pos i acc = (pos', i', lng) \<Longrightarrow> i \<le> i'"
proof (induction f data_len pos i acc rule: kcl_file_chars.induct)
  case (1 f data_len pos i acc)
  show ?case
  proof (cases "i < data_len \<and> pos < length f \<and> f ! pos \<noteq> 0x2C")
    case True
    then have "kcl_file_chars f data_len (pos + 1) (i + 1) (acc @ [f ! pos]) = (pos', i', lng)"
      using "1.prems" by (subst (asm) kcl_file_chars.simps) simp
    with True "1.IH" have "i + 1 \<le> i'" by blast
    then show ?thesis by simp
  next
    case False
    then show ?thesis
      using "1.prems" by (subst (asm) kcl_file_chars.simps) (auto split: if_splits)
  qed
qed

text \<open>The language codes of one record of \<^verbatim>\<open>read_kcl_file\<close>: is the wanted id among them?\<close>

function kcl_file_ids :: "u8 list \<Rightarrow> u8 list \<Rightarrow> bool \<Rightarrow> nat \<Rightarrow> nat \<Rightarrow> nat \<Rightarrow> bool" where
  "kcl_file_ids f layout_id first_id_only data_len pos i =
     (if i < data_len then
        (if length (fread f pos 2) \<noteq> 2 then False
         else
           (let lcnum = le16 (f ! pos) (f ! (pos + 1));
                r = kcl_file_chars f data_len (pos + 2) (i + 2) [];
                lng = snd (snd r)
            in if strcasecmp_eq lng layout_id then True
               else if first_id_only then False
               else if lcnum \<noteq> 0 \<and> strcasecmp_eq (lng @ dec_digits (unat lcnum)) layout_id
                 then True
               else kcl_file_ids f layout_id first_id_only data_len (fst r) (fst (snd r))))
      else False)"
  by pat_completeness auto
termination
proof (relation "measure (\<lambda>(f, layout_id, first_id_only, data_len, pos, i). data_len - i)")
  show "wf (measure (\<lambda>(f, layout_id, first_id_only, data_len, pos, i). data_len - i))"
    by simp
next
  fix f :: "u8 list" and layout_id :: "u8 list" and first_id_only :: bool
    and data_len pos i :: nat and lcnum :: u16 and r :: "nat \<times> nat \<times> u8 list"
    and lng :: "u8 list"
  assume lt: "i < data_len"
    and r: "r = kcl_file_chars f data_len (pos + 2) (i + 2) []"
  obtain p' i' l' where eq: "kcl_file_chars f data_len (pos + 2) (i + 2) [] = (p', i', l')"
    by (cases "kcl_file_chars f data_len (pos + 2) (i + 2) []") auto
  from kcl_file_chars_mono [OF eq] have "i + 2 \<le> i'" .
  with lt r eq
  show "((f, layout_id, first_id_only, data_len, fst r, fst (snd r)),
         (f, layout_id, first_id_only, data_len, pos, i))
        \<in> measure (\<lambda>(f, layout_id, first_id_only, data_len, pos, i). data_len - i)"
    by simp
qed

text \<open>The record loop of \<^verbatim>\<open>read_kcl_file\<close>, from file position \<open>cur_pos\<close>.\<close>

function kcl_file_records :: "u8 list \<Rightarrow> u8 list \<Rightarrow> bool \<Rightarrow> nat \<Rightarrow> fault + nat" where
  "kcl_file_records f layout_id first_id_only cur_pos =
     (if cur_pos + 5 \<le> length f then
        (let len = le16 (f ! cur_pos) (f ! (cur_pos + 1));
             data_len = f ! (cur_pos + 2)
         in if \<not> data_len < 255 then Inl AssertFailed
            else if kcl_file_ids f layout_id first_id_only (unat data_len) (cur_pos + 3) 0
              then Inr cur_pos
            else kcl_file_records f layout_id first_id_only (cur_pos + 3 + unat len))
      else Inr 0)"
  by pat_completeness auto
termination
  by (relation "measure (\<lambda>(f, layout_id, first_id_only, cur_pos). length f - cur_pos)") auto

text \<open>\<^verbatim>\<open>read_kcl_file\<close>: the position of the record that names \<open>layout_id\<close>, or 0.\<close>

definition read_kcl_file :: "host \<Rightarrow> u8 list \<Rightarrow> u8 list \<Rightarrow> bool \<Rightarrow> fault + nat" where
  "read_kcl_file h kcl_file_name layout_id first_id_only =
     (case dos_files h kcl_file_name of
        None \<Rightarrow> Inr 0
      | Some f \<Rightarrow>
          if \<not> (7 \<le> length (fread f 0 7) \<and> f ! 0 = 0x4b \<and> f ! 1 = 0x43 \<and> f ! 2 = 0x46)
          then Inr 0
          else kcl_file_records f layout_id first_id_only (7 + unat (f ! 6)))"

text \<open>\<^verbatim>\<open>read_kcl_data\<close>, the same search over a built-in byte vector.\<close>

function kcl_data_chars :: "u8 list \<Rightarrow> nat \<Rightarrow> nat \<Rightarrow> nat \<Rightarrow> u8 list \<Rightarrow> nat \<times> nat \<times> u8 list" where
  "kcl_data_chars d data_len dpos i acc =
     (if i < data_len then
        (if dpos + 1 > length d then (dpos, i, acc)
         else if d ! dpos = 0x2C then (dpos + 1, i + 1, acc)
         else kcl_data_chars d data_len (dpos + 1) (i + 1) (acc @ [d ! dpos]))
      else (dpos, i, acc))"
  by pat_completeness auto
termination
  by (relation "measure (\<lambda>(d, data_len, dpos, i, acc). data_len - i)") auto

lemma kcl_data_chars_mono:
  "kcl_data_chars d data_len dpos i acc = (dpos', i', lng) \<Longrightarrow> i \<le> i'"
proof (induction d data_len dpos i acc rule: kcl_data_chars.induct)
  case (1 d data_len dpos i acc)
  show ?case
  proof (cases "i < data_len \<and> \<not> dpos + 1 > length d \<and> d ! dpos \<noteq> 0x2C")
    case True
    then have "kcl_data_chars d data_len (dpos + 1) (i + 1) (acc @ [d ! dpos]) = (dpos', i', lng)"
      using "1.prems" by (subst (asm) kcl_data_chars.simps) simp
    with True "1.IH" have "i + 1 \<le> i'" by blast
    then show ?thesis by simp
  next
    case False
    then show ?thesis
      using "1.prems" by (subst (asm) kcl_data_chars.simps) (auto split: if_splits)
  qed
qed

function kcl_data_ids :: "u8 list \<Rightarrow> u8 list \<Rightarrow> bool \<Rightarrow> nat \<Rightarrow> nat \<Rightarrow> nat \<Rightarrow> fault + bool" where
  "kcl_data_ids d layout_id first_id_only data_len dpos i =
     (if i < data_len then
        (case vreadw d (dpos - 2) of
           Inl e \<Rightarrow> Inl e
         | Inr lcnum \<Rightarrow>
             (let r = kcl_data_chars d data_len dpos (i + 2) [];
                  lng = snd (snd r)
              in if strcasecmp_eq lng layout_id then Inr True
                 else if first_id_only then Inr False
                 else if lcnum \<noteq> 0 \<and> \<not> length lng + length (dec_digits (unat lcnum)) < 258
                   then Inl OutOfBounds
                 else if lcnum \<noteq> 0 \<and> strcasecmp_eq (lng @ dec_digits (unat lcnum)) layout_id
                   then Inr True
                 else kcl_data_ids d layout_id first_id_only data_len (fst r + 2) (fst (snd r))))
      else Inr False)"
  by pat_completeness auto
termination
proof (relation "measure (\<lambda>(d, layout_id, first_id_only, data_len, dpos, i). data_len - i)")
  show "wf (measure (\<lambda>(d, layout_id, first_id_only, data_len, dpos, i). data_len - i))"
    by simp
next
  fix d :: "u8 list" and layout_id :: "u8 list" and first_id_only :: bool
    and data_len dpos i :: nat and r :: "nat \<times> nat \<times> u8 list"
  assume lt: "i < data_len"
    and r: "r = kcl_data_chars d data_len dpos (i + 2) []"
  obtain p' i' l' where eq: "kcl_data_chars d data_len dpos (i + 2) [] = (p', i', l')"
    by (cases "kcl_data_chars d data_len dpos (i + 2) []") auto
  from kcl_data_chars_mono [OF eq] have "i + 2 \<le> i'" .
  with lt r eq
  show "((d, layout_id, first_id_only, data_len, fst r + 2, fst (snd r)),
         (d, layout_id, first_id_only, data_len, dpos, i))
        \<in> measure (\<lambda>(d, layout_id, first_id_only, data_len, dpos, i). data_len - i)"
    by simp
qed

function kcl_data_records :: "u8 list \<Rightarrow> u8 list \<Rightarrow> bool \<Rightarrow> nat \<Rightarrow> fault + nat" where
  "kcl_data_records d layout_id first_id_only dpos =
     (if dpos + 5 > length d then Inr 0
      else
        (let len = le16 (d ! dpos) (d ! (dpos + 1));
             data_len = d ! (dpos + 2)
         in case kcl_data_ids d layout_id first_id_only (unat data_len) (dpos + 5) 0 of
              Inl e \<Rightarrow> Inl e
            | Inr found \<Rightarrow>
                if found then Inr dpos
                else kcl_data_records d layout_id first_id_only (dpos + 3 + unat len)))"
  by pat_completeness auto
termination
  by (relation "measure (\<lambda>(d, layout_id, first_id_only, dpos). length d - dpos)") auto

definition read_kcl_data :: "u8 list \<Rightarrow> u8 list \<Rightarrow> bool \<Rightarrow> fault + nat" where
  "read_kcl_data kcl_data layout_id first_id_only =
     bnd (vrd kcl_data 0) (\<lambda>b0.
       if b0 \<noteq> 0x4b then Inr 0
       else bnd (vrd kcl_data 1) (\<lambda>b1.
         if b1 \<noteq> 0x43 then Inr 0
         else bnd (vrd kcl_data 2) (\<lambda>b2.
           if b2 \<noteq> 0x46 then Inr 0
           else bnd (vrd kcl_data 6) (\<lambda>b6.
             kcl_data_records kcl_data layout_id first_id_only (7 + unat b6)))))"

section \<open>The KL parser: \<^verbatim>\<open>read_keyboard_file\<close>\<close>

text \<open>
  The language codes at the head of the payload. \<open>start_pos\<close> is the position after the
  \<open>data_len\<close> byte, as in the source.
\<close>

function lang_code_chars :: "(nat \<Rightarrow> u8) \<Rightarrow> nat \<Rightarrow> nat \<Rightarrow> nat \<Rightarrow> u8 list \<Rightarrow> fault + (nat \<times> u8 list)" where
  "lang_code_chars rb start_pos data_len i acc =
     (if i < data_len then
        (if \<not> start_pos + i < read_buf_size_max then Inl AssertFailed
         else if rb (start_pos + i) = 0x2C then Inr (i + 1, acc)
         else lang_code_chars rb start_pos data_len (i + 1) (acc @ [rb (start_pos + i)]))
      else Inr (i, acc))"
  by pat_completeness auto
termination
  by (relation "measure (\<lambda>(rb, start_pos, data_len, i, acc). data_len - i)") auto

lemma lang_code_chars_mono:
  "lang_code_chars rb start_pos data_len i acc = Inr r \<Longrightarrow> i \<le> fst r"
proof (induction rb start_pos data_len i acc rule: lang_code_chars.induct)
  case (1 rb start_pos data_len i acc)
  show ?case
  proof (cases "i < data_len \<and> start_pos + i < read_buf_size_max \<and> rb (start_pos + i) \<noteq> 0x2C")
    case True
    then have "lang_code_chars rb start_pos data_len (i + 1) (acc @ [rb (start_pos + i)]) = Inr r"
      using "1.prems" by (subst (asm) lang_code_chars.simps) simp
    with True "1.IH" have "i + 1 \<le> fst r" by blast
    then show ?thesis by simp
  next
    case False
    then show ?thesis
      using "1.prems" by (subst (asm) lang_code_chars.simps) (auto split: if_splits)
  qed
qed

function lang_codes_loop :: "(nat \<Rightarrow> u8) \<Rightarrow> nat \<Rightarrow> nat \<Rightarrow> nat \<Rightarrow> u8 list list \<Rightarrow> fault + u8 list list" where
  "lang_codes_loop rb start_pos data_len i codes =
     (if i < data_len then
        (case lang_code_chars rb start_pos data_len (i + 2) [] of
           Inl e \<Rightarrow> Inl e
         | Inr r \<Rightarrow> lang_codes_loop rb start_pos data_len (fst r) (codes @ [snd r]))
      else Inr codes)"
  by pat_completeness auto
termination
proof (relation "measure (\<lambda>(rb, start_pos, data_len, i, codes). data_len - i)")
  show "wf (measure (\<lambda>(rb, start_pos, data_len, i, codes). data_len - i))"
    by simp
next
  fix rb :: "nat \<Rightarrow> u8" and start_pos data_len i :: nat and codes :: "u8 list list"
    and r :: "nat \<times> u8 list"
  assume lt: "i < data_len"
    and r: "lang_code_chars rb start_pos data_len (i + 2) [] = Inr r"
  from lang_code_chars_mono [OF r] have "i + 2 \<le> fst r" .
  with lt
  show "((rb, start_pos, data_len, fst r, codes @ [snd r]), (rb, start_pos, data_len, i, codes))
        \<in> measure (\<lambda>(rb, start_pos, data_len, i, codes). data_len - i)"
    by simp
qed

text \<open>
  The plane descriptors: four words per additional plane, each read after
  \<^verbatim>\<open>assert(read_buf_pos < sizeof(read_buf))\<close>.
\<close>

definition read_plane_word :: "(nat \<Rightarrow> u8) \<Rightarrow> nat \<Rightarrow> fault + u16" where
  "read_plane_word rb pos =
     (if \<not> pos < read_buf_size_max then Inl AssertFailed
      else host_readw read_buf_size_max rb pos)"

fun read_planes :: "(nat \<Rightarrow> u8) \<Rightarrow> nat \<Rightarrow> nat \<Rightarrow> nat \<Rightarrow> keyboard_layout \<Rightarrow> fault + keyboard_layout" where
  "read_planes rb 0 i pos L = Inr L"
| "read_planes rb (Suc n) i pos L =
     bnd (read_plane_word rb pos) (\<lambda>rf.
     bnd (read_plane_word rb (pos + 2)) (\<lambda>ff.
     bnd (read_plane_word rb (pos + 4)) (\<lambda>ru.
     bnd (read_plane_word rb (pos + 6)) (\<lambda>fu.
     bnd (wr (layout_pages - 4) (current_layout_planes L) i
            \<lparr> required_flags = rf, forbidden_flags = ff,
              required_userflags = ru, forbidden_userflags = fu \<rparr>) (\<lambda>planes.
       read_planes rb n (i + 1) (pos + 8)
         (L\<lparr> current_layout_planes := planes,
             used_lock_modifiers := used_lock_modifiers L OR ucast (rf AND 0x70) \<rparr>))))))"

text \<open>
  The diacritics table of a submapping, at \<open>base = start_pos + table_offset\<close>: the
  scan that counts the entries, and the copy \<^verbatim>\<open>for (j=0; j<=i; j++)\<close>.
\<close>

function diacritics_scan :: "(nat \<Rightarrow> u8) \<Rightarrow> nat \<Rightarrow> nat \<Rightarrow> u16 \<Rightarrow> fault + (nat \<times> u16)" where
  "diacritics_scan rb base i entries =
     (if i < 2048 then
        (case rd read_buf_size_max rb (base + i) of
           Inl e \<Rightarrow> Inl e
         | Inr lead \<Rightarrow>
             if lead = 0 then Inr (i, entries)
             else (case rd read_buf_size_max rb (base + i + 1) of
                     Inl e \<Rightarrow> Inl e
                   | Inr n \<Rightarrow> diacritics_scan rb base (i + (unat n * 2 + 2)) (entries + 1)))
      else Inr (i, entries))"
  by pat_completeness auto
termination
  by (relation "measure (\<lambda>(rb, base, i, entries). 2048 - i)") auto

function diacritics_copy :: "(nat \<Rightarrow> u8) \<Rightarrow> nat \<Rightarrow> nat \<Rightarrow> nat \<Rightarrow> (nat \<Rightarrow> u8) \<Rightarrow> fault + (nat \<Rightarrow> u8)" where
  "diacritics_copy rb base i j dia =
     (if j \<le> i then
        (case rd read_buf_size_max rb (base + j) of
           Inl e \<Rightarrow> Inl e
         | Inr b \<Rightarrow>
             (case wr diacritics_size dia j b of
                Inl e \<Rightarrow> Inl e
              | Inr dia' \<Rightarrow> diacritics_copy rb base i (j + 1) dia'))
      else Inr dia)"
  by pat_completeness auto
termination
  by (relation "measure (\<lambda>(rb, base, i, j, dia). i + 1 - j)") auto

definition read_diacritics :: "(nat \<Rightarrow> u8) \<Rightarrow> nat \<Rightarrow> keyboard_layout \<Rightarrow> fault + keyboard_layout" where
  "read_diacritics rb base L =
     bnd (diacritics_scan rb base 0 (diacritics_entries L)) (\<lambda>r.
     bnd (diacritics_copy rb base (fst r) 0 (diacritics L)) (\<lambda>dia.
       Inr (L\<lparr> diacritics_entries := snd r, diacritics := dia \<rparr>)))"

text \<open>
  One pass of the \<^verbatim>\<open>addmap\<close> loop of a key-mapping record. \<open>pos\<close> is
  \<^verbatim>\<open>read_buf_pos\<close> after the three header bytes, so the flag byte is at \<open>pos - 2\<close> and
  the command bits at \<open>pos - 1\<close>.
\<close>

definition add_mapping :: "host \<Rightarrow> (nat \<Rightarrow> u8) \<Rightarrow> nat \<Rightarrow> u8 \<Rightarrow> nat \<Rightarrow> (nat \<Rightarrow> u16) \<Rightarrow> fault + (nat \<Rightarrow> u16)" where
  "add_mapping h rb pos scan addmap cl =
     bnd (rd read_buf_size_max rb (pos - 2)) (\<lambda>flags.
       let charptr = pos + addmap * (if flags AND 0x80 \<noteq> 0 then 2 else 1)
       in bnd (rd read_buf_size_max rb charptr) (\<lambda>kchar8.
            if kchar8 \<noteq> 0 then
              bnd (if flags AND 0x80 \<noteq> 0
                   then bnd (rd read_buf_size_max rb (charptr + 1)) (\<lambda>hi. Inr (le16 kchar8 hi))
                   else Inr (ucast kchar8)) (\<lambda>kchar.
              bnd (wr (layout_size h) cl (unat scan * layout_pages + addmap) kchar) (\<lambda>cl1.
              bnd (rd (layout_size h) cl1 (unat scan * layout_pages + layout_pages - 2)) (\<lambda>c1.
              bnd (wr (layout_size h) cl1 (unat scan * layout_pages + layout_pages - 2)
                     (c1 AND NOT (push_bit addmap 1))) (\<lambda>cl2.
              bnd (rd read_buf_size_max rb (pos - 1)) (\<lambda>cmd.
              bnd (rd (layout_size h) cl2 (unat scan * layout_pages + layout_pages - 2)) (\<lambda>c2.
                wr (layout_size h) cl2 (unat scan * layout_pages + layout_pages - 2)
                  (c2 OR ucast (cmd AND push_bit addmap 1))))))))
            else Inr cl))"

function add_mappings :: "host \<Rightarrow> (nat \<Rightarrow> u8) \<Rightarrow> u8 \<Rightarrow> nat \<Rightarrow> u8 \<Rightarrow> nat \<Rightarrow> nat \<Rightarrow> (nat \<Rightarrow> u16) \<Rightarrow> fault + (nat \<Rightarrow> u16)" where
  "add_mappings h rb ap pos scan scan_length addmap cl =
     (if addmap < scan_length \<and> \<not> addmap > unat ap + 2 then
        (case add_mapping h rb pos scan addmap cl of
           Inl e \<Rightarrow> Inl e
         | Inr cl' \<Rightarrow> add_mappings h rb ap pos scan scan_length (addmap + 1) cl')
      else Inr cl)"
  by pat_completeness auto
termination
  by (relation "measure (\<lambda>(h, rb, ap, pos, scan, scan_length, addmap, cl). scan_length - addmap)")
    auto

text \<open>
  One key-mapping record with scan byte \<open>scan\<close>: the new table and the number of bytes by
  which the cursor advances past the header.
\<close>

definition key_record :: "host \<Rightarrow> (nat \<Rightarrow> u8) \<Rightarrow> u8 \<Rightarrow> nat \<Rightarrow> u8 \<Rightarrow> (nat \<Rightarrow> u16) \<Rightarrow> fault + ((nat \<Rightarrow> u16) \<times> nat)" where
  "key_record h rb ap pos scan cl =
     bnd (rd read_buf_size_max rb (pos - 2)) (\<lambda>flags.
       let scan_length = unat (flags AND 7) + 1
       in if unat (scan AND 0x7f) \<le> MAX_SCAN_CODE h then
            bnd (add_mappings h rb ap pos scan scan_length 0 cl) (\<lambda>cl1.
            bnd (rd (layout_size h) cl1 (unat scan * layout_pages + layout_pages - 1)) (\<lambda>old.
              let new_flags0 = (ucast (old AND 0x7) :: u8);
                  new_flags1 = (if (flags AND 0x7) > new_flags0 then flags AND 0x7 else new_flags0);
                  new_flags = new_flags1 OR ucast ((ucast flags OR old) AND 0xf0)
              in bnd (wr (layout_size h) cl1 (unat scan * layout_pages + layout_pages - 1)
                        (ucast new_flags)) (\<lambda>cl2.
                   Inr (cl2, if flags AND 0x80 \<noteq> 0 then scan_length * 2 else scan_length))))
          else Inr (cl, scan_length))"

function key_table_loop :: "host \<Rightarrow> (nat \<Rightarrow> u8) \<Rightarrow> u8 \<Rightarrow> nat \<Rightarrow> nat \<Rightarrow> nat \<Rightarrow> (nat \<Rightarrow> u16) \<Rightarrow> fault + (nat \<Rightarrow> u16)" where
  "key_table_loop h rb ap bytes_read i pos cl =
     (if i < bytes_read then
        (if pos < read_buf_size_max then
           (if rb pos = 0 then Inr cl
            else (case key_record h rb ap (pos + 3) (rb pos) cl of
                    Inl e \<Rightarrow> Inl e
                  | Inr r \<Rightarrow>
                      key_table_loop h rb ap bytes_read (i + 3 + snd r) (pos + 3 + snd r) (fst r)))
         else Inl OutOfBounds)
      else Inr cl)"
  by pat_completeness auto
termination
  by (relation "measure (\<lambda>(h, rb, ap, bytes_read, i, pos, cl). read_buf_size_max - pos)")
    (auto simp: read_buf_size_max_def)

text \<open>
  The body of the submapping loop for submapping \<open>sub_map\<close>: the layout, whether the
  submapping's code page is the requested one, and whether the loop is left by
  \<^verbatim>\<open>break\<close>. A \<^verbatim>\<open>continue\<close> yields no break.
\<close>

definition submap_body :: "host \<Rightarrow> (nat \<Rightarrow> u8) \<Rightarrow> nat \<Rightarrow> nat \<Rightarrow> int \<Rightarrow> int \<Rightarrow> keyboard_layout \<Rightarrow> u16 \<Rightarrow> fault + (keyboard_layout \<times> bool \<times> bool)" where
  "submap_body h rb rb_size start_pos specific_layout requested_codepage L sub_map =
     bnd (host_readw read_buf_size_max rb (start_pos + 0x14 + unat sub_map * 8)) (\<lambda>submap_cp.
       if submap_cp \<noteq> 0 \<and> uint submap_cp \<noteq> requested_codepage \<and> specific_layout = - 1
       then Inr (L, False, False)
       else
         bnd (host_readw read_buf_size_max rb (start_pos + 0x18 + unat sub_map * 8)) (\<lambda>dia_offset.
         bnd (if dia_offset \<noteq> 0
              then read_diacritics rb (start_pos + unat dia_offset) (L\<lparr> diacritics_entries := 0 \<rparr>)
              else Inr (L\<lparr> diacritics_entries := 0 \<rparr>)) (\<lambda>L1.
         bnd (host_readw read_buf_size_max rb (start_pos + 0x16 + unat sub_map * 8)) (\<lambda>table_offset.
           if table_offset = 0 then Inr (L1, uint submap_cp = requested_codepage, False)
           else
             (let read_buf_pos = start_pos + unat table_offset;
                  bytes_read = nat ((int rb_size - int read_buf_pos) mod 2 ^ 32)
              in bnd (key_table_loop h rb (additional_planes L1) bytes_read 0 read_buf_pos
                        (current_layout L1)) (\<lambda>cl.
                   Inr (L1\<lparr> current_layout := cl \<rparr>,
                        uint submap_cp = requested_codepage,
                        specific_layout = uint sub_map)))))))"

text \<open>
  The submapping loop. With \<open>specific_layout \<noteq> -1\<close> the source sets \<open>sub_map\<close> back to
  the wanted submapping at the head of every pass but the first, so the loop need not
  end: not returning is the value \<open>None\<close>.
\<close>

partial_function (option) submap_loop :: "host \<Rightarrow> (nat \<Rightarrow> u8) \<Rightarrow> nat \<Rightarrow> nat \<Rightarrow> int \<Rightarrow> int \<Rightarrow> u8 \<Rightarrow> keyboard_layout \<Rightarrow> u16 \<Rightarrow> bool \<Rightarrow> (fault + (keyboard_layout \<times> bool)) option" where
  "submap_loop h rb rb_size start_pos specific_layout requested_codepage submappings L sub_map found =
     (if unat sub_map < unat submappings \<and> \<not> found then
        (let sm = (if sub_map \<noteq> 0 \<and> specific_layout \<noteq> - 1
                   then word_of_int specific_layout else sub_map)
         in case submap_body h rb rb_size start_pos specific_layout requested_codepage L sm of
              Inl e \<Rightarrow> Some (Inl e)
            | Inr r \<Rightarrow>
                if snd (snd r) then Some (Inr (fst r, fst (snd r)))
                else submap_loop h rb rb_size start_pos specific_layout requested_codepage
                       submappings (fst r) (sm + 1) (fst (snd r)))
      else Some (Inr (L, found)))"

text \<open>
  \<^verbatim>\<open>read_keyboard_file\<close> from the point where the payload is in \<^verbatim>\<open>read_buf\<close>
  (source lines 370 to 520).
\<close>

definition parse_head :: "host \<Rightarrow> (nat \<Rightarrow> u8) \<Rightarrow> nat \<Rightarrow> keyboard_layout \<Rightarrow> fault + (keyboard_layout \<times> nat \<times> u8)" where
  "parse_head h rb start_pos0 L =
     bnd (rd read_buf_size_max rb start_pos0) (\<lambda>data_len.
       if \<not> data_len < 255 then Inl AssertFailed
       else
         bnd (lang_codes_loop rb (start_pos0 + 1) (unat data_len) 0 []) (\<lambda>codes.
           let start_pos = start_pos0 + 1 + unat data_len
           in if \<not> start_pos < read_buf_size_max then Inl AssertFailed
              else if \<not> start_pos + 1 < read_buf_size_max then Inl AssertFailed
              else
                (let submappings = rb start_pos;
                     ap = rb (start_pos + 1);
                     ap' = (if unat ap > layout_pages - 4 then word_of_nat (layout_pages - 4) else ap);
                     read_buf_pos = start_pos + 0x14 + unat submappings * 8
                 in if \<not> read_buf_pos < read_buf_size_max then Inl AssertFailed
                    else
                      bnd (read_planes rb (unat ap') 0 read_buf_pos
                             (L\<lparr> language_codes := codes, additional_planes := ap' \<rparr>)) (\<lambda>L1.
                        Inr (L1, start_pos, submappings)))))"

definition parse_keyboard_buf :: "host \<Rightarrow> (nat \<Rightarrow> u8) \<Rightarrow> nat \<Rightarrow> nat \<Rightarrow> int \<Rightarrow> int \<Rightarrow> keyboard_layout \<Rightarrow> (fault + (keyb_code \<times> keyboard_layout)) option" where
  "parse_keyboard_buf h rb rb_size start_pos0 specific_layout requested_codepage L =
     (case parse_head h rb start_pos0 L of
        Inl e \<Rightarrow> Some (Inl e)
      | Inr (L1, start_pos, submappings) \<Rightarrow>
          (case submap_loop h rb rb_size start_pos specific_layout requested_codepage
                  submappings L1 0 False of
             None \<Rightarrow> None
           | Some (Inl e) \<Rightarrow> Some (Inl e)
           | Some (Inr (L2, found)) \<Rightarrow>
               if found then Some (Inr (KEYB_NOERROR, L2\<lparr> use_foreign_layout := True \<rparr>))
               else Some (Inr (KEYB_LAYOUTNOTFOUND, reset L2))))"

text \<open>
  Finding the payload: the file \<open>name.kl\<close>, else the four layout libraries (first ids,
  then all ids), else the four built-in libraries in the same two rounds.
\<close>

definition kcl_file_candidates :: "(u8 list \<times> bool) list" where
  "kcl_file_candidates =
     [(cstr ''keyboard.sys'', True), (cstr ''keybrd2.sys'', True),
      (cstr ''keybrd3.sys'', True), (cstr ''keybrd4.sys'', True),
      (cstr ''keyboard.sys'', False), (cstr ''keybrd2.sys'', False),
      (cstr ''keybrd3.sys'', False), (cstr ''keybrd4.sys'', False)]"

definition builtin_candidates :: "(nat \<times> bool) list" where
  "builtin_candidates =
     [(0, True), (1, True), (2, True), (3, True),
      (0, False), (1, False), (2, False), (3, False)]"

fun try_files :: "host \<Rightarrow> u8 list \<Rightarrow> (u8 list \<times> bool) list \<Rightarrow> fault + (nat \<times> u8 list option) option" where
  "try_files h name [] = Inr None"
| "try_files h name ((file, first_id_only) # rest) =
     (case read_kcl_file h file name first_id_only of
        Inl e \<Rightarrow> Inl e
      | Inr start_pos \<Rightarrow>
          if start_pos = 0 then try_files h name rest
          else Inr (Some (start_pos, dos_files h file)))"

text \<open>
  \<^verbatim>\<open>try_builtin\<close> copies the library from \<open>start_pos + 2\<close> on into \<^verbatim>\<open>read_buf\<close>,
  one byte per cell from cell 0; a tail longer than the buffer runs past its end.
\<close>

definition blob_copy :: "(nat \<Rightarrow> u8) \<Rightarrow> u8 list \<Rightarrow> nat \<Rightarrow> fault + ((nat \<Rightarrow> u8) \<times> nat)" where
  "blob_copy rb blob start_pos =
     (let n = length blob - (start_pos + 2)
      in if n > read_buf_size_max then Inl OutOfBounds
         else Inr ((\<lambda>i. if i < n then blob ! (start_pos + 2 + i) else rb i), n))"

fun try_builtins :: "host \<Rightarrow> (nat \<Rightarrow> u8) \<Rightarrow> u8 list \<Rightarrow> (nat \<times> bool) list \<Rightarrow> fault + ((nat \<Rightarrow> u8) \<times> nat) option" where
  "try_builtins h rb name [] = Inr None"
| "try_builtins h rb name ((i, first_id_only) # rest) =
     (case read_kcl_data (BLOB_KEYBOARD_SYS h i) name first_id_only of
        Inl e \<Rightarrow> Inl e
      | Inr start_pos \<Rightarrow>
          if start_pos = 0 then try_builtins h rb name rest
          else (case blob_copy rb (BLOB_KEYBOARD_SYS h i) start_pos of
                  Inl e \<Rightarrow> Inl e
                | Inr r \<Rightarrow> Inr (Some r)))"

text \<open>
  The outcome of the search: the scratch buffer as it is left, and either the code
  returned at once or the payload's size and the start position for the parser.
\<close>

definition load_keyboard_buf :: "host \<Rightarrow> (nat \<Rightarrow> u8) \<Rightarrow> u8 list \<Rightarrow> fault + ((nat \<Rightarrow> u8) \<times> (keyb_code + (nat \<times> nat)))" where
  "load_keyboard_buf h rb name =
     (case dos_files h (name @ cstr ''.kl'') of
        None \<Rightarrow>
          bnd (try_files h name kcl_file_candidates) (\<lambda>r.
            case r of
              Some (start_pos, tempfile) \<Rightarrow>
                (case tempfile of
                   None \<Rightarrow> Inr (rb, Inr (0, 0))
                 | Some f \<Rightarrow>
                     Inr (fst (fread_into rb f (start_pos + 2) 65535),
                          Inr (snd (fread_into rb f (start_pos + 2) 65535), 0)))
            | None \<Rightarrow>
                bnd (try_builtins h rb name builtin_candidates) (\<lambda>b.
                  case b of
                    None \<Rightarrow> Inr (rb, Inl KEYB_FILENOTFOUND)
                  | Some (rb', n) \<Rightarrow> Inr (rb', Inr (n, 0))))
      | Some f \<Rightarrow>
          (let rb1 = fst (fread_into rb f 0 4);
               dr = snd (fread_into rb f 0 4)
           in if \<not> (4 \<le> dr \<and> rb1 0 = 0x4b \<and> rb1 1 = 0x4c \<and> rb1 2 = 0x46)
              then Inr (rb1, Inl KEYB_INVALIDFILE)
              else Inr (fst (fread_into rb1 f 0 65535),
                        Inr (snd (fread_into rb1 f 0 65535), 5))))"

text \<open>
  \<^verbatim>\<open>read_keyboard_file(keyboard_file_name, specific_layout, requested_codepage)\<close> on the
  layout \<open>L\<close> in the state \<open>D\<close>.
\<close>

definition read_keyboard_file :: "host \<Rightarrow> u8 list \<Rightarrow> int \<Rightarrow> int \<Rightarrow> keyboard_layout \<Rightarrow> dos_state \<Rightarrow> (fault + (keyb_code \<times> keyboard_layout \<times> dos_state)) option" where
  "read_keyboard_file h keyboard_file_name specific_layout requested_codepage L D =
     (let L0 = reset L;
          L1 = (if specific_layout = - 1
                then L0\<lparr> current_keyboard_file_name := safe_strcpy 256 keyboard_file_name \<rparr>
                else L0)
      in if strcmp_eq keyboard_file_name (cstr ''none'') then Some (Inr (KEYB_NOERROR, L1, D))
         else
           (case load_keyboard_buf h (kl_read_buf D) keyboard_file_name of
              Inl e \<Rightarrow> Some (Inl e)
            | Inr (rb, Inl code) \<Rightarrow> Some (Inr (code, L1, D\<lparr> kl_read_buf := rb \<rparr>))
            | Inr (rb, Inr (rb_size, start_pos)) \<Rightarrow>
                (case parse_keyboard_buf h rb rb_size start_pos specific_layout
                        requested_codepage L1 of
                   None \<Rightarrow> None
                 | Some (Inl e) \<Rightarrow> Some (Inl e)
                 | Some (Inr (code, L2)) \<Rightarrow> Some (Inr (code, L2, D\<lparr> kl_read_buf := rb \<rparr>)))))"

text \<open>\<^verbatim>\<open>read_keyboard_file(keyboard_file_name, req_cp)\<close>, the public overload.\<close>

definition read_keyboard_file_cp :: "host \<Rightarrow> u8 list \<Rightarrow> int \<Rightarrow> keyboard_layout \<Rightarrow> dos_state \<Rightarrow> (fault + (keyb_code \<times> keyboard_layout \<times> dos_state)) option" where
  "read_keyboard_file_cp h keyboard_file_name req_cp L D =
     read_keyboard_file h keyboard_file_name (- 1) req_cp L D"

text \<open>
  \<^verbatim>\<open>read_keyboard_file(specific_layout)\<close>: re-read the current file for another
  submapping; the code is dropped.
\<close>

definition read_keyboard_file_specific :: "host \<Rightarrow> int \<Rightarrow> keyboard_layout \<Rightarrow> dos_state \<Rightarrow> (fault + (keyboard_layout \<times> dos_state)) option" where
  "read_keyboard_file_specific h specific_layout L D =
     (if \<not> strcmp_eq (current_keyboard_file_name L) (cstr ''none'') then
        (case read_keyboard_file h (current_keyboard_file_name L) specific_layout
                (uint (loaded_codepage D)) L D of
           None \<Rightarrow> None
         | Some (Inl e) \<Rightarrow> Some (Inl e)
         | Some (Inr (code, L', D')) \<Rightarrow> Some (Inr (L', D')))
      else Some (Inr (L, D)))"

section \<open>The layout runtime: \<^verbatim>\<open>map_key\<close> and \<^verbatim>\<open>layout_key\<close>\<close>

definition BIOS_AddKeyToBuffer :: "u16 \<Rightarrow> dos_state \<Rightarrow> dos_state" where
  "BIOS_AddKeyToBuffer v D = D\<lparr> bios_key_buffer := bios_key_buffer D @ [v] \<rparr>"

text \<open>\<^verbatim>\<open>(uint16_t)(key<<8) | b\<close>.\<close>

definition key_with :: "nat \<Rightarrow> u8 \<Rightarrow> u16" where
  "key_with key b = push_bit 8 (word_of_nat key) OR ucast b"

text \<open>
  The search for the start of a sub-table: \<open>n\<close> times
  \<^verbatim>\<open>diacritics_start += diacritics[diacritics_start+1]*2+2\<close> on a 16-bit cursor.
\<close>

fun diacritics_walk :: "(nat \<Rightarrow> u8) \<Rightarrow> nat \<Rightarrow> u16 \<Rightarrow> fault + u16" where
  "diacritics_walk dia 0 ds = Inr ds"
| "diacritics_walk dia (Suc n) ds =
     bnd (rd diacritics_size dia (unat ds + 1)) (\<lambda>len.
       diacritics_walk dia n (ds + word_of_nat (unat len * 2 + 2)))"

text \<open>The search of a sub-table's pairs for the character \<open>c\<close>, from pair \<open>i\<close> on.\<close>

function diacritics_search :: "(nat \<Rightarrow> u8) \<Rightarrow> u16 \<Rightarrow> u8 \<Rightarrow> nat \<Rightarrow> u8 \<Rightarrow> fault + u8 option" where
  "diacritics_search dia ds len i c =
     (if i < unat len then
        (case rd diacritics_size dia (unat ds + i * 2) of
           Inl e \<Rightarrow> Inl e
         | Inr b \<Rightarrow>
             if b = c then
               (case rd diacritics_size dia (unat ds + i * 2 + 1) of
                  Inl e \<Rightarrow> Inl e
                | Inr out \<Rightarrow> Inr (Some out))
             else diacritics_search dia ds len (i + 1) c)
      else Inr None)"
  by pat_completeness auto
termination
  by (relation "measure (\<lambda>(dia, ds, len, i, c). unat len - i)") auto

text \<open>
  The \<^verbatim>\<open>if (diacritics_character>0)\<close> block of the literal branch of \<^verbatim>\<open>map_key\<close>.
  The flag tells whether the block returned from \<^verbatim>\<open>map_key\<close> (a pair matched).
\<close>

definition map_key_diacritics :: "nat \<Rightarrow> u16 \<Rightarrow> keyboard_layout \<Rightarrow> dos_state \<Rightarrow> fault + (bool \<times> keyboard_layout \<times> dos_state)" where
  "map_key_diacritics key layouted_key L D =
     (if diacritics_character L > 0 then
        (if uint (diacritics_character L) - 200 \<ge> uint (diacritics_entries L)
         then Inr (False, L\<lparr> diacritics_character := 0 \<rparr>, D)
         else
           bnd (diacritics_walk (diacritics L)
                  (nat (uint (diacritics_character L) - 200)) 0) (\<lambda>ds.
           bnd (rd diacritics_size (diacritics L) (unat ds + 1)) (\<lambda>diacritics_length.
             let ds2 = ds + 2;
                 L1 = L\<lparr> diacritics_character := 0 \<rparr>
             in bnd (diacritics_search (diacritics L) ds2 diacritics_length 0
                       (ucast (layouted_key AND 0xff))) (\<lambda>m.
                  case m of
                    Some out \<Rightarrow> Inr (True, L1, BIOS_AddKeyToBuffer (key_with key out) D)
                  | None \<Rightarrow>
                      if unat ds2 < 2 then Inl OutOfBounds
                      else bnd (rd diacritics_size (diacritics L) (unat ds2 - 2)) (\<lambda>b.
                             Inr (False, L1, BIOS_AddKeyToBuffer (key_with key b) D))))))
      else Inr (False, L, D))"

definition map_key :: "host \<Rightarrow> nat \<Rightarrow> u16 \<Rightarrow> bool \<Rightarrow> bool \<Rightarrow> keyboard_layout \<Rightarrow> dos_state \<Rightarrow> (fault + (bool \<times> keyboard_layout \<times> dos_state)) option" where
  "map_key h key layouted_key is_command is_keypair L D =
     (if is_command then
        (let key_command = (ucast (layouted_key AND 0xff) :: u8)
         in if key_command \<ge> 200 \<and> key_command < 235 then
              Some (Inr (True,
                (if unat key_command \<ge> unat (diacritics_entries L) + 200
                 then L\<lparr> diacritics_character := 0 \<rparr>
                 else L\<lparr> diacritics_character := ucast key_command \<rparr>), D))
            else if key_command \<ge> 120 \<and> key_command < 140 then
              (case read_keyboard_file_specific h (uint key_command - 119) L D of
                 None \<Rightarrow> None
               | Some (Inl e) \<Rightarrow> Some (Inl e)
               | Some (Inr (L', D')) \<Rightarrow> Some (Inr (True, L', D')))
            else if key_command \<ge> 180 \<and> key_command < 188 then
              Some (Inr (True,
                L\<lparr> user_keys := user_keys L AND NOT (push_bit (unat key_command - 180) 1) \<rparr>, D))
            else if key_command \<ge> 188 \<and> key_command < 196 then
              Some (Inr (True,
                L\<lparr> user_keys := user_keys L OR push_bit (unat key_command - 188) 1 \<rparr>, D))
            else if key_command = 160 then Some (Inr (True, L, D))
            else Some (Inr (False, L, D)))
      else
        (case map_key_diacritics key layouted_key L D of
           Inl e \<Rightarrow> Some (Inl e)
         | Inr (returned, L1, D1) \<Rightarrow>
             if returned then Some (Inr (True, L1, D1))
             else Some (Inr (True, L1,
                    BIOS_AddKeyToBuffer
                      (if is_keypair then layouted_key
                       else push_bit 8 (word_of_nat key) OR (layouted_key AND 0xff)) D1))))"

text \<open>
  The first part of \<^verbatim>\<open>layout_key\<close>: the normal or the shift plane. The flag tells
  whether \<^verbatim>\<open>layout_key\<close> returned true here.
\<close>

definition shift_active :: "u8 \<Rightarrow> u16 \<Rightarrow> bool" where
  "shift_active flags1 key_flags =
     ((ucast (drop_bit 1 (flags1 AND 2) OR (flags1 AND 1)) :: u16)
        XOR drop_bit 6 ((key_flags AND 0x40) AND ucast (flags1 AND 0x40)) \<noteq> 0)"

definition base_planes :: "host \<Rightarrow> nat \<Rightarrow> u8 \<Rightarrow> u8 \<Rightarrow> keyboard_layout \<Rightarrow> dos_state \<Rightarrow> (fault + (bool \<times> keyboard_layout \<times> dos_state)) option" where
  "base_planes h key flags1 flags3 L D =
     (case rd (layout_size h) (current_layout L) (key * layout_pages + layout_pages - 1) of
        Inl e \<Rightarrow> Some (Inl e)
      | Inr key_flags \<Rightarrow>
          if (flags1 AND used_lock_modifiers L) AND 0x7c = 0 \<and> flags3 AND 2 = 0 then
            (let plane = (if shift_active flags1 key_flags then 1 else 0) in
             case rd (layout_size h) (current_layout L) (key * layout_pages + plane) of
               Inl e \<Rightarrow> Some (Inl e)
             | Inr entry \<Rightarrow>
                 if entry \<noteq> 0 then
                   (case rd (layout_size h) (current_layout L)
                           (key * layout_pages + layout_pages - 2) of
                      Inl e \<Rightarrow> Some (Inl e)
                    | Inr cmd \<Rightarrow>
                        map_key h key entry (cmd AND push_bit plane 1 \<noteq> 0)
                          (key_flags AND 0x80 = 0x80) L D)
                 else Some (Inr (False, L, D)))
          else Some (Inr (False, L, D)))"

definition current_flags :: "u8 \<Rightarrow> u8 \<Rightarrow> u8 \<Rightarrow> u16" where
  "current_flags flags1 flags2 flags3 =
     (let cf0 = ucast (flags1 AND 0x7f) OR push_bit 8 (ucast ((flags2 AND 3) OR (flags3 AND 0xc)));
          cf1 = (if flags1 AND 3 \<noteq> 0 then cf0 OR 0x4000 else cf0)
      in if flags3 AND 2 \<noteq> 0 then cf1 OR 0x1000 else cf1)"

definition plane_fits :: "u16 \<Rightarrow> u16 \<Rightarrow> plane_flags \<Rightarrow> bool" where
  "plane_fits cf uk pl =
     (cf AND required_flags pl = required_flags pl \<and>
      uk AND required_userflags pl = required_userflags pl \<and>
      cf AND forbidden_flags pl = 0 \<and>
      uk AND forbidden_userflags pl = 0)"

text \<open>The loop over the additional planes, from plane \<open>cplane\<close> on.\<close>

function plane_loop :: "host \<Rightarrow> nat \<Rightarrow> u16 \<Rightarrow> bool \<Rightarrow> nat \<Rightarrow> keyboard_layout \<Rightarrow> dos_state \<Rightarrow> (fault + (bool \<times> keyboard_layout \<times> dos_state)) option" where
  "plane_loop h key cf is_special_pair cplane L D =
     (if cplane < unat (additional_planes L) then
        (case rd (layout_pages - 4) (current_layout_planes L) cplane of
           Inl e \<Rightarrow> Some (Inl e)
         | Inr pl \<Rightarrow>
             if plane_fits cf (user_keys L) pl then
               (case rd (layout_size h) (current_layout L) (key * layout_pages + 2 + cplane) of
                  Inl e \<Rightarrow> Some (Inl e)
                | Inr entry \<Rightarrow>
                    if entry \<noteq> 0 then
                      (case rd (layout_size h) (current_layout L)
                              (key * layout_pages + layout_pages - 2) of
                         Inl e \<Rightarrow> Some (Inl e)
                       | Inr cmd \<Rightarrow>
                           (case map_key h key entry (drop_bit (cplane + 2) cmd AND 1 \<noteq> 0)
                                   is_special_pair L D of
                              None \<Rightarrow> None
                            | Some (Inl e) \<Rightarrow> Some (Inl e)
                            | Some (Inr r) \<Rightarrow>
                                if fst r then Some (Inr r)
                                else plane_loop h key cf is_special_pair (cplane + 1)
                                       (fst (snd r)) (snd (snd r))))
                    else Some (Inr (False, L, D)))
             else plane_loop h key cf is_special_pair (cplane + 1) L D)
      else Some (Inr (False, L, D)))"
  by pat_completeness auto
termination
proof (relation "measure (\<lambda>(h, key, cf, is_special_pair, cplane, L, D). 256 - cplane)")
  have bound: "cplane < unat (additional_planes L) \<Longrightarrow> cplane < 256"
    for cplane and L :: keyboard_layout
    using unsigned_less [of "additional_planes L", where 'a = nat] by simp
  show "wf (measure (\<lambda>(h, key, cf, is_special_pair, cplane, L, D). 256 - cplane))"
    by simp
  show "((h, key, cf, is_special_pair, cplane + 1, fst (snd r), snd (snd r)),
         (h, key, cf, is_special_pair, cplane, L, D))
        \<in> measure (\<lambda>(h, key, cf, is_special_pair, cplane, L, D). 256 - cplane)"
    if "cplane < unat (additional_planes L)"
    for h :: host and key cf is_special_pair cplane and L :: keyboard_layout and D :: dos_state
      and r :: "bool \<times> keyboard_layout \<times> dos_state"
    using bound [OF that] by simp
  show "((h, key, cf, is_special_pair, cplane + 1, L, D),
         (h, key, cf, is_special_pair, cplane, L, D))
        \<in> measure (\<lambda>(h, key, cf, is_special_pair, cplane, L, D). 256 - cplane)"
    if "cplane < unat (additional_planes L)"
    for h :: host and key cf is_special_pair cplane and L :: keyboard_layout and D :: dos_state
    using bound [OF that] by simp
qed

text \<open>The last part of \<^verbatim>\<open>layout_key\<close>: a dead key is pending.\<close>

definition state_changing_key :: "nat \<Rightarrow> bool" where
  "state_changing_key key =
     (key = 0x1d \<or> key = 0x2a \<or> key = 0x36 \<or> key = 0x38 \<or> key = 0x3a \<or> key = 0x45 \<or> key = 0x46)"

definition pending_diacritics :: "nat \<Rightarrow> keyboard_layout \<Rightarrow> dos_state \<Rightarrow> fault + (bool \<times> keyboard_layout \<times> dos_state)" where
  "pending_diacritics key L D =
     (if diacritics_character L > 0 then
        (if state_changing_key key then Inr (False, L, D)
         else if unat (diacritics_character L) \<ge> unat (diacritics_entries L) + 200
           then Inr (True, L\<lparr> diacritics_character := 0 \<rparr>, D)
         else
           bnd (diacritics_walk (diacritics L)
                  (nat (uint (diacritics_character L) - 200)) 0) (\<lambda>ds.
           bnd (rd diacritics_size (diacritics L) (unat ds)) (\<lambda>b.
             Inr (False, L\<lparr> diacritics_character := 0 \<rparr>,
                  BIOS_AddKeyToBuffer (key_with key b) D))))
      else Inr (False, L, D))"

definition layout_key :: "host \<Rightarrow> nat \<Rightarrow> u8 \<Rightarrow> u8 \<Rightarrow> u8 \<Rightarrow> keyboard_layout \<Rightarrow> dos_state \<Rightarrow> (fault + (bool \<times> keyboard_layout \<times> dos_state)) option" where
  "layout_key h key flags1 flags2 flags3 L D =
     (if key > MAX_SCAN_CODE h then Some (Inr (False, L, D))
      else if \<not> use_foreign_layout L then Some (Inr (False, L, D))
      else
        (case base_planes h key flags1 flags3 L D of
           None \<Rightarrow> None
         | Some (Inl e) \<Rightarrow> Some (Inl e)
         | Some (Inr (handled, L1, D1)) \<Rightarrow>
             if handled then Some (Inr (True, L1, D1))
             else
               (case rd (layout_size h) (current_layout L1)
                       (key * layout_pages + layout_pages - 1) of
                  Inl e \<Rightarrow> Some (Inl e)
                | Inr key_flags \<Rightarrow>
                    (case plane_loop h key (current_flags flags1 flags2 flags3)
                            (key_flags AND 0x80 = 0x80) 0 L1 D1 of
                       None \<Rightarrow> None
                     | Some (Inl e) \<Rightarrow> Some (Inl e)
                     | Some (Inr (handled2, L2, D2)) \<Rightarrow>
                         if handled2 then Some (Inr (True, L2, D2))
                         else Some (pending_diacritics key L2 D2)))))"

section \<open>Code pages: \<^verbatim>\<open>extract_codepage\<close> and \<^verbatim>\<open>read_codepage_file\<close>\<close>

text \<open>
  \<^verbatim>\<open>ceil_udivide\<close> of \<^verbatim>\<open>support.h\<close> is not among the sources; by its name, the quotient
  rounded up.
\<close>

definition ceil_udivide :: "nat \<Rightarrow> nat \<Rightarrow> nat" where
  "ceil_udivide x y = (x + y - 1) div y"

fun first_codepage :: "(nat \<Rightarrow> u8) \<Rightarrow> nat \<Rightarrow> nat \<Rightarrow> nat \<Rightarrow> fault + u16" where
  "first_codepage rb start_pos 0 sub_map = Inr 437"
| "first_codepage rb start_pos (Suc n) sub_map =
     bnd (host_readw read_buf_size_max rb (start_pos + 0x14 + sub_map * 8)) (\<lambda>submap_cp.
       if submap_cp \<noteq> 0 then Inr submap_cp
       else first_codepage rb start_pos n (sub_map + 1))"

text \<open>
  \<^verbatim>\<open>extract_codepage\<close>: the first non-zero code page of the layout's submappings, or 437.
  The search for the payload is the one of \<^verbatim>\<open>read_keyboard_file\<close>, on the function's
  own scratch buffer.
\<close>

definition extract_codepage :: "host \<Rightarrow> u8 list \<Rightarrow> dos_state \<Rightarrow> fault + (u16 \<times> dos_state)" where
  "extract_codepage h keyboard_file_name D =
     (if strcmp_eq keyboard_file_name (cstr ''none'') then Inr (437, D)
      else
        bnd (load_keyboard_buf h (cp_read_buf D) keyboard_file_name) (\<lambda>r.
          let D1 = D\<lparr> cp_read_buf := fst r \<rparr>
          in case snd r of
               Inl code \<Rightarrow> Inr (437, D1)
             | Inr (rb_size, start_pos0) \<Rightarrow>
                 bnd (rd read_buf_size_max (fst r) start_pos0) (\<lambda>data_len.
                   let start_pos = start_pos0 + 1 + unat data_len
                   in if \<not> start_pos < read_buf_size_max then Inl AssertFailed
                      else
                        (let submappings = fst r start_pos
                         in if unat submappings
                                 \<ge> ceil_udivide (read_buf_size_max - start_pos - 0x14) 8
                            then Inr (437, D1)
                            else bnd (first_codepage (fst r) start_pos (unat submappings) 0)
                                   (\<lambda>cp. Inr (cp, D1))))))"

text \<open>\<^verbatim>\<open>get_CPX_file_id\<close>; \<open>None\<close> is the source's -1.\<close>

definition get_CPX_file_id :: "u32 \<Rightarrow> nat option" where
  "get_CPX_file_id codepage_id =
     (if codepage_id \<in> {437, 850, 852, 853, 857, 858} then Some 0
      else if codepage_id \<in> {775, 859, 1116, 1117, 1118, 1119} then Some 1
      else if codepage_id \<in> {771, 772, 808, 855, 866, 872} then Some 2
      else if codepage_id \<in> {848, 849, 1125, 1131, 3012, 30010} then Some 3
      else if codepage_id \<in> {113, 737, 851, 869} then Some 4
      else if codepage_id \<in> {899, 30008, 58210, 59829, 60258, 60853} then Some 5
      else if codepage_id \<in> {30011, 30013, 30014, 30017, 30018, 30019} then Some 6
      else if codepage_id \<in> {770, 773, 774, 777, 778} then Some 7
      else if codepage_id \<in> {860, 861, 863, 865, 867} then Some 8
      else if codepage_id \<in> {667, 668, 790, 991, 3845} then Some 9
      else if codepage_id \<in> {30000, 30001, 30004, 30007, 30009} then Some 10
      else if codepage_id \<in> {30003, 30029, 30030, 58335} then Some 11
      else if codepage_id \<in> {895, 30002, 58152, 59234, 62306} then Some 12
      else if codepage_id \<in> {30006, 30012, 30015, 30016, 30020, 30021} then Some 13
      else if codepage_id \<in> {30023, 30024, 30025, 30026, 30027, 30028} then Some 14
      else if codepage_id \<in> {3021, 30005, 30022, 30031, 30032} then Some 15
      else if codepage_id \<in> {862, 864, 30034, 30033, 30039, 30040} then Some 16
      else if codepage_id \<in> {856, 3846, 3848} then Some 17
      else None)"

text \<open>
  The local \<^verbatim>\<open>cpi_buf\<close> of 65536 bytes. \<^verbatim>\<open>cpi_buf.at(i)\<close> throws outside the array;
  \<^verbatim>\<open>host_readw(&cpi_buf.at(i))\<close> checks the first byte only and reads the following one
  through the raw pointer. Offsets are 32-bit and wrap.
\<close>

definition cpi_buf_size_max :: nat where
  "cpi_buf_size_max = 65536"

definition cpi_at :: "(nat \<Rightarrow> u8) \<Rightarrow> u32 \<Rightarrow> fault + u8" where
  "cpi_at buf i = (if unat i < cpi_buf_size_max then Inr (buf (unat i)) else Inl OutOfRangeException)"

definition cpi_readw :: "(nat \<Rightarrow> u8) \<Rightarrow> u32 \<Rightarrow> fault + u16" where
  "cpi_readw buf i =
     bnd (cpi_at buf i) (\<lambda>lo.
     bnd (rd cpi_buf_size_max buf (unat i + 1)) (\<lambda>hi. Inr (le16 lo hi)))"

definition cpi_readd :: "(nat \<Rightarrow> u8) \<Rightarrow> u32 \<Rightarrow> fault + u32" where
  "cpi_readd buf i =
     bnd (cpi_at buf i) (\<lambda>b0.
     bnd (rd cpi_buf_size_max buf (unat i + 1)) (\<lambda>b1.
     bnd (rd cpi_buf_size_max buf (unat i + 2)) (\<lambda>b2.
     bnd (rd cpi_buf_size_max buf (unat i + 3)) (\<lambda>b3. Inr (le32 b0 b1 b2 b3)))))"

text \<open>
  Writes to font memory: \<open>write_font\<close> is one \<^verbatim>\<open>for\<close> loop of \<^verbatim>\<open>phys_writeb\<close> calls,
  \<open>n\<close> bytes from \<open>src + i\<close> on to offset \<open>i\<close> on of the target.
\<close>

fun write_font :: "(nat \<Rightarrow> u8) \<Rightarrow> font_target \<Rightarrow> u32 \<Rightarrow> nat \<Rightarrow> nat \<Rightarrow> host_call list \<Rightarrow> fault + host_call list" where
  "write_font buf target src 0 i calls = Inr calls"
| "write_font buf target src (Suc n) i calls =
     bnd (cpi_at buf (src + word_of_nat i)) (\<lambda>b.
       write_font buf target src n (i + 1) (calls @ [Phys_writeb target i b]))"

definition load_font :: "(nat \<Rightarrow> u8) \<Rightarrow> u8 \<Rightarrow> u32 \<Rightarrow> bool \<Rightarrow> host_call list \<Rightarrow> fault + (bool \<times> host_call list)" where
  "load_font buf font_height font_data_start font_changed calls =
     (if font_height = 0x10 then
        bnd (write_font buf Font_16 font_data_start (256 * 16) 0 calls) (\<lambda>c.
          Inr (True, c @ [Phys_writeb Font_16_alternate 0 0]))
      else if font_height = 0x0e then
        bnd (write_font buf Font_14 font_data_start (256 * 14) 0 calls) (\<lambda>c.
          Inr (True, c @ [Phys_writeb Font_14_alternate 0 0]))
      else if font_height = 0x08 then
        bnd (write_font buf Font_8_first font_data_start (128 * 8) 0 calls) (\<lambda>c.
        bnd (write_font buf Font_8_second (font_data_start + 128 * 8) (128 * 8) 0 c) (\<lambda>c2.
          Inr (True, c2)))
      else Inr (font_changed, calls))"

fun load_fonts :: "(nat \<Rightarrow> u8) \<Rightarrow> nat \<Rightarrow> u32 \<Rightarrow> bool \<Rightarrow> host_call list \<Rightarrow> fault + (bool \<times> host_call list)" where
  "load_fonts buf 0 font_data_start font_changed calls = Inr (font_changed, calls)"
| "load_fonts buf (Suc n) font_data_start font_changed calls =
     bnd (cpi_at buf font_data_start) (\<lambda>font_height.
     bnd (load_font buf font_height (font_data_start + 6) font_changed calls) (\<lambda>r.
       load_fonts buf n (font_data_start + 6 + ucast font_height * 256) (fst r) (snd r)))"

text \<open>
  The search through the code-page entries: \<open>n\<close> entries are still to be tested, the
  current one starts at \<open>start_pos\<close>.
\<close>

fun cpi_search :: "host \<Rightarrow> (nat \<Rightarrow> u8) \<Rightarrow> int \<Rightarrow> nat \<Rightarrow> u32 \<Rightarrow> dos_state \<Rightarrow> fault + (keyb_code \<times> dos_state)" where
  "cpi_search h buf codepage_id 0 start_pos D = Inr (KEYB_INVALIDCPFILE, D)"
| "cpi_search h buf codepage_id (Suc n) start_pos D =
     bnd (cpi_readw buf (start_pos + 0x04)) (\<lambda>device_type.
     bnd (cpi_readw buf (start_pos + 0x0e)) (\<lambda>font_codepage.
     bnd (cpi_readd buf (start_pos + 0x16)) (\<lambda>font_data_header_pt.
     bnd (cpi_readw buf font_data_header_pt) (\<lambda>font_type.
       if device_type = 0x0001 \<and> font_type = 0x0001 \<and> uint font_codepage = codepage_id then
         bnd (cpi_readw buf (font_data_header_pt + 0x02)) (\<lambda>number_of_fonts.
         bnd (load_fonts buf (unat number_of_fonts) (font_data_header_pt + 0x06) False
                (video_calls D)) (\<lambda>r.
           Inr (KEYB_NOERROR,
                D\<lparr> loaded_codepage := word_of_int codepage_id,
                    video_calls := snd r
                      @ (if fst r \<and> text_mode_on_egavga h then [INT10_ReloadFont] else [])
                      @ [INT10_SetupRomMemoryChecksum] \<rparr>)))
       else
         bnd (cpi_readd buf start_pos) (\<lambda>next_pt.
           cpi_search h buf codepage_id n (next_pt + 2) D)))))"

text \<open>The CPI body, once \<^verbatim>\<open>cpi_buf\<close> holds \<open>cpi_buf_size\<close> bytes of plain CPI data.\<close>

definition parse_cpi_body :: "host \<Rightarrow> (nat \<Rightarrow> u8) \<Rightarrow> nat \<Rightarrow> int \<Rightarrow> dos_state \<Rightarrow> fault + (keyb_code \<times> dos_state)" where
  "parse_cpi_body h buf cpi_buf_size codepage_id D =
     (let start_pos = le32 (buf 0x13) (buf 0x14) (buf 0x15) (buf 0x16)
      in if unat start_pos \<ge> cpi_buf_size then Inr (KEYB_INVALIDCPFILE, D)
         else bnd (cpi_readw buf start_pos) (\<lambda>number_of_codepages.
                cpi_search h buf codepage_id (unat number_of_codepages) (start_pos + 4) D))"

text \<open>The file signatures, as the source tests them.\<close>

definition is_plain_cpi :: "(nat \<Rightarrow> u8) \<Rightarrow> bool" where
  "is_plain_cpi buf =
     (buf 0 = 0xff \<and> buf 1 = 0x46 \<and> buf 2 = 0x4f \<and> buf 3 = 0x4e \<and> buf 4 = 0x54)"

definition is_drdos_cpi :: "(nat \<Rightarrow> u8) \<Rightarrow> bool" where
  "is_drdos_cpi buf =
     (buf 0 = 0x7f \<and> buf 1 \<noteq> 0x44 \<and> buf 2 \<noteq> 0x52 \<and> buf 3 \<noteq> 0x46 \<and> buf 4 \<noteq> 0x5f)"

text \<open>\<^verbatim>\<open>scan_buf.find("UPX!")\<close> from position \<open>p\<close>, with \<open>n\<close> positions left to try.\<close>

fun find_upx :: "(nat \<Rightarrow> u8) \<Rightarrow> nat \<Rightarrow> nat \<Rightarrow> nat option" where
  "find_upx buf 0 p = None"
| "find_upx buf (Suc n) p =
     (if buf p = 0x55 \<and> buf (p + 1) = 0x50 \<and> buf (p + 2) = 0x58 \<and> buf (p + 3) = 0x21
      then Some p else find_upx buf n (p + 1))"

text \<open>
  Opening the code-page file: \<^verbatim>\<open>Z:\CPI\<name>\<close>, and with the last letter swapped between
  I and X when that is not there.
\<close>

definition open_cpi_file :: "host \<Rightarrow> u8 list \<Rightarrow> u8 list option" where
  "open_cpi_file h cp_filename =
     (let nbuf = [0x5A, 0x3A, 0x5C, 0x43, 0x50, 0x49, 0x5C] @ until_nul cp_filename
      in case dos_files h nbuf of
           Some f \<Rightarrow> Some f
         | None \<Rightarrow>
             if c_toupper (last nbuf) = 0x49 then dos_files h (butlast nbuf @ [0x58])
             else if c_toupper (last nbuf) = 0x58 then dos_files h (butlast nbuf @ [0x49])
             else None)"

text \<open>
  What is in \<^verbatim>\<open>cpi_buf\<close> before decompression: the code returned at once, or the buffer,
  \<open>cpi_buf_size\<close>, and for packed data \<open>size_of_cpxdata\<close> and \<open>found_at_pos\<close>.
\<close>

definition load_cpi_buf :: "host \<Rightarrow> u8 list \<Rightarrow> int \<Rightarrow> fault + (keyb_code + ((nat \<Rightarrow> u8) \<times> nat \<times> (nat \<times> nat) option))" where
  "load_cpi_buf h cp_filename codepage_id =
     (case open_cpi_file h cp_filename of
        None \<Rightarrow>
          (case get_CPX_file_id (word_of_int codepage_id) of
             None \<Rightarrow> Inr (Inl KEYB_INVALIDCPFILE)
           | Some i \<Rightarrow>
               if length (BLOB_EGA_CPX h i) > cpi_buf_size_max then Inl OutOfBounds
               else Inr (Inr ((\<lambda>k. if k < length (BLOB_EGA_CPX h i) then BLOB_EGA_CPX h i ! k
                                     else cpi_stack h k),
                              length (BLOB_EGA_CPX h i),
                              Some (length (BLOB_EGA_CPX h i), 0x29))))
      | Some f \<Rightarrow>
          (let buf5 = fst (fread_into (cpi_stack h) f 0 5) in
           if snd (fread_into (cpi_stack h) f 0 5) < 5 then Inr (Inl KEYB_INVALIDCPFILE)
           else if \<not> is_plain_cpi buf5 then
             (if is_drdos_cpi buf5 then Inr (Inl KEYB_INVALIDCPFILE)
              else
                (let buf100 = fst (fread_into buf5 f 5 100) in
                 if snd (fread_into buf5 f 5 100) \<noteq> 100 then Inr (Inl KEYB_INVALIDCPFILE)
                 else
                   (case find_upx buf100 97 0 of
                      None \<Rightarrow> Inr (Inl KEYB_INVALIDCPFILE)
                    | Some upx_id_pos \<Rightarrow>
                        if buf100 (upx_id_pos + 4) < 10 then Inr (Inl KEYB_INVALIDCPFILE)
                        else Inr (Inr (fst (fread_into buf100 f 0 cpi_buf_size_max), 0,
                               Some (snd (fread_into buf100 f 0 cpi_buf_size_max),
                                     5 + (upx_id_pos + 4) + 1))))))
           else Inr (Inr (fst (fread_into buf5 f 0 cpi_buf_size_max),
                          snd (fread_into buf5 f 0 cpi_buf_size_max), None))))"

text \<open>The decompression step for packed data.\<close>

definition unpack_cpi_buf :: "host \<Rightarrow> (nat \<Rightarrow> u8) \<Rightarrow> nat \<Rightarrow> (nat \<times> nat) option \<Rightarrow> fault + ((nat \<Rightarrow> u8) \<times> nat)" where
  "unpack_cpi_buf h buf cpi_buf_size upx =
     (case upx of
        None \<Rightarrow> Inr (buf, cpi_buf_size)
      | Some (size_of_cpxdata, found_at_pos) \<Rightarrow>
          if size_of_cpxdata > 0xfe00 then Inl FatalExit
          else
            bnd (wr cpi_buf_size_max buf (found_at_pos + 19) 0xcb) (\<lambda>buf1.
              case upx_unpack h buf1 size_of_cpxdata of
                None \<Rightarrow> Inl FatalExit
              | Some unpacked \<Rightarrow> Inr (unpacked, 65536)))"

text \<open>
  \<^verbatim>\<open>read_codepage_file\<close>. The function reads and writes no member of the layout object, so
  the layout does not appear.
\<close>

definition read_codepage_file :: "host \<Rightarrow> u8 list \<Rightarrow> int \<Rightarrow> dos_state \<Rightarrow> fault + (keyb_code \<times> dos_state)" where
  "read_codepage_file h codepage_file_name codepage_id D =
     (let cp_filename = safe_strcpy 512 codepage_file_name
      in if strcmp_eq cp_filename (cstr ''none'') then Inr (KEYB_NOERROR, D)
         else if codepage_id = uint (loaded_codepage D) then Inr (KEYB_NOERROR, D)
         else
           bnd (if strcmp_eq cp_filename (cstr ''auto'')
                then (case get_CPX_file_id (word_of_int codepage_id) of
                        None \<Rightarrow> Inr (Inl KEYB_INVALIDCPFILE)
                      | Some i \<Rightarrow> Inr (Inr (FILE_EGA_CPX h i)))
                else Inr (Inr cp_filename)) (\<lambda>n.
             case n of
               Inl code \<Rightarrow> Inr (code, D)
             | Inr cp_filename' \<Rightarrow>
                 bnd (load_cpi_buf h cp_filename' codepage_id) (\<lambda>l.
                   case l of
                     Inl code \<Rightarrow> Inr (code, D)
                   | Inr (buf, cpi_buf_size, upx) \<Rightarrow>
                       bnd (unpack_cpi_buf h buf cpi_buf_size upx) (\<lambda>u.
                         parse_cpi_body h (fst u) (snd u) codepage_id D))))"

section \<open>Switching and the session\<close>

text \<open>
  \<^verbatim>\<open>switch_keyboard_layout\<close> on the loaded layout \<open>L\<close>: the code, the layout itself, the
  layout created (the source's \<^verbatim>\<open>created_layout\<close>, if set), \<^verbatim>\<open>tried_cp\<close>, and the state.
\<close>

definition language_code_found :: "u8 list \<Rightarrow> u8 list list \<Rightarrow> bool" where
  "language_code_found tbuf codes =
     list_ex (\<lambda>code. strncasecmp_eq tbuf code (length tbuf)) codes"

definition switch_keyboard_layout :: "host \<Rightarrow> u8 list \<Rightarrow> int \<Rightarrow> keyboard_layout \<Rightarrow> dos_state \<Rightarrow> (fault + (keyb_code \<times> keyboard_layout \<times> keyboard_layout option \<times> int \<times> dos_state)) option" where
  "switch_keyboard_layout h new_layout tried_cp L D =
     (if \<not> strncasecmp_eq new_layout (cstr ''US'') 2 then
        (if language_code_found (safe_strcpy 256 new_layout) (language_codes L) then
           Some (Inr (KEYB_NOERROR,
             (if \<not> use_foreign_layout L
              then L\<lparr> use_foreign_layout := True, diacritics_character := 0 \<rparr> else L),
             None, tried_cp, D))
         else
           (case extract_codepage h new_layout D of
              Inl e \<Rightarrow> Some (Inl e)
            | Inr (req_codepage, D1) \<Rightarrow>
                (case read_keyboard_file_cp h new_layout (uint req_codepage)
                        new_keyboard_layout D1 of
                   None \<Rightarrow> None
                 | Some (Inl e) \<Rightarrow> Some (Inl e)
                 | Some (Inr (kerrcode, temp_layout, D2)) \<Rightarrow>
                     if kerrcode \<noteq> KEYB_NOERROR
                     then Some (Inr (kerrcode, L, None, uint req_codepage, D2))
                     else
                       (case read_codepage_file h (cstr ''auto'') (uint req_codepage) D2 of
                          Inl e \<Rightarrow> Some (Inl e)
                        | Inr (kerrcode2, D3) \<Rightarrow>
                            if kerrcode2 \<noteq> KEYB_NOERROR
                            then Some (Inr (kerrcode2, L, None, uint req_codepage, D3))
                            else Some (Inr (KEYB_NOERROR, L, Some temp_layout,
                                            uint req_codepage, D3))))))
      else if use_foreign_layout L then
        Some (Inr (KEYB_NOERROR,
          L\<lparr> use_foreign_layout := False, diacritics_character := 0 \<rparr>, None, tried_cp, D))
      else Some (Inr (KEYB_NOERROR, L, None, tried_cp, D)))"

text \<open>The session: the global \<^verbatim>\<open>loaded_layout\<close> pointer and the state around it.\<close>

record session =
  loaded_layout :: "keyboard_layout option"
  dos :: dos_state

definition DOS_LayoutKey :: "host \<Rightarrow> nat \<Rightarrow> u8 \<Rightarrow> u8 \<Rightarrow> u8 \<Rightarrow> session \<Rightarrow> (fault + (bool \<times> session)) option" where
  "DOS_LayoutKey h key flags1 flags2 flags3 S =
     (case loaded_layout S of
        None \<Rightarrow> Some (Inr (False, S))
      | Some L \<Rightarrow>
          (case layout_key h key flags1 flags2 flags3 L (dos S) of
             None \<Rightarrow> None
           | Some (Inl e) \<Rightarrow> Some (Inl e)
           | Some (Inr (handled, L', D')) \<Rightarrow>
               Some (Inr (handled, \<lparr> loaded_layout = Some L', dos = D' \<rparr>))))"

definition DOS_LoadKeyboardLayout :: "host \<Rightarrow> u8 list \<Rightarrow> int \<Rightarrow> u8 list \<Rightarrow> session \<Rightarrow> (fault + (keyb_code \<times> session)) option" where
  "DOS_LoadKeyboardLayout h layoutname codepage codepagefile S =
     (case read_keyboard_file_cp h layoutname codepage new_keyboard_layout (dos S) of
        None \<Rightarrow> None
      | Some (Inl e) \<Rightarrow> Some (Inl e)
      | Some (Inr (kerrcode, temp_layout, D1)) \<Rightarrow>
          if kerrcode \<noteq> KEYB_NOERROR then Some (Inr (kerrcode, S\<lparr> dos := D1 \<rparr>))
          else
            (case read_codepage_file h codepagefile codepage D1 of
               Inl e \<Rightarrow> Some (Inl e)
             | Inr (kerrcode2, D2) \<Rightarrow>
                 if kerrcode2 \<noteq> KEYB_NOERROR then Some (Inr (kerrcode2, S\<lparr> dos := D2 \<rparr>))
                 else Some (Inr (KEYB_NOERROR, \<lparr> loaded_layout = Some temp_layout, dos = D2 \<rparr>))))"

definition DOS_SwitchKeyboardLayout :: "host \<Rightarrow> u8 list \<Rightarrow> int \<Rightarrow> session \<Rightarrow> (fault + (keyb_code \<times> int \<times> session)) option" where
  "DOS_SwitchKeyboardLayout h new_layout tried_cp S =
     (case loaded_layout S of
        None \<Rightarrow> Some (Inr (KEYB_NOLAYOUT_0xff, tried_cp, S))
      | Some L \<Rightarrow>
          (case switch_keyboard_layout h new_layout tried_cp L (dos S) of
             None \<Rightarrow> None
           | Some (Inl e) \<Rightarrow> Some (Inl e)
           | Some (Inr (ret_code, L', changed_layout, tried_cp', D')) \<Rightarrow>
               Some (Inr (ret_code, tried_cp',
                 \<lparr> loaded_layout = (case changed_layout of None \<Rightarrow> Some L' | Some C \<Rightarrow> Some C),
                   dos = D' \<rparr>))))"

section \<open>Concrete surroundings and states\<close>

text \<open>
  A host with no files at all, built-in layout libraries that hold the library header and
  no record, and \<^verbatim>\<open>MAX_SCAN_CODE\<close> at 0x58; and the state the module starts in
  (code page 437).
\<close>

definition bare_host :: host where
  "bare_host = \<lparr> MAX_SCAN_CODE = 0x58, dos_files = (\<lambda>_. None),
       BLOB_KEYBOARD_SYS = (\<lambda>_. [0x4b, 0x43, 0x46, 0, 0, 0, 0]),
       BLOB_EGA_CPX = (\<lambda>_. []), FILE_EGA_CPX = (\<lambda>_. []),
       upx_unpack = (\<lambda>_ _. None), cpi_stack = (\<lambda>_. 0), text_mode_on_egavga = False \<rparr>"

definition initial_dos :: dos_state where
  "initial_dos = \<lparr> loaded_codepage = 437, bios_key_buffer = [], video_calls = [],
       kl_read_buf = (\<lambda>_. 0), cp_read_buf = (\<lambda>_. 0) \<rparr>"

text \<open>
  The pairs of the sub-table that starts at \<open>start\<close> (lead byte, pair count, then the
  pairs), as an association list from the first byte of a pair to its second.
\<close>

definition subtable_pairs :: "(nat \<Rightarrow> u8) \<Rightarrow> nat \<Rightarrow> nat \<Rightarrow> (u8 \<times> u8) list" where
  "subtable_pairs dia start n =
     map (\<lambda>i. (dia (start + 2 + 2 * i), dia (start + 2 + 2 * i + 1))) [0..<n]"

text \<open>
  A layout in use whose diacritics table has the one sub-table of the circumflex
  (0x5E) with the pair e (0x65) to e-circumflex (0xEA).
\<close>

definition circumflex_layout :: keyboard_layout where
  "circumflex_layout = new_keyboard_layout
     \<lparr> diacritics := (\<lambda>_. 0)(0 := 0x5E, 1 := 1, 2 := 0x65, 3 := 0xEA),
       diacritics_entries := 1,
       use_foreign_layout := True \<rparr>"

text \<open>A file given by a function: its first \<open>n\<close> bytes.\<close>

definition bytes_of :: "(nat \<Rightarrow> u8) \<Rightarrow> nat \<Rightarrow> u8 list" where
  "bytes_of f n = map f [0..<n]"

text \<open>
  A file of 105 bytes that starts with the DR-DOS signature 7F 44 52 46 5F, followed by
  "UPX!" and the version byte 13; a small plain CPI image with one display entry for code
  page 850 and no fonts; and a host that has the file as \<^verbatim>\<open>Z:\CPI\DRDOS.CPI\<close> and whose
  decompression yields that image.
\<close>

definition drdos_upx_file :: "u8 list" where
  "drdos_upx_file =
     bytes_of ((\<lambda>_. 0)(0 := 0x7F, 1 := 0x44, 2 := 0x52, 3 := 0x46, 4 := 0x5F,
                        5 := 0x55, 6 := 0x50, 7 := 0x58, 8 := 0x21, 9 := 0x0D)) 105"

definition tiny_cpi :: "nat \<Rightarrow> u8" where
  "tiny_cpi = (\<lambda>_. 0)(0x13 := 0x17, 0x17 := 1, 0x1F := 1, 0x29 := 0x52, 0x2A := 0x03,
                       0x31 := 0x40, 0x40 := 1)"

definition drdos_host :: host where
  "drdos_host = bare_host
     \<lparr> dos_files := (\<lambda>n. if n = [0x5A, 0x3A, 0x5C, 0x43, 0x50, 0x49, 0x5C] @ cstr ''DRDOS.CPI''
                          then Some drdos_upx_file else None),
       upx_unpack := (\<lambda>_ _. Some tiny_cpi) \<rparr>"



text \<open>Two states that agree on everything but the scratch buffers of the parsers.\<close>

definition same_but_scratch :: "dos_state \<Rightarrow> dos_state \<Rightarrow> bool" where
  "same_but_scratch D D' =
     (loaded_codepage D = loaded_codepage D' \<and> bios_key_buffer D = bios_key_buffer D' \<and>
      video_calls D = video_calls D')"

text \<open>The session as the module's constructor leaves it: a new layout, code page 437.\<close>

definition fresh_session :: session where
  "fresh_session = \<lparr> loaded_layout = Some new_keyboard_layout, dos = initial_dos \<rparr>"

text \<open>
  The range of \<open>diacritics_character\<close>: 0, or a value in
  \<open>[200, diacritics_entries + 200)\<close>.
\<close>

definition diacritics_inv :: "keyboard_layout \<Rightarrow> bool" where
  "diacritics_inv L =
     (diacritics_character L = 0 \<or>
      (200 \<le> unat (diacritics_character L) \<and>
       unat (diacritics_character L) < unat (diacritics_entries L) + 200))"

text \<open>
  A keyboard layout file of 64 bytes whose only key-mapping record has the scan byte
  \<open>0x81\<close>: magic \<^verbatim>\<open>KLF\<close>, no language codes, one submapping for every code page
  whose key table is at offset 28 from the header, the record \<open>0x81 0x00 0x00 0x41\<close>
  there. The host \<open>high_bit_host\<close> has it as \<^verbatim>\<open>bad.kl\<close>.
\<close>

definition kl_high_bit_scan :: "nat \<Rightarrow> u8" where
  "kl_high_bit_scan = (\<lambda>_. 0)(0 := 0x4B, 1 := 0x4C, 2 := 0x46, 6 := 1, 28 := 28,
                               34 := 0x81, 37 := 0x41)"

definition high_bit_host :: host where
  "high_bit_host = bare_host
     \<lparr> dos_files := (\<lambda>n. if n = cstr ''bad.kl'' then Some (bytes_of kl_high_bit_scan 64)
                          else None) \<rparr>"

text \<open>
  A key-mapping record as the parser reads it, \<open>pos\<close> being the cursor after the three
  header bytes (scan code, flags, command bits): its length field plus one, the position of
  its \<open>p\<close>-th entry (entries are two bytes wide when the flag \<open>0x80\<close> is set) and the
  value of that entry. \<open>installed r scan\<close> is the row of the first ten planes of \<open>scan\<close> in
  the table that \<open>key_record\<close> returned. Two records for the scan code \<open>0x10\<close>: one
  with three one-byte entries, one with two entries the second of which is zero.
\<close>

definition record_length :: "(nat \<Rightarrow> u8) \<Rightarrow> nat \<Rightarrow> nat" where
  "record_length rb pos = unat (rb (pos - 2) AND 7) + 1"

definition record_entry_pos :: "(nat \<Rightarrow> u8) \<Rightarrow> nat \<Rightarrow> nat \<Rightarrow> nat" where
  "record_entry_pos rb pos p = pos + p * (if rb (pos - 2) AND 0x80 \<noteq> 0 then 2 else 1)"

definition record_entry :: "(nat \<Rightarrow> u8) \<Rightarrow> nat \<Rightarrow> nat \<Rightarrow> u16" where
  "record_entry rb pos p =
     (if rb (pos - 2) AND 0x80 \<noteq> 0
      then le16 (rb (record_entry_pos rb pos p)) (rb (record_entry_pos rb pos p + 1))
      else ucast (rb (record_entry_pos rb pos p)))"

definition installed :: "fault + ((nat \<Rightarrow> u16) \<times> nat) \<Rightarrow> nat \<Rightarrow> fault + u16 list" where
  "installed r scan =
     (case r of
        Inl e \<Rightarrow> Inl e
      | Inr t \<Rightarrow> Inr (map (\<lambda>p. fst t (scan * layout_pages + p)) [0, 1, 2, 3, 4, 5, 6, 7, 8, 9]))"

definition three_plane_record :: "nat \<Rightarrow> u8" where
  "three_plane_record = (\<lambda>_. 0)(0 := 0x10, 1 := 2, 3 := 0x61, 4 := 0x62, 5 := 0x63)"

definition zero_entry_record :: "nat \<Rightarrow> u8" where
  "zero_entry_record = (\<lambda>_. 0)(0 := 0x10, 1 := 1, 3 := 0x61)"

definition empty_table :: "nat \<Rightarrow> u16" where
  "empty_table = (\<lambda>_. 0)"


text \<open>
  Two layout files. \<^verbatim>\<open>a.kl\<close> (48 bytes) has two submappings: a general one whose key
  table maps the scan code \<open>0x10\<close> to the command 120 (re-read the file for submapping
  1), and one for code page 437 whose key table is the last byte of the file, the scan
  byte \<open>0x1E\<close> of a record whose flags, command bits and entry would follow at offsets
  48, 49 and 50. \<^verbatim>\<open>xx.kl\<close> (51 bytes) has the magic and no submapping, and the
  byte \<open>0x61\<close> at offset 50.
\<close>

definition kl_a :: "nat \<Rightarrow> u8" where
  "kl_a = (\<lambda>_. 0)(0 := 0x4B, 1 := 0x4C, 2 := 0x46, 6 := 2, 28 := 36,
                   34 := 0xB5, 35 := 0x01, 36 := 41,
                   42 := 0x10, 44 := 0x01, 45 := 0x78, 47 := 0x1E)"

definition kl_xx :: "nat \<Rightarrow> u8" where
  "kl_xx = (\<lambda>_. 0)(0 := 0x4B, 1 := 0x4C, 2 := 0x46, 50 := 0x61)"

definition stale_host :: host where
  "stale_host = bare_host
     \<lparr> dos_files := (\<lambda>n. if n = cstr ''a.kl'' then Some (bytes_of kl_a 48)
                          else if n = cstr ''xx.kl'' then Some (bytes_of kl_xx 51)
                          else None) \<rparr>"

text \<open>
  A run of key events through \<open>DOS_LayoutKey\<close> with no modifier held, and what a
  capture of it shows: the flags returned and the BIOS key buffer at the end.
\<close>

fun translate_keys :: "host \<Rightarrow> nat list \<Rightarrow> session \<Rightarrow> (fault + (bool list \<times> session)) option" where
  "translate_keys h [] S = Some (Inr ([], S))"
| "translate_keys h (key # keys) S =
     (case DOS_LayoutKey h key 0 0 0 S of
        None \<Rightarrow> None
      | Some (Inl e) \<Rightarrow> Some (Inl e)
      | Some (Inr (handled, S1)) \<Rightarrow>
          (case translate_keys h keys S1 of
             None \<Rightarrow> None
           | Some (Inl e) \<Rightarrow> Some (Inl e)
           | Some (Inr (rest, S2)) \<Rightarrow> Some (Inr (handled # rest, S2))))"

definition capture :: "host \<Rightarrow> nat list \<Rightarrow> session \<Rightarrow> (fault + (bool list \<times> u16 list)) option" where
  "capture h keys S =
     (case translate_keys h keys S of
        None \<Rightarrow> None
      | Some (Inl e) \<Rightarrow> Some (Inl e)
      | Some (Inr (flags, S')) \<Rightarrow> Some (Inr (flags, bios_key_buffer (dos S'))))"

text \<open>
  What the runtime reads of a layout loaded from \<^verbatim>\<open>a.kl\<close> when the byte at offset
  50 of the read buffer was \<open>v\<close>.
\<close>

definition layout_of_a :: "u8 \<Rightarrow> keyboard_layout \<Rightarrow> bool" where
  "layout_of_a v L =
     (current_layout L 192 = 0x78 \<and> current_layout L 202 = 1 \<and> current_layout L 203 = 0 \<and>
      current_layout L 360 = ucast v \<and> current_layout L 370 = 0 \<and> current_layout L 371 = 0 \<and>
      additional_planes L = 0 \<and> use_foreign_layout L \<and> diacritics_character L = 0 \<and>
      used_lock_modifiers L = 0x0f \<and> language_codes L = [])"

text \<open>
  Two layout files for code page 437. In \<^verbatim>\<open>dia.kl\<close> (2085 bytes) the diacritics table
  starts at offset 34 and has sub-tables of 255, 255, 255, 254 and 1 pairs, so that it
  ends at offset 2050 of the table, where the file has the byte 5. In \<^verbatim>\<open>b1.kl\<close>
  (41 bytes) the key table is the one record \<open>0xB1 0x02 0x00\<close> with the entries
  0, 0 and 5.
\<close>

definition kl_dia_overrun :: "nat \<Rightarrow> u8" where
  "kl_dia_overrun = (\<lambda>_. 0)(0 := 0x4B, 1 := 0x4C, 2 := 0x46, 6 := 1,
                           26 := 0xB5, 27 := 0x01, 30 := 28,
                           34 := 1, 35 := 255, 546 := 1, 547 := 255, 1058 := 1, 1059 := 255,
                           1570 := 1, 1571 := 254, 2080 := 1, 2081 := 1, 2084 := 5)"

definition kl_scan_b1 :: "nat \<Rightarrow> u8" where
  "kl_scan_b1 = (\<lambda>_. 0)(0 := 0x4B, 1 := 0x4C, 2 := 0x46, 6 := 1,
                         26 := 0xB5, 27 := 0x01, 28 := 28,
                         34 := 0xB1, 35 := 2, 39 := 5)"

definition overrun_host :: host where
  "overrun_host = bare_host
     \<lparr> dos_files := (\<lambda>n. if n = cstr ''dia.kl'' then Some (bytes_of kl_dia_overrun 2085)
                          else if n = cstr ''b1.kl'' then Some (bytes_of kl_scan_b1 41)
                          else None) \<rparr>"


section \<open>Basic facts\<close>

text \<open>The recursive equations of the loops are unfolded by hand.\<close>

declare kcl_file_chars.simps [simp del]
  kcl_file_ids.simps [simp del]
  kcl_file_records.simps [simp del]
  kcl_data_chars.simps [simp del]
  kcl_data_ids.simps [simp del]
  kcl_data_records.simps [simp del]
  lang_code_chars.simps [simp del]
  lang_codes_loop.simps [simp del]
  diacritics_scan.simps [simp del]
  diacritics_copy.simps [simp del]
  add_mappings.simps [simp del]
  key_table_loop.simps [simp del]
  diacritics_search.simps [simp del]
  plane_loop.simps [simp del]
  dec_digits.simps [simp del]


lemma bnd_simps [simp]: "bnd (Inl e) f = Inl e" "bnd (Inr v) f = f v"
  by (simp_all add: bnd_def)

lemma search_in_bounds:
  "unat ds + 2 * unat len \<le> diacritics_size \<Longrightarrow> i \<le> unat len \<Longrightarrow>
   diacritics_search dia ds len i c =
     Inr (map_of (map (\<lambda>k. (dia (unat ds + 2 * k), dia (unat ds + 2 * k + 1))) [i..<unat len]) c)"
proof (induction dia ds len i c rule: diacritics_search.induct)
  case (1 dia ds len i c)
  show ?case
  proof (cases "i < unat len")
    case True
    then have ups: "[i..<unat len] = i # [i + 1..<unat len]"
      by (simp add: upt_conv_Cons)
    from True 1(2) have inb: "unat ds + i * 2 < diacritics_size" "unat ds + i * 2 + 1 < diacritics_size"
      by simp_all
    show ?thesis
    proof (cases "dia (unat ds + i * 2) = c")
      case True
      with \<open>i < unat len\<close> inb ups show ?thesis
        by (subst diacritics_search.simps) (simp add: rd_def mult.commute)
    next
      case False
      with \<open>i < unat len\<close> inb have "diacritics_search dia ds len i c = diacritics_search dia ds len (i + 1) c"
        by (subst diacritics_search.simps) (simp add: rd_def)
      also have "\<dots> = Inr (map_of (map (\<lambda>k. (dia (unat ds + 2 * k), dia (unat ds + 2 * k + 1))) [i + 1..<unat len]) c)"
        using "1.IH" [of "dia (unat ds + i * 2)"] \<open>i < unat len\<close> inb False 1(2)
        by (simp add: rd_def)
      finally show ?thesis
        using False ups by (simp add: mult.commute)
    qed
  next
    case False
    then show ?thesis
      by (subst diacritics_search.simps) simp
  qed
qed

lemma search_subtable:
  assumes "unat ds + 2 + 2 * unat len \<le> diacritics_size"
  shows "diacritics_search dia (ds + 2) len 0 c
           = Inr (map_of (subtable_pairs dia (unat ds) (unat len)) c)"
proof -
  from assms have "unat ds + 2 < 2 ^ 16"
    by (simp add: diacritics_size_def)
  then have u: "unat (ds + 2) = unat ds + 2"
    by (simp add: unat_word_ariths)
  with assms have "unat (ds + 2) + 2 * unat len \<le> diacritics_size"
    by simp
  from search_in_bounds [OF this, of 0 dia c] u show ?thesis
    by (simp add: subtable_pairs_def add.assoc)
qed

lemma map_key_not_handled:
  assumes "map_key h key layouted_key is_command is_keypair L D = Some (Inr (False, L', D'))"
  shows "L' = L \<and> D' = D"
proof (cases is_command)
  case True
  with assms show ?thesis
    unfolding map_key_def Let_def
    by (auto split: if_splits option.splits sum.splits prod.splits)
next
  case False
  with assms show ?thesis
    unfolding map_key_def
    by (auto split: if_splits sum.splits prod.splits)
qed

lemma base_planes_not_handled:
  assumes "base_planes h key flags1 flags3 L D = Some (Inr (False, L', D'))"
  shows "L' = L \<and> D' = D"
  using assms unfolding base_planes_def Let_def
  by (auto split: sum.splits if_splits dest: map_key_not_handled)

lemma plane_loop_not_handled:
  "plane_loop h key cf pair cplane L D = Some (Inr (False, L', D')) \<Longrightarrow> L' = L \<and> D' = D"
proof (induction h key cf pair cplane L D rule: plane_loop.induct)
  case (1 h key cf pair cplane L D)
  show ?case
  proof (cases "cplane < unat (additional_planes L)")
    case False
    with "1.prems" show ?thesis
      by (subst (asm) plane_loop.simps) simp
  next
    case lt: True
    show ?thesis
    proof (cases "rd (layout_pages - 4) (current_layout_planes L) cplane")
      case (Inl e)
      with lt "1.prems" show ?thesis
        by (subst (asm) plane_loop.simps) simp
    next
      case pl: (Inr pl)
      show ?thesis
      proof (cases "plane_fits cf (user_keys L) pl")
        case False
        with lt pl "1.prems"
        have "plane_loop h key cf pair (cplane + 1) L D = Some (Inr (False, L', D'))"
          by (subst (asm) plane_loop.simps) simp
        with "1.IH"(2) [OF lt pl False] show ?thesis .
      next
        case fits: True
        show ?thesis
        proof (cases "rd (layout_size h) (current_layout L) (key * layout_pages + 2 + cplane)")
          case (Inl e)
          with lt pl fits "1.prems" show ?thesis
            by (subst (asm) plane_loop.simps) simp
        next
          case entry: (Inr entry)
          show ?thesis
          proof (cases "entry = 0")
            case True
            with lt pl fits entry "1.prems" show ?thesis
              by (subst (asm) plane_loop.simps) simp
          next
            case nz: False
            show ?thesis
            proof (cases "rd (layout_size h) (current_layout L) (key * layout_pages + layout_pages - 2)")
              case (Inl e)
              with lt pl fits entry nz "1.prems" show ?thesis
                by (subst (asm) plane_loop.simps) simp
            next
              case cmd: (Inr cmd)
              let ?m = "map_key h key entry (drop_bit (cplane + 2) cmd AND 1 \<noteq> 0) pair L D"
              from lt pl fits entry nz cmd "1.prems"
              obtain r where m: "?m = Some (Inr r)"
                and rest: "(if fst r then Some (Inr r)
                            else plane_loop h key cf pair (cplane + 1) (fst (snd r)) (snd (snd r)))
                           = Some (Inr (False, L', D'))"
                by (subst (asm) plane_loop.simps) (auto split: option.splits sum.splits)
              show ?thesis
              proof (cases "fst r")
                case True
                with rest show ?thesis by auto
              next
                case False
                with rest have lp: "plane_loop h key cf pair (cplane + 1) (fst (snd r)) (snd (snd r))
                    = Some (Inr (False, L', D'))"
                  by simp
                from False m have "?m = Some (Inr (False, fst (snd r), snd (snd r)))"
                  by (cases r) auto
                from map_key_not_handled [OF this] have same: "fst (snd r) = L" "snd (snd r) = D"
                  by simp_all
                from "1.IH"(1) [OF lt pl fits entry nz cmd m refl False lp] same
                show ?thesis by simp
              qed
            qed
          qed
        qed
      qed
    qed
  qed
qed

lemma fread_into_bytes_of:
  "fread_into buf (bytes_of f n) pos m =
     ((\<lambda>i. if i < min m (n - pos) then f (pos + i) else buf i), min m (n - pos))"
  by (auto simp: fread_into_def fread_def bytes_of_def Let_def drop_map take_map min_def
      intro!: ext)

lemma find_upx_numeral:
  "find_upx buf (numeral k) p =
     (if buf p = 0x55 \<and> buf (p + 1) = 0x50 \<and> buf (p + 2) = 0x58 \<and> buf (p + 3) = 0x21
      then Some p else find_upx buf (pred_numeral k) (p + 1))"
  by (simp add: numeral_eq_Suc)

lemma drdos_load:
  "\<exists>buf. load_cpi_buf drdos_host (cstr ''DRDOS.CPI'') 850 = Inr (Inr (buf, 0, Some (105, 10)))"
  by (simp add: load_cpi_buf_def open_cpi_file_def drdos_host_def bare_host_def cstr_def
      until_nul_def drdos_upx_file_def fread_into_bytes_of is_plain_cpi_def is_drdos_cpi_def
      Let_def cpi_buf_size_max_def find_upx_numeral)


lemma uint_ucast_8_16: "uint (ucast (x :: u8) :: u16) = uint x"
  by (simp add: uint_up_ucast is_up)

lemma unat_ucast_8_16: "unat (ucast (x :: u8) :: u16) = unat x"
proof -
  have "int (unat (ucast x :: u16)) = int (unat x)"
    using uint_ucast_8_16 [of x] by (simp only: uint_nat)
  then show ?thesis by (simp only: of_nat_eq_iff)
qed

lemma bnd_eq_Inr:
  "bnd m f = Inr y \<Longrightarrow> \<exists>v. m = Inr v \<and> f v = Inr y"
  by (cases m) simp_all

lemma read_planes_dc:
  "read_planes rb n i pos L = Inr L' \<Longrightarrow> diacritics_character L' = diacritics_character L"
proof (induction n arbitrary: i pos L)
  case 0
  then show ?case by simp
next
  case (Suc n)
  from Suc.prems show ?case
    by (auto dest!: bnd_eq_Inr Suc.IH)
qed

lemma parse_head_dc:
  assumes "parse_head h rb start_pos0 L = Inr (L1, start_pos, submappings)"
  shows "diacritics_character L1 = diacritics_character L"
  using assms unfolding parse_head_def Let_def
  by (auto dest!: bnd_eq_Inr read_planes_dc split: if_splits)

lemma read_diacritics_dc:
  "read_diacritics rb base L = Inr L' \<Longrightarrow> diacritics_character L' = diacritics_character L"
  unfolding read_diacritics_def by (auto dest!: bnd_eq_Inr)

lemma submap_body_dc:
  assumes "submap_body h rb rb_size start_pos specific_layout requested_codepage L sm = Inr r"
  shows "diacritics_character (fst r) = diacritics_character L"
  using assms unfolding submap_body_def Let_def
  by (auto dest!: bnd_eq_Inr read_diacritics_dc split: if_splits)

lemma submap_loop_dc:
  assumes "submap_loop h rb rb_size start_pos specific_layout requested_codepage submappings
             L sub_map found = Some y"
  shows "case y of Inl e \<Rightarrow> True | Inr r \<Rightarrow> diacritics_character (fst r) = diacritics_character L"
proof (rule submap_loop.raw_induct
    [where P = "\<lambda>h rb rb_size start_pos specific_layout requested_codepage submappings L
                   sub_map found y.
                 case y of Inl e \<Rightarrow> True
                 | Inr r \<Rightarrow> diacritics_character (fst r) = diacritics_character L",
     OF _ assms], goal_cases)
  case (1 loop h rb rb_size start_pos specific_layout requested_codepage submappings L sub_map
          found y)
  let ?sm = "if sub_map \<noteq> 0 \<and> specific_layout \<noteq> - 1 then word_of_int specific_layout
             else sub_map"
  show ?case
  proof (cases "unat sub_map < unat submappings \<and> \<not> found")
    case False
    with 1(2) show ?thesis by auto
  next
    case True
    show ?thesis
    proof (cases "submap_body h rb rb_size start_pos specific_layout requested_codepage L ?sm")
      case (Inl e)
      with True 1(2) show ?thesis by (auto simp: Let_def)
    next
      case (Inr r)
      note body = submap_body_dc [OF Inr]
      show ?thesis
      proof (cases "snd (snd r)")
        case True
        with \<open>unat sub_map < unat submappings \<and> \<not> found\<close> Inr 1(2) body show ?thesis
          by (auto simp: Let_def)
      next
        case False
        with \<open>unat sub_map < unat submappings \<and> \<not> found\<close> Inr 1(2)
        have "loop h rb rb_size start_pos specific_layout requested_codepage submappings (fst r)
                (?sm + 1) (fst (snd r)) = Some y"
          by (simp add: Let_def)
        from 1(1) [OF this] body show ?thesis
          by (auto split: sum.splits)
      qed
    qed
  qed
qed

lemma parse_keyboard_buf_dc:
  assumes "parse_keyboard_buf h rb rb_size start_pos0 specific_layout requested_codepage L
             = Some (Inr (code, L'))"
    and "diacritics_character L = 0"
  shows "diacritics_character L' = 0"
proof -
  from assms(1) obtain L1 start_pos submappings y where
    hd: "parse_head h rb start_pos0 L = Inr (L1, start_pos, submappings)"
    and lp: "submap_loop h rb rb_size start_pos specific_layout requested_codepage
               submappings L1 0 False = Some y"
    and res: "(case y of Inl e \<Rightarrow> Some (Inl e)
               | Inr (L2, found) \<Rightarrow>
                   if found then Some (Inr (KEYB_NOERROR, L2\<lparr> use_foreign_layout := True \<rparr>))
                   else Some (Inr (KEYB_LAYOUTNOTFOUND, reset L2))) = Some (Inr (code, L'))"
    unfolding parse_keyboard_buf_def
    by (auto split: sum.splits option.splits prod.splits)
  from submap_loop_dc [OF lp] parse_head_dc [OF hd] assms(2) res show ?thesis
    by (auto split: sum.splits prod.splits if_splits simp: reset_def)
qed

lemma read_keyboard_file_result:
  assumes "read_keyboard_file h name specific_layout requested_codepage L D
             = Some (Inr (code, L', D'))"
  shows "diacritics_character L' = 0 \<and> D' = D\<lparr> kl_read_buf := kl_read_buf D' \<rparr>"
proof -
  have z: "diacritics_character (reset L) = 0"
     "diacritics_character (reset L\<lparr> current_keyboard_file_name := n \<rparr>) = 0" for n
    by (simp_all add: reset_def)
  from assms show ?thesis
    unfolding read_keyboard_file_def Let_def
    by (auto split: if_splits sum.splits prod.splits option.splits
        dest!: parse_keyboard_buf_dc simp: z)
qed


lemma read_keyboard_file_specific_inv:
  assumes "diacritics_inv L"
    and "read_keyboard_file_specific h specific_layout L D = Some (Inr (L', D'))"
  shows "diacritics_inv L'"
  using assms unfolding read_keyboard_file_specific_def
  by (auto split: if_splits option.splits sum.splits prod.splits
      dest!: read_keyboard_file_result simp: diacritics_inv_def)

lemma map_key_diacritics_inv:
  assumes "map_key_diacritics key layouted_key L D = Inr (b, L', D')"
  shows "diacritics_character L' = 0"
  using assms unfolding map_key_diacritics_def Let_def
  by (auto split: if_splits option.splits dest!: bnd_eq_Inr simp: word_greater_zero_iff)

lemma map_key_inv:
  assumes inv: "diacritics_inv L"
    and res: "map_key h key layouted_key is_command is_keypair L D = Some (Inr (b, L', D'))"
  shows "diacritics_inv L'"
proof (cases is_command)
  case False
  with res show ?thesis
    unfolding map_key_def
    by (auto split: sum.splits prod.splits if_splits dest!: map_key_diacritics_inv
        simp: diacritics_inv_def)
next
  case True
  define kc where "kc = (ucast (layouted_key AND 0xff) :: u8)"
  from True res have res': "(if kc \<ge> 200 \<and> kc < 235 then
              Some (Inr (True,
                (if unat kc \<ge> unat (diacritics_entries L) + 200
                 then L\<lparr> diacritics_character := 0 \<rparr>
                 else L\<lparr> diacritics_character := ucast kc \<rparr>), D))
            else if kc \<ge> 120 \<and> kc < 140 then
              (case read_keyboard_file_specific h (uint kc - 119) L D of
                 None \<Rightarrow> None
               | Some (Inl e) \<Rightarrow> Some (Inl e)
               | Some (Inr (L', D')) \<Rightarrow> Some (Inr (True, L', D')))
            else if kc \<ge> 180 \<and> kc < 188 then
              Some (Inr (True,
                L\<lparr> user_keys := user_keys L AND NOT (push_bit (unat kc - 180) 1) \<rparr>, D))
            else if kc \<ge> 188 \<and> kc < 196 then
              Some (Inr (True,
                L\<lparr> user_keys := user_keys L OR push_bit (unat kc - 188) 1 \<rparr>, D))
            else if kc = 160 then Some (Inr (True, L, D))
            else Some (Inr (False, L, D))) = Some (Inr (b, L', D'))"
    unfolding map_key_def Let_def kc_def by simp
  show ?thesis
  proof (cases "kc \<ge> 200 \<and> kc < 235")
    case True
    then have "200 \<le> unat kc"
      by (simp add: word_le_nat_alt)
    with True res' show ?thesis
      by (auto simp: diacritics_inv_def unat_ucast_8_16 split: if_splits)
  next
    case nd: False
    show ?thesis
    proof (cases "kc \<ge> 120 \<and> kc < 140")
      case True
      with nd res' have "read_keyboard_file_specific h (uint kc - 119) L D = Some (Inr (L', D'))"
        by (auto split: option.splits sum.splits prod.splits)
      from read_keyboard_file_specific_inv [OF inv this] show ?thesis .
    next
      case False
      with nd res' have "diacritics_character L' = diacritics_character L"
        "diacritics_entries L' = diacritics_entries L"
        by (auto split: if_splits)
      with inv show ?thesis
        by (simp add: diacritics_inv_def)
    qed
  qed
qed

lemma base_planes_inv:
  assumes "diacritics_inv L"
    and "base_planes h key flags1 flags3 L D = Some (Inr (b, L', D'))"
  shows "diacritics_inv L'"
  using assms unfolding base_planes_def Let_def
  by (auto split: sum.splits if_splits dest: map_key_inv)

lemma plane_loop_inv:
  "diacritics_inv L \<Longrightarrow> plane_loop h key cf pair cplane L D = Some (Inr (b, L', D')) \<Longrightarrow>
   diacritics_inv L'"
proof (induction h key cf pair cplane L D rule: plane_loop.induct)
  case (1 h key cf pair cplane L D)
  note inv = "1.prems"(1) and res = "1.prems"(2)
  show ?case
  proof (cases "cplane < unat (additional_planes L)")
    case False
    with res inv show ?thesis
      by (subst (asm) plane_loop.simps) simp
  next
    case lt: True
    show ?thesis
    proof (cases "rd (layout_pages - 4) (current_layout_planes L) cplane")
      case (Inl e)
      with lt res show ?thesis
        by (subst (asm) plane_loop.simps) simp
    next
      case pl: (Inr pl)
      show ?thesis
      proof (cases "plane_fits cf (user_keys L) pl")
        case False
        with lt pl res
        have "plane_loop h key cf pair (cplane + 1) L D = Some (Inr (b, L', D'))"
          by (subst (asm) plane_loop.simps) simp
        with "1.IH"(2) [OF lt pl False inv] show ?thesis .
      next
        case fits: True
        show ?thesis
        proof (cases "rd (layout_size h) (current_layout L) (key * layout_pages + 2 + cplane)")
          case (Inl e)
          with lt pl fits res show ?thesis
            by (subst (asm) plane_loop.simps) simp
        next
          case entry: (Inr entry)
          show ?thesis
          proof (cases "entry = 0")
            case True
            with lt pl fits entry res inv show ?thesis
              by (subst (asm) plane_loop.simps) simp
          next
            case nz: False
            show ?thesis
            proof (cases "rd (layout_size h) (current_layout L) (key * layout_pages + layout_pages - 2)")
              case (Inl e)
              with lt pl fits entry nz res show ?thesis
                by (subst (asm) plane_loop.simps) simp
            next
              case cmd: (Inr cmd)
              let ?m = "map_key h key entry (drop_bit (cplane + 2) cmd AND 1 \<noteq> 0) pair L D"
              from lt pl fits entry nz cmd res
              obtain r where m: "?m = Some (Inr r)"
                and rest: "(if fst r then Some (Inr r)
                            else plane_loop h key cf pair (cplane + 1) (fst (snd r)) (snd (snd r)))
                           = Some (Inr (b, L', D'))"
                by (subst (asm) plane_loop.simps) (auto split: option.splits sum.splits)
              from m have "?m = Some (Inr (fst r, fst (snd r), snd (snd r)))"
                by simp
              from map_key_inv [OF inv this] have inv': "diacritics_inv (fst (snd r))" .
              show ?thesis
              proof (cases "fst r")
                case True
                with rest inv' show ?thesis by auto
              next
                case False
                with rest have "plane_loop h key cf pair (cplane + 1) (fst (snd r)) (snd (snd r))
                    = Some (Inr (b, L', D'))"
                  by simp
                from "1.IH"(1) [OF lt pl fits entry nz cmd m refl False inv' this]
                show ?thesis .
              qed
            qed
          qed
        qed
      qed
    qed
  qed
qed

lemma pending_diacritics_inv:
  assumes "diacritics_inv L" and "pending_diacritics key L D = Inr (b, L', D')"
  shows "diacritics_inv L'"
  using assms unfolding pending_diacritics_def
  by (auto split: if_splits dest!: bnd_eq_Inr simp: diacritics_inv_def)

lemma layout_key_inv:
  assumes inv: "diacritics_inv L"
    and res: "layout_key h key flags1 flags2 flags3 L D = Some (Inr (b, L', D'))"
  shows "diacritics_inv L'"
proof (cases "key > MAX_SCAN_CODE h \<or> \<not> use_foreign_layout L")
  case True
  with res inv show ?thesis
    unfolding layout_key_def by (auto split: if_splits)
next
  case False
  with res obtain h1 L1 D1 where
    b: "base_planes h key flags1 flags3 L D = Some (Inr (h1, L1, D1))"
    and rest: "(if h1 then Some (Inr (True, L1, D1))
         else case rd (layout_size h) (current_layout L1) (key * layout_pages + layout_pages - 1) of
                Inl e \<Rightarrow> Some (Inl e)
              | Inr key_flags \<Rightarrow>
                 (case plane_loop h key (current_flags flags1 flags2 flags3)
                            (key_flags AND 0x80 = 0x80) 0 L1 D1 of
                       None \<Rightarrow> None
                     | Some (Inl e) \<Rightarrow> Some (Inl e)
                     | Some (Inr (handled2, L2, D2)) \<Rightarrow>
                         if handled2 then Some (Inr (True, L2, D2))
                         else Some (pending_diacritics key L2 D2))) = Some (Inr (b, L', D'))"
    unfolding layout_key_def
    by (auto split: option.splits sum.splits prod.splits simp del: One_nat_def)
  from base_planes_inv [OF inv b] have inv1: "diacritics_inv L1" .
  show ?thesis
  proof (cases h1)
    case True
    with rest inv1 show ?thesis by simp
  next
    case False
    with rest obtain kf :: u16 and h2 L2 D2 where
      p: "plane_loop h key (current_flags flags1 flags2 flags3) (kf AND 0x80 = 0x80) 0 L1 D1
            = Some (Inr (h2, L2, D2))"
      and rest2: "(if h2 then Some (Inr (True, L2, D2)) else Some (pending_diacritics key L2 D2))
                  = Some (Inr (b, L', D'))"
      by (auto split: option.splits sum.splits prod.splits simp del: One_nat_def)
    from plane_loop_inv [OF inv1 p] have inv2: "diacritics_inv L2" .
    from rest2 inv2 show ?thesis
      by (auto split: if_splits dest: pending_diacritics_inv)
  qed
qed


lemma extract_codepage_frame:
  assumes "extract_codepage h keyboard_file_name D = Inr (cp, D1)"
  shows "D1 = D\<lparr> cp_read_buf := cp_read_buf D1 \<rparr>"
  using assms unfolding extract_codepage_def Let_def
  by (auto split: if_splits sum.splits prod.splits dest!: bnd_eq_Inr)

lemma cpi_search_error:
  "cpi_search h buf codepage_id n start_pos D = Inr (code, D') \<Longrightarrow> code \<noteq> KEYB_NOERROR \<Longrightarrow>
   D' = D"
proof (induction n arbitrary: start_pos)
  case 0
  then show ?case by simp
next
  case (Suc n)
  from Suc.prems show ?case
    by (auto dest!: bnd_eq_Inr split: if_splits dest: Suc.IH)
qed

lemma parse_cpi_body_error:
  assumes "parse_cpi_body h buf cpi_buf_size codepage_id D = Inr (code, D')"
    and "code \<noteq> KEYB_NOERROR"
  shows "D' = D"
  using assms unfolding parse_cpi_body_def Let_def
  by (auto split: if_splits dest!: bnd_eq_Inr dest: cpi_search_error)

lemma read_codepage_file_error:
  assumes "read_codepage_file h codepage_file_name codepage_id D = Inr (code, D')"
    and "code \<noteq> KEYB_NOERROR"
  shows "D' = D"
  using assms unfolding read_codepage_file_def Let_def
  by (auto split: if_splits sum.splits prod.splits option.splits dest!: bnd_eq_Inr
      dest: parse_cpi_body_error)

lemma switch_keyboard_layout_error:
  assumes "switch_keyboard_layout h new_layout tried_cp L D
             = Some (Inr (code, L', created_layout, tried_cp', D'))"
    and "code \<noteq> KEYB_NOERROR"
  shows "L' = L \<and> created_layout = None \<and>
         D' = D\<lparr> kl_read_buf := kl_read_buf D', cp_read_buf := cp_read_buf D' \<rparr>"
proof -
  from assms obtain req_codepage D1 kerrcode temp_layout D2 where
    x: "extract_codepage h new_layout D = Inr (req_codepage, D1)"
    and r: "read_keyboard_file_cp h new_layout (uint req_codepage) new_keyboard_layout D1
              = Some (Inr (kerrcode, temp_layout, D2))"
    and rest: "(if kerrcode \<noteq> KEYB_NOERROR
                then Some (Inr (kerrcode, L, None, uint req_codepage, D2))
                else (case read_codepage_file h (cstr ''auto'') (uint req_codepage) D2 of
                        Inl e \<Rightarrow> Some (Inl e)
                      | Inr (kerrcode2, D3) \<Rightarrow>
                          if kerrcode2 \<noteq> KEYB_NOERROR
                          then Some (Inr (kerrcode2, L, None, uint req_codepage, D3))
                          else Some (Inr (KEYB_NOERROR, L, Some temp_layout,
                                          uint req_codepage, D3))))
               = Some (Inr (code, L', created_layout, tried_cp', D'))"
    unfolding switch_keyboard_layout_def
    by (auto split: if_splits sum.splits prod.splits option.splits)
  note f1 = extract_codepage_frame [OF x]
  from r have f2: "D2 = D1\<lparr> kl_read_buf := kl_read_buf D2 \<rparr>"
    unfolding read_keyboard_file_cp_def by (auto dest: read_keyboard_file_result)
  have "cp_read_buf D2 = cp_read_buf D1"
    by (subst f2) simp
  then have f12: "D2 = D\<lparr> kl_read_buf := kl_read_buf D2, cp_read_buf := cp_read_buf D2 \<rparr>"
    by (subst f2, subst f1) simp
  show ?thesis
  proof (cases "kerrcode \<noteq> KEYB_NOERROR")
    case True
    with rest have "L' = L" "created_layout = None" "D' = D2"
      by simp_all
    moreover note f12
    ultimately show ?thesis by simp
  next
    case False
    with rest assms(2) obtain D3 where
      c: "read_codepage_file h (cstr ''auto'') (uint req_codepage) D2 = Inr (code, D3)"
      and eq: "L' = L" "created_layout = None" "D' = D3"
      by (auto split: sum.splits prod.splits if_splits)
    from read_codepage_file_error [OF c assms(2)] have "D3 = D2" .
    moreover note f12
    ultimately show ?thesis using eq by simp
  qed
qed

lemma switch_failure_state:
  assumes "DOS_SwitchKeyboardLayout h new_layout tried_cp S = Some (Inr (code, tried_cp', S'))"
    and "code \<noteq> KEYB_NOERROR"
  shows "loaded_layout S' = loaded_layout S \<and>
         dos S' = (dos S)\<lparr> kl_read_buf := kl_read_buf (dos S'),
                             cp_read_buf := cp_read_buf (dos S') \<rparr>"
proof (cases "loaded_layout S")
  case None
  with assms show ?thesis
    unfolding DOS_SwitchKeyboardLayout_def by auto
next
  case (Some L)
  with assms obtain L' created_layout D' where
    sw: "switch_keyboard_layout h new_layout tried_cp L (dos S)
           = Some (Inr (code, L', created_layout, tried_cp', D'))"
    and S': "S' = \<lparr> loaded_layout = (case created_layout of None \<Rightarrow> Some L' | Some C \<Rightarrow> Some C),
                     dos = D' \<rparr>"
    unfolding DOS_SwitchKeyboardLayout_def
    by (auto split: option.splits sum.splits prod.splits)
  from switch_keyboard_layout_error [OF sw assms(2)] S' Some show ?thesis
    by simp
qed

lemma switch_keyboard_layout_inv:
  assumes inv: "diacritics_inv L"
    and res: "switch_keyboard_layout h new_layout tried_cp L D
             = Some (Inr (code, L', created_layout, tried_cp', D'))"
  shows "diacritics_inv L' \<and> (case created_layout of None \<Rightarrow> True | Some C \<Rightarrow> diacritics_inv C)"
proof -
  have a: "diacritics_inv (L\<lparr> use_foreign_layout := u, diacritics_character := 0 \<rparr>)" for u
    by (simp add: diacritics_inv_def)
  have b: "diacritics_inv C"
    if "read_keyboard_file_cp h n cp new_keyboard_layout D1 = Some (Inr (k, C, D2))"
    for n cp D1 k C D2
    using that unfolding read_keyboard_file_cp_def
    by (auto dest!: read_keyboard_file_result simp: diacritics_inv_def)
  from res inv show ?thesis
    unfolding switch_keyboard_layout_def
    by (auto split: if_splits sum.splits prod.splits option.splits simp: a dest: b)
qed

lemma same_but_scratch_refl [simp]: "same_but_scratch D D"
  by (simp add: same_but_scratch_def)

lemma same_but_scratch_add:
  "same_but_scratch D D' \<Longrightarrow> same_but_scratch (BIOS_AddKeyToBuffer v D) (BIOS_AddKeyToBuffer v D')"
  by (simp add: same_but_scratch_def BIOS_AddKeyToBuffer_def)

lemma same_but_scratch_kl:
  "D' = D\<lparr> kl_read_buf := x \<rparr> \<Longrightarrow> same_but_scratch D' D"
  by (simp add: same_but_scratch_def)

lemma same_but_scratch_sym: "same_but_scratch D D' \<Longrightarrow> same_but_scratch D' D"
  by (simp add: same_but_scratch_def)

lemma same_but_scratch_trans:
  "same_but_scratch D D' \<Longrightarrow> same_but_scratch D' D'' \<Longrightarrow> same_but_scratch D D''"
  by (simp add: same_but_scratch_def)

lemma map_key_diacritics_rel:
  assumes "map_key_diacritics key layouted_key L D = Inr (b, L1, D1)"
    and "same_but_scratch D D'"
  shows "\<exists>D1'. map_key_diacritics key layouted_key L D' = Inr (b, L1, D1') \<and>
           same_but_scratch D1 D1'"
  using assms unfolding map_key_diacritics_def Let_def
  by (auto split: if_splits option.splits dest!: bnd_eq_Inr simp: same_but_scratch_add)

lemma read_keyboard_file_specific_frame:
  assumes "read_keyboard_file_specific h specific_layout L D = Some (Inr (L', D'))"
  shows "same_but_scratch D' D"
proof (cases "strcmp_eq (current_keyboard_file_name L) (cstr ''none'')")
  case True
  with assms show ?thesis
    unfolding read_keyboard_file_specific_def by simp
next
  case False
  with assms obtain code where
    "read_keyboard_file h (current_keyboard_file_name L) specific_layout
       (uint (loaded_codepage D)) L D = Some (Inr (code, L', D'))"
    unfolding read_keyboard_file_specific_def
    by (auto split: option.splits sum.splits prod.splits)
  from read_keyboard_file_result [OF this] have "D' = D\<lparr> kl_read_buf := kl_read_buf D' \<rparr>"
    by simp
  then show ?thesis by (rule same_but_scratch_kl)
qed

lemma map_key_rel:
  assumes r1: "map_key h key layouted_key is_command is_keypair L D = Some (Inr (b, L1, D1))"
    and r2: "map_key h key layouted_key is_command is_keypair L D' = Some (Inr (b', L1', D1'))"
    and same: "same_but_scratch D D'"
  shows "b = b' \<and> same_but_scratch D1 D1'"
proof (cases is_command)
  case False
  from False r1 obtain r D0 where
    d1: "map_key_diacritics key layouted_key L D = Inr (r, L1, D0)"
    and e1: "b = True"
      "D1 = (if r then D0 else BIOS_AddKeyToBuffer
                      (if is_keypair then layouted_key
                       else push_bit 8 (word_of_nat key) OR (layouted_key AND 0xff)) D0)"
    unfolding map_key_def by (auto split: sum.splits prod.splits if_splits)
  from map_key_diacritics_rel [OF d1 same] obtain D0' where
    d2: "map_key_diacritics key layouted_key L D' = Inr (r, L1, D0')"
    and s0: "same_but_scratch D0 D0'"
    by blast
  from False r2 d2 have e2: "b' = True"
      "D1' = (if r then D0' else BIOS_AddKeyToBuffer
                      (if is_keypair then layouted_key
                       else push_bit 8 (word_of_nat key) OR (layouted_key AND 0xff)) D0')"
    unfolding map_key_def by (auto split: if_splits)
  from e1 e2 s0 show ?thesis
    by (simp add: same_but_scratch_add)
next
  case True
  define kc where "kc = (ucast (layouted_key AND 0xff) :: u8)"
  show ?thesis
  proof (cases "\<not> (kc \<ge> 200 \<and> kc < 235) \<and> kc \<ge> 120 \<and> kc < 140")
    case sw: True
    with True r1 have "read_keyboard_file_specific h (uint kc - 119) L D = Some (Inr (L1, D1))"
      and b: "b"
      unfolding map_key_def Let_def kc_def
      by (auto split: option.splits sum.splits prod.splits)
    from read_keyboard_file_specific_frame [OF this(1)] have s1: "same_but_scratch D1 D" .
    from sw True r2 have "read_keyboard_file_specific h (uint kc - 119) L D' = Some (Inr (L1', D1'))"
      and b': "b'"
      unfolding map_key_def Let_def kc_def
      by (auto split: option.splits sum.splits prod.splits)
    from read_keyboard_file_specific_frame [OF this(1)] have s2: "same_but_scratch D1' D'" .
    from s1 same same_but_scratch_sym [OF s2] b b' show ?thesis
      by (blast intro: same_but_scratch_trans)
  next
    case False
    with True r1 r2 have "b = b'" "D1 = D" "D1' = D'"
      unfolding map_key_def Let_def kc_def
      by (auto split: if_splits)
    with same show ?thesis by simp
  qed
qed


lemma base_planes_rel:
  assumes r1: "base_planes h key flags1 flags3 L D = Some (Inr (b, L1, D1))"
    and r2: "base_planes h key flags1 flags3 L D' = Some (Inr (b', L1', D1'))"
    and same: "same_but_scratch D D'"
  shows "b = b' \<and> same_but_scratch D1 D1'"
  using assms unfolding base_planes_def Let_def
  by (auto split: sum.splits if_splits dest: map_key_rel)

lemma plane_loop_rel:
  "plane_loop h key cf pair cplane L D = Some (Inr (b, L1, D1)) \<Longrightarrow>
   plane_loop h key cf pair cplane L D' = Some (Inr (b', L1', D1')) \<Longrightarrow>
   same_but_scratch D D' \<Longrightarrow> b = b' \<and> same_but_scratch D1 D1'"
proof (induction h key cf pair cplane L D arbitrary: D' rule: plane_loop.induct)
  case (1 h key cf pair cplane L D)
  note r1 = "1.prems"(1) and r2 = "1.prems"(2) and same = "1.prems"(3)
  show ?case
  proof (cases "cplane < unat (additional_planes L)")
    case False
    with r1 r2 same show ?thesis
      by (subst (asm) plane_loop.simps, subst (asm) (2) plane_loop.simps) simp
  next
    case lt: True
    show ?thesis
    proof (cases "rd (layout_pages - 4) (current_layout_planes L) cplane")
      case (Inl e)
      with lt r1 show ?thesis
        by (subst (asm) plane_loop.simps) simp
    next
      case pl: (Inr pl)
      show ?thesis
      proof (cases "plane_fits cf (user_keys L) pl")
        case False
        with lt pl r1
        have a: "plane_loop h key cf pair (cplane + 1) L D = Some (Inr (b, L1, D1))"
          by (subst (asm) plane_loop.simps) simp
        from False lt pl r2
        have b: "plane_loop h key cf pair (cplane + 1) L D' = Some (Inr (b', L1', D1'))"
          by (subst (asm) plane_loop.simps) simp
        from "1.IH"(2) [OF lt pl False a b same] show ?thesis .
      next
        case fits: True
        show ?thesis
        proof (cases "rd (layout_size h) (current_layout L) (key * layout_pages + 2 + cplane)")
          case (Inl e)
          with lt pl fits r1 show ?thesis
            by (subst (asm) plane_loop.simps) simp
        next
          case entry: (Inr entry)
          show ?thesis
          proof (cases "entry = 0")
            case True
            with lt pl fits entry r1 r2 same show ?thesis
              by (subst (asm) plane_loop.simps, subst (asm) (2) plane_loop.simps) simp
          next
            case nz: False
            show ?thesis
            proof (cases "rd (layout_size h) (current_layout L) (key * layout_pages + layout_pages - 2)")
              case (Inl e)
              with lt pl fits entry nz r1 show ?thesis
                by (subst (asm) plane_loop.simps) simp
            next
              case cmd: (Inr cmd)
              let ?m = "\<lambda>D. map_key h key entry (drop_bit (cplane + 2) cmd AND 1 \<noteq> 0) pair L D"
              from lt pl fits entry nz cmd r1
              obtain r where m: "?m D = Some (Inr r)"
                and rest: "(if fst r then Some (Inr r)
                            else plane_loop h key cf pair (cplane + 1) (fst (snd r)) (snd (snd r)))
                           = Some (Inr (b, L1, D1))"
                by (subst (asm) plane_loop.simps) (auto split: option.splits sum.splits)
              from lt pl fits entry nz cmd r2
              obtain r' where m': "?m D' = Some (Inr r')"
                and rest': "(if fst r' then Some (Inr r')
                            else plane_loop h key cf pair (cplane + 1) (fst (snd r')) (snd (snd r')))
                           = Some (Inr (b', L1', D1'))"
                by (subst (asm) plane_loop.simps) (auto split: option.splits sum.splits)
              from m have m1: "?m D = Some (Inr (fst r, fst (snd r), snd (snd r)))" by simp
              from m' have m2: "?m D' = Some (Inr (fst r', fst (snd r'), snd (snd r')))" by simp
              from map_key_rel [OF m1 m2 same]
              have fr: "fst r = fst r'" and sr: "same_but_scratch (snd (snd r)) (snd (snd r'))"
                by simp_all
              show ?thesis
              proof (cases "fst r")
                case True
                with rest rest' fr sr show ?thesis by auto
              next
                case False
                from False m1 have "?m D = Some (Inr (False, fst (snd r), snd (snd r)))" by simp
                from map_key_not_handled [OF this] have e1: "fst (snd r) = L" "snd (snd r) = D"
                  by simp_all
                from False fr m2 have "?m D' = Some (Inr (False, fst (snd r'), snd (snd r')))"
                  by simp
                from map_key_not_handled [OF this] have e2: "fst (snd r') = L" "snd (snd r') = D'"
                  by simp_all
                from False rest have a: "plane_loop h key cf pair (cplane + 1) (fst (snd r))
                    (snd (snd r)) = Some (Inr (b, L1, D1))"
                  by simp
                from False fr rest' e1 e2 have b: "plane_loop h key cf pair (cplane + 1) (fst (snd r))
                    D' = Some (Inr (b', L1', D1'))"
                  by simp
                from same e1 have "same_but_scratch (snd (snd r)) D'" by simp
                from "1.IH"(1) [OF lt pl fits entry nz cmd m refl False a b this]
                show ?thesis .
              qed
            qed
          qed
        qed
      qed
    qed
  qed
qed

lemma pending_diacritics_rel:
  assumes "pending_diacritics key L D = Inr (b, L1, D1)"
    and "pending_diacritics key L D' = Inr (b', L1', D1')"
    and "same_but_scratch D D'"
  shows "b = b' \<and> same_but_scratch D1 D1'"
  using assms unfolding pending_diacritics_def
  by (auto split: if_splits dest!: bnd_eq_Inr simp: same_but_scratch_add)

lemma layout_key_rel:
  assumes r1: "layout_key h key flags1 flags2 flags3 L D = Some (Inr (b, L1, D1))"
    and r2: "layout_key h key flags1 flags2 flags3 L D' = Some (Inr (b', L1', D1'))"
    and same: "same_but_scratch D D'"
  shows "b = b' \<and> same_but_scratch D1 D1'"
proof (cases "key > MAX_SCAN_CODE h \<or> \<not> use_foreign_layout L")
  case True
  with r1 r2 same show ?thesis
    unfolding layout_key_def by (auto split: if_splits)
next
  case False
  let ?rest = "\<lambda>h1 L1 D1. (if h1 then Some (Inr (True, L1, D1))
         else case rd (layout_size h) (current_layout L1) (key * layout_pages + layout_pages - 1) of
                Inl e \<Rightarrow> Some (Inl e)
              | Inr key_flags \<Rightarrow>
                 (case plane_loop h key (current_flags flags1 flags2 flags3)
                            (key_flags AND 0x80 = 0x80) 0 L1 D1 of
                       None \<Rightarrow> None
                     | Some (Inl e) \<Rightarrow> Some (Inl e)
                     | Some (Inr (handled2, L2, D2)) \<Rightarrow>
                         if handled2 then Some (Inr (True, L2, D2))
                         else Some (pending_diacritics key L2 D2)))"
  from False r1 obtain h1 La Da where
    b1: "base_planes h key flags1 flags3 L D = Some (Inr (h1, La, Da))"
    and rest1: "?rest h1 La Da = Some (Inr (b, L1, D1))"
    unfolding layout_key_def
    by (auto split: option.splits sum.splits prod.splits simp del: One_nat_def)
  from False r2 obtain h1' Lb Db where
    b2: "base_planes h key flags1 flags3 L D' = Some (Inr (h1', Lb, Db))"
    and rest2: "?rest h1' Lb Db = Some (Inr (b', L1', D1'))"
    unfolding layout_key_def
    by (auto split: option.splits sum.splits prod.splits simp del: One_nat_def)
  from base_planes_rel [OF b1 b2 same] have hh: "h1 = h1'" and sab: "same_but_scratch Da Db"
    by simp_all
  show ?thesis
  proof (cases h1)
    case True
    with rest1 rest2 hh sab show ?thesis by simp
  next
    case nh: False
    from nh b1 have "base_planes h key flags1 flags3 L D = Some (Inr (False, La, Da))" by simp
    from base_planes_not_handled [OF this] have ea: "La = L" "Da = D" by simp_all
    from nh hh b2 have "base_planes h key flags1 flags3 L D' = Some (Inr (False, Lb, Db))" by simp
    from base_planes_not_handled [OF this] have eb: "Lb = L" "Db = D'" by simp_all
    from nh rest1 ea obtain kf :: u16 and h2 L2 D2 where
      p1: "plane_loop h key (current_flags flags1 flags2 flags3) (kf AND 0x80 = 0x80) 0 L D
            = Some (Inr (h2, L2, D2))"
      and kf: "rd (layout_size h) (current_layout L) (key * layout_pages + layout_pages - 1) = Inr kf"
      and fin1: "(if h2 then Some (Inr (True, L2, D2)) else Some (pending_diacritics key L2 D2))
                  = Some (Inr (b, L1, D1))"
      by (auto split: option.splits sum.splits prod.splits simp del: One_nat_def)
    from nh hh rest2 eb kf obtain h2' L2' D2' where
      p2: "plane_loop h key (current_flags flags1 flags2 flags3) (kf AND 0x80 = 0x80) 0 L D'
            = Some (Inr (h2', L2', D2'))"
      and fin2: "(if h2' then Some (Inr (True, L2', D2')) else Some (pending_diacritics key L2' D2'))
                  = Some (Inr (b', L1', D1'))"
      by (auto split: option.splits sum.splits prod.splits simp del: One_nat_def)
    from plane_loop_rel [OF p1 p2 same] have h22: "h2 = h2'" and s2: "same_but_scratch D2 D2'"
      by simp_all
    show ?thesis
    proof (cases h2)
      case True
      with fin1 fin2 h22 s2 show ?thesis by simp
    next
      case False
      from False p1 have "plane_loop h key (current_flags flags1 flags2 flags3)
          (kf AND 0x80 = 0x80) 0 L D = Some (Inr (False, L2, D2))" by simp
      from plane_loop_not_handled [OF this] have e1: "L2 = L" "D2 = D" by simp_all
      from False h22 p2 have "plane_loop h key (current_flags flags1 flags2 flags3)
          (kf AND 0x80 = 0x80) 0 L D' = Some (Inr (False, L2', D2'))" by simp
      from plane_loop_not_handled [OF this] have e2: "L2' = L" "D2' = D'" by simp_all
      from False h22 fin1 fin2 e1 e2
      have "pending_diacritics key L D = Inr (b, L1, D1)"
        "pending_diacritics key L D' = Inr (b', L1', D1')"
        by simp_all
      from pending_diacritics_rel [OF this same] show ?thesis .
    qed
  qed
qed


lemma DOS_LayoutKey_rel:
  assumes r1: "DOS_LayoutKey h key flags1 flags2 flags3 S = Some (Inr (b1, S1))"
    and r2: "DOS_LayoutKey h key flags1 flags2 flags3 S' = Some (Inr (b2, S2))"
    and l: "loaded_layout S' = loaded_layout S"
    and same: "same_but_scratch (dos S) (dos S')"
  shows "b1 = b2 \<and> bios_key_buffer (dos S1) = bios_key_buffer (dos S2)"
proof (cases "loaded_layout S")
  case None
  with r1 r2 l same show ?thesis
    unfolding DOS_LayoutKey_def by (auto simp: same_but_scratch_def)
next
  case (Some L)
  with r1 obtain L1 D1 where
    a: "layout_key h key flags1 flags2 flags3 L (dos S) = Some (Inr (b1, L1, D1))"
    and S1: "S1 = \<lparr> loaded_layout = Some L1, dos = D1 \<rparr>"
    unfolding DOS_LayoutKey_def by (auto split: option.splits sum.splits prod.splits)
  from Some l r2 obtain L2 D2 where
    b: "layout_key h key flags1 flags2 flags3 L (dos S') = Some (Inr (b2, L2, D2))"
    and S2: "S2 = \<lparr> loaded_layout = Some L2, dos = D2 \<rparr>"
    unfolding DOS_LayoutKey_def by (auto split: option.splits sum.splits prod.splits)
  from layout_key_rel [OF a b same] S1 S2 show ?thesis
    by (simp add: same_but_scratch_def)
qed

lemma not_found_in_bare_host:
  "load_keyboard_buf bare_host rb (cstr ''xx999'') = Inr (rb, Inl KEYB_FILENOTFOUND)"
  by (simp add: load_keyboard_buf_def bare_host_def kcl_file_candidates_def
      builtin_candidates_def read_kcl_file_def read_kcl_data_def vrd_def
      kcl_data_records.simps)

lemma diacritics_copy_overrun:
  "diacritics_size \<le> i \<Longrightarrow> j \<le> diacritics_size \<Longrightarrow> base + diacritics_size < read_buf_size_max \<Longrightarrow>
   diacritics_copy rb base i j dia = Inl OutOfBounds"
proof (induction "diacritics_size - j" arbitrary: j dia)
  case 0
  then have "j = diacritics_size" by simp
  with 0 show ?case
    by (subst diacritics_copy.simps) (simp add: rd_def wr_def)
next
  case (Suc n)
  then have lt: "j < diacritics_size" by simp
  with Suc.prems have "diacritics_copy rb base i j dia
      = diacritics_copy rb base i (j + 1) (dia(j := rb (base + j)))"
    by (subst diacritics_copy.simps) (simp add: rd_def wr_def)
  also have "\<dots> = Inl OutOfBounds"
    using Suc.hyps(1) [of "j + 1"] Suc.hyps(2) Suc.prems lt by simp
  finally show ?case .
qed

lemma load_bad:
  "\<exists>rb. load_keyboard_buf high_bit_host rb0 (cstr ''bad'') = Inr (rb, Inr (64, 5)) \<and>
        (\<forall>i < 64. rb i = kl_high_bit_scan i)"
  by (simp add: load_keyboard_buf_def high_bit_host_def bare_host_def cstr_def
      fread_into_bytes_of kl_high_bit_scan_def Let_def)

lemma head_bad:
  assumes "\<forall>i < 64. rb i = kl_high_bit_scan i"
  shows "parse_head high_bit_host rb 5 L
           = Inr (L\<lparr> language_codes := [], additional_planes := 0 \<rparr>, 6, 1)"
  using assms
  by (simp add: parse_head_def rd_def read_buf_size_max_def kl_high_bit_scan_def
      lang_codes_loop.simps layout_pages_def Let_def)

lemma body_bad:
  assumes "\<forall>i < 64. rb i = kl_high_bit_scan i"
  shows "submap_body high_bit_host rb 64 6 (- 1) 437
           (L\<lparr> language_codes := [], additional_planes := 0 \<rparr>) 0 = Inl OutOfBounds"
proof -
  from assms have v: "rb 26 = 0" "rb 27 = 0" "rb 28 = 28" "rb 29 = 0" "rb 30 = 0" "rb 31 = 0"
    "rb 34 = 0x81" "rb 35 = 0" "rb 36 = 0" "rb 37 = 0x41"
    by (simp_all add: kl_high_bit_scan_def)
  have w: "add_mapping high_bit_host rb 37 0x81 0 cl = Inl OutOfBounds" for cl
    by (simp add: add_mapping_def rd_def wr_def read_buf_size_max_def v layout_size_def
        layout_pages_def high_bit_host_def bare_host_def)
  have m: "MAX_SCAN_CODE high_bit_host = 0x58"
    by (simp add: high_bit_host_def bare_host_def)
  have k: "key_record high_bit_host rb 0 37 0x81 cl = Inl OutOfBounds" for cl
    by (simp add: key_record_def rd_def read_buf_size_max_def v add_mappings.simps w m)
  have t: "key_table_loop high_bit_host rb 0 30 0 34 cl = Inl OutOfBounds" for cl
    by (subst key_table_loop.simps) (simp add: read_buf_size_max_def v k)
  show ?thesis
    by (simp add: submap_body_def host_readw_def rd_def read_buf_size_max_def v le16_def t)
qed

lemma row_in_table:
  "unat scan \<le> MAX_SCAN_CODE h \<Longrightarrow> k < 12 \<Longrightarrow> unat scan * layout_pages + k < layout_size h"
proof -
  assume a: "unat scan \<le> MAX_SCAN_CODE h" and k: "k < 12"
  have "unat scan * 12 + k < (unat scan + 1) * 12" using k by simp
  also have "\<dots> \<le> (MAX_SCAN_CODE h + 1) * 12" using a by simp
  finally show ?thesis by (simp add: layout_size_def layout_pages_def)
qed

lemma add_mapping_step:
  assumes s: "unat scan \<le> MAX_SCAN_CODE h" and p: "2 \<le> pos"
    and e: "pos + 16 \<le> read_buf_size_max" and a: "addmap < 8"
  shows "\<exists>cl'. add_mapping h rb pos scan addmap cl = Inr cl' \<and>
     (\<forall>i. i \<noteq> unat scan * layout_pages + 10 \<longrightarrow>
        cl' i = (if i = unat scan * layout_pages + addmap \<and> rb (record_entry_pos rb pos addmap) \<noteq> 0
                 then record_entry rb pos addmap else cl i))"
proof -
  have r1: "unat scan * layout_pages + addmap < layout_size h"
    using row_in_table [OF s, of addmap] a by simp
  have r2: "unat scan * layout_pages + layout_pages - 2 < layout_size h"
    using row_in_table [OF s, of 10] by (simp add: layout_pages_def)
  have t: "unat scan * layout_pages + layout_pages - 2 = unat scan * layout_pages + 10"
    by (simp add: layout_pages_def)
  have b1: "pos - 2 < read_buf_size_max" "pos - 1 < read_buf_size_max" using e by simp_all
  have b2: "pos + addmap * 2 < read_buf_size_max" "pos + addmap * 2 + 1 < read_buf_size_max"
    "pos + addmap < read_buf_size_max"
    using e a by simp_all
  have ne: "unat scan * layout_pages + addmap \<noteq> unat scan * layout_pages + 10"
    using a by simp
  show ?thesis
    using r1 r2 b1 b2 ne unfolding add_mapping_def record_entry_def record_entry_pos_def t
    by (simp add: rd_def wr_def Let_def)
qed

lemma add_mappings_from:
  assumes s: "unat scan \<le> MAX_SCAN_CODE h" and p: "2 \<le> pos"
    and e: "pos + 16 \<le> read_buf_size_max" and l: "scan_length \<le> 8"
  shows "\<exists>cl'. add_mappings h rb ap pos scan scan_length k cl = Inr cl' \<and>
     (\<forall>i. i \<noteq> unat scan * layout_pages + 10 \<longrightarrow>
        cl' i = (if unat scan * layout_pages + k \<le> i \<and> i < unat scan * layout_pages + scan_length \<and>
                    i \<le> unat scan * layout_pages + unat ap + 2 \<and>
                    rb (record_entry_pos rb pos (i - unat scan * layout_pages)) \<noteq> 0
                 then record_entry rb pos (i - unat scan * layout_pages) else cl i))"
proof (induction "scan_length - k" arbitrary: k cl)
  case 0
  then have "\<not> k < scan_length" by simp
  then show ?case
    by (subst add_mappings.simps) auto
next
  case (Suc n)
  then have lt: "k < scan_length" by simp
  show ?case
  proof (cases "k > unat ap + 2")
    case True
    then show ?thesis
      by (subst add_mappings.simps) auto
  next
    case False
    from lt l have k8: "k < 8" by simp
    from add_mapping_step [OF s p e k8, of rb cl] obtain cl1 where
      m: "add_mapping h rb pos scan k cl = Inr cl1" and
      c1: "\<And>i. i \<noteq> unat scan * layout_pages + 10 \<Longrightarrow>
        cl1 i = (if i = unat scan * layout_pages + k \<and> rb (record_entry_pos rb pos k) \<noteq> 0
                 then record_entry rb pos k else cl i)"
      by blast
    from Suc.hyps(2) have "n = scan_length - (k + 1)" by simp
    from Suc.hyps(1) [OF this, of cl1] obtain cl' where
      r: "add_mappings h rb ap pos scan scan_length (k + 1) cl1 = Inr cl'" and
      c2: "\<And>i. i \<noteq> unat scan * layout_pages + 10 \<Longrightarrow>
        cl' i = (if unat scan * layout_pages + (k + 1) \<le> i \<and> i < unat scan * layout_pages + scan_length \<and>
                    i \<le> unat scan * layout_pages + unat ap + 2 \<and>
                    rb (record_entry_pos rb pos (i - unat scan * layout_pages)) \<noteq> 0
                 then record_entry rb pos (i - unat scan * layout_pages) else cl1 i)"
      by blast
    have eq: "add_mappings h rb ap pos scan scan_length k cl = Inr cl'"
      using lt False m r by (subst add_mappings.simps) simp
    have "cl' i = (if unat scan * layout_pages + k \<le> i \<and> i < unat scan * layout_pages + scan_length \<and>
                    i \<le> unat scan * layout_pages + unat ap + 2 \<and>
                    rb (record_entry_pos rb pos (i - unat scan * layout_pages)) \<noteq> 0
                 then record_entry rb pos (i - unat scan * layout_pages) else cl i)"
      if ne: "i \<noteq> unat scan * layout_pages + 10" for i
    proof (cases "i = unat scan * layout_pages + k")
      case True
      then show ?thesis
        using c2 [OF ne] c1 [OF ne] lt False by simp
    next
      case False
      then show ?thesis
        using c2 [OF ne] c1 [OF ne] by auto
    qed
    with eq show ?thesis by blast
  qed
qed

lemma record_length_le: "record_length rb pos \<le> 8"
proof -
  have "rb (pos - 2) AND 7 \<le> 7" by (rule word_and_le1)
  then have "unat (rb (pos - 2) AND 7) \<le> unat (7 :: u8)" by (simp only: word_le_nat_alt)
  then show ?thesis by (simp add: record_length_def)
qed

lemma masked_scan_le: "unat ((scan :: u8) AND 0x7f) \<le> unat scan"
proof -
  have "scan AND 0x7f \<le> scan" by (rule word_and_le2)
  then show ?thesis by (simp only: word_le_nat_alt)
qed

lemma key_record_table:
  assumes s: "unat scan \<le> MAX_SCAN_CODE h" and p: "2 \<le> pos"
    and e: "pos + 16 \<le> read_buf_size_max"
  shows "\<exists>cl' adv. key_record h rb ap pos scan cl = Inr (cl', adv) \<and>
     (\<forall>i. i \<noteq> unat scan * layout_pages + 10 \<and> i \<noteq> unat scan * layout_pages + 11 \<longrightarrow>
        cl' i = (if unat scan * layout_pages \<le> i \<and> i < unat scan * layout_pages + record_length rb pos \<and>
                    i \<le> unat scan * layout_pages + unat ap + 2 \<and>
                    rb (record_entry_pos rb pos (i - unat scan * layout_pages)) \<noteq> 0
                 then record_entry rb pos (i - unat scan * layout_pages) else cl i))"
proof -
  from add_mappings_from [OF s p e record_length_le [of rb pos], where rb = rb and ap = ap and k = 0 and cl = cl] obtain cl1 where
    r: "add_mappings h rb ap pos scan (record_length rb pos) 0 cl = Inr cl1" and
    c: "\<And>i. i \<noteq> unat scan * layout_pages + 10 \<Longrightarrow>
        cl1 i = (if unat scan * layout_pages \<le> i \<and> i < unat scan * layout_pages + record_length rb pos \<and>
                    i \<le> unat scan * layout_pages + unat ap + 2 \<and>
                    rb (record_entry_pos rb pos (i - unat scan * layout_pages)) \<noteq> 0
                 then record_entry rb pos (i - unat scan * layout_pages) else cl i)"
    by auto
  have m: "unat (scan AND 0x7f) \<le> MAX_SCAN_CODE h"
    using masked_scan_le [of scan] s by linarith
  have r3: "unat scan * layout_pages + layout_pages - 1 < layout_size h"
    using row_in_table [OF s, of 11] by (simp add: layout_pages_def)
  have t: "unat scan * layout_pages + layout_pages - 1 = unat scan * layout_pages + 11"
    by (simp add: layout_pages_def)
  have b1: "pos - 2 < read_buf_size_max" using e by simp
  have r': "add_mappings h rb ap pos scan (Suc (unat (rb (pos - 2) AND 7))) 0 cl = Inr cl1"
    using r by (simp add: record_length_def)
  show ?thesis
    using m r3 b1 c unfolding key_record_def t
    by (simp add: rd_def wr_def Let_def r')
qed


lemma stale_host_files:
  "dos_files stale_host (cstr ''a'' @ cstr ''.kl'') = Some (bytes_of kl_a 48)"
  "dos_files stale_host (cstr ''xx'' @ cstr ''.kl'') = Some (bytes_of kl_xx 51)"
  "MAX_SCAN_CODE stale_host = 0x58"
  "layout_size stale_host = 1068"
  by (simp_all add: stale_host_def bare_host_def cstr_def layout_size_def layout_pages_def)

lemma stale_names:
  "\<not> strcmp_eq (cstr ''a'') (cstr ''none'')"
  "\<not> strcmp_eq (cstr ''xx'') (cstr ''none'')"
  "\<not> strncasecmp_eq (cstr ''xx'') (cstr ''US'') 2"
  "safe_strcpy 256 (cstr ''a'') = cstr ''a''"
  "safe_strcpy 256 (cstr ''xx'') = cstr ''xx''"
  by (simp_all add: strcmp_eq_def strncasecmp_eq_def safe_strcpy_def until_nul_def cstr_def
      c_tolower_def)

lemma load_a:
  "\<exists>rb. load_keyboard_buf stale_host rb0 (cstr ''a'') = Inr (rb, Inr (48, 5)) \<and>
        (\<forall>i<48. rb i = kl_a i) \<and> (\<forall>i. 48 \<le> i \<longrightarrow> rb i = rb0 i)"
  unfolding load_keyboard_buf_def stale_host_files
  by (simp add: fread_into_bytes_of kl_a_def Let_def)

lemma load_xx:
  "\<exists>rb. load_keyboard_buf stale_host rb0 (cstr ''xx'') = Inr (rb, Inr (51, 5)) \<and>
        (\<forall>i<51. rb i = kl_xx i)"
  unfolding load_keyboard_buf_def stale_host_files
  by (simp add: fread_into_bytes_of kl_xx_def Let_def)

lemma parse_a:
  assumes rb: "\<forall>i<48. rb i = kl_a i" and t: "rb 48 = 0" "rb 49 = 0" "rb 50 = v"
    and sl: "sl = - 1 \<or> sl = 1"
    and c: "current_layout L = (\<lambda>_. 0)" "diacritics_character L = 0"
      "used_lock_modifiers L = 0x0f"
  shows "\<exists>L'. parse_keyboard_buf stale_host rb 48 5 sl 437 L = Some (Inr (KEYB_NOERROR, L')) \<and>
              layout_of_a v L' \<and> current_keyboard_file_name L' = current_keyboard_file_name L"
proof -
  from rb have v: "rb 5 = 0" "rb 6 = 2" "rb 7 = 0" "rb 26 = 0" "rb 27 = 0" "rb 28 = 36"
    "rb 29 = 0" "rb 30 = 0" "rb 31 = 0" "rb 34 = 0xB5" "rb 35 = 1" "rb 36 = 41" "rb 37 = 0"
    "rb 38 = 0" "rb 39 = 0" "rb 42 = 0x10" "rb 43 = 0" "rb 44 = 1" "rb 45 = 0x78" "rb 46 = 0"
    "rb 47 = 0x1E"
    by (simp_all add: kl_a_def)
  have h: "parse_head stale_host rb 5 L
      = Inr (L\<lparr> language_codes := [], additional_planes := 0 \<rparr>, 6, 2)"
    by (simp add: parse_head_def rd_def read_buf_size_max_def v lang_codes_loop.simps
        layout_pages_def Let_def)
  have k0: "key_table_loop stale_host rb 0 6 0 42 (\<lambda>_. 0)
      = Inr ((\<lambda>_. 0)(192 := 0x78, 202 := 1, 203 := 0))"
    by (simp add: key_table_loop.simps key_record_def add_mappings.simps add_mapping_def
        rd_def wr_def read_buf_size_max_def v t stale_host_files layout_pages_def Let_def)
  have k1: "key_table_loop stale_host rb 0 (Suc 0) 0 47 ((\<lambda>_. 0)(192 := 0x78, 202 := 1, 203 := 0))
      = Inr (if v = 0 then (\<lambda>_. 0)(192 := 0x78, 202 := 1, 203 := 0, 371 := 0)
             else (\<lambda>_. 0)(192 := 0x78, 202 := 1, 203 := 0, 360 := ucast v, 370 := 0, 371 := 0))"
    by (simp add: key_table_loop.simps key_record_def add_mappings.simps add_mapping_def
        rd_def wr_def read_buf_size_max_def v t stale_host_files layout_pages_def Let_def)
  have b0: "submap_body stale_host rb 48 6 sl 437
       (L\<lparr> language_codes := [], additional_planes := 0 \<rparr>) 0
     = Inr (L\<lparr> language_codes := [], additional_planes := 0,
              diacritics_entries := 0,
              current_layout := (\<lambda>_. 0)(192 := 0x78, 202 := 1, 203 := 0) \<rparr>, False, sl = 0)"
    for sl
    by (simp add: submap_body_def host_readw_def rd_def read_buf_size_max_def v le16_def
        k0 c Let_def)
  have b1: "submap_body stale_host rb 48 6 sl 437
       (L\<lparr> language_codes := [], additional_planes := 0,
              diacritics_entries := 0,
              current_layout := (\<lambda>_. 0)(192 := 0x78, 202 := 1, 203 := 0) \<rparr>) 1
     = Inr (L\<lparr> language_codes := [], additional_planes := 0,
              diacritics_entries := 0,
              current_layout :=
                (if v = 0 then (\<lambda>_. 0)(192 := 0x78, 202 := 1, 203 := 0, 371 := 0)
                 else (\<lambda>_. 0)(192 := 0x78, 202 := 1, 203 := 0, 360 := ucast v,
                                 370 := 0, 371 := 0)) \<rparr>, True, sl = 1)"
    for sl
    by (simp add: submap_body_def host_readw_def rd_def read_buf_size_max_def v le16_def
        k1 c Let_def)
  have l: "submap_loop stale_host rb 48 6 sl 437 2
       (L\<lparr> language_codes := [], additional_planes := 0 \<rparr>) 0 False
     = Some (Inr (L\<lparr> language_codes := [], additional_planes := 0,
              diacritics_entries := 0,
              current_layout :=
                (if v = 0 then (\<lambda>_. 0)(192 := 0x78, 202 := 1, 203 := 0, 371 := 0)
                 else (\<lambda>_. 0)(192 := 0x78, 202 := 1, 203 := 0, 360 := ucast v,
                                 370 := 0, 371 := 0)) \<rparr>, True))"
    using sl
    by (auto simp add: submap_loop.simps [of _ _ _ _ _ _ _ _ 0]
        submap_loop.simps [of _ _ _ _ _ _ _ _ 1] submap_loop.simps [of _ _ _ _ _ _ _ _ 2]
        b0 b1 Let_def)
  show ?thesis
    unfolding parse_keyboard_buf_def h
    by (simp add: l, simp add: layout_of_a_def c)
qed


lemma read_a:
  assumes t: "kl_read_buf D 48 = 0" "kl_read_buf D 49 = 0" "kl_read_buf D 50 = v"
    and sl: "sl = - 1 \<or> (sl = 1 \<and> current_keyboard_file_name L = cstr ''a'')"
  shows "\<exists>L' rb. read_keyboard_file stale_host (cstr ''a'') sl 437 L D
             = Some (Inr (KEYB_NOERROR, L', D\<lparr> kl_read_buf := rb \<rparr>)) \<and>
           layout_of_a v L' \<and> current_keyboard_file_name L' = cstr ''a'' \<and>
           rb 48 = 0 \<and> rb 49 = 0 \<and> rb 50 = v"
proof -
  from load_a [of "kl_read_buf D"] obtain rb where
    l: "load_keyboard_buf stale_host (kl_read_buf D) (cstr ''a'') = Inr (rb, Inr (48, 5))"
    and r: "\<forall>i<48. rb i = kl_a i" and k: "\<forall>i. 48 \<le> i \<longrightarrow> rb i = kl_read_buf D i"
    by blast
  from k t have rt: "rb 48 = 0" "rb 49 = 0" "rb 50 = v" by simp_all
  from sl show ?thesis
  proof (elim disjE conjE)
    assume s: "sl = - 1"
    let ?L1 = "(reset L)\<lparr> current_keyboard_file_name := cstr ''a'' \<rparr>"
    have c: "current_layout ?L1 = (\<lambda>_. 0)" "diacritics_character ?L1 = 0"
      "used_lock_modifiers ?L1 = 0x0f"
      by (simp_all add: reset_def)
    from parse_a [OF r rt _ c, of sl] s obtain L' where
      p: "parse_keyboard_buf stale_host rb 48 5 (- 1) 437 ?L1 = Some (Inr (KEYB_NOERROR, L'))"
      and a: "layout_of_a v L'" "current_keyboard_file_name L' = cstr ''a''"
      by auto
    have "read_keyboard_file stale_host (cstr ''a'') sl 437 L D
             = Some (Inr (KEYB_NOERROR, L', D\<lparr> kl_read_buf := rb \<rparr>))"
      unfolding read_keyboard_file_def Let_def s stale_names using stale_names(1)
      by (simp add: l p)
    with a rt show ?thesis by blast
  next
    assume s: "sl = 1" and n: "current_keyboard_file_name L = cstr ''a''"
    have c: "current_layout (reset L) = (\<lambda>_. 0)" "diacritics_character (reset L) = 0"
      "used_lock_modifiers (reset L) = 0x0f"
      by (simp_all add: reset_def)
    from parse_a [OF r rt _ c, of sl] s obtain L' where
      p: "parse_keyboard_buf stale_host rb 48 5 1 437 (reset L) = Some (Inr (KEYB_NOERROR, L'))"
      and a: "layout_of_a v L'" "current_keyboard_file_name L' = current_keyboard_file_name (reset L)"
      by auto
    have "read_keyboard_file stale_host (cstr ''a'') sl 437 L D
             = Some (Inr (KEYB_NOERROR, L', D\<lparr> kl_read_buf := rb \<rparr>))"
      unfolding read_keyboard_file_def Let_def s using stale_names(1)
      by (simp add: l p)
    moreover have "current_keyboard_file_name L' = cstr ''a''"
      using a(2) n by (simp add: reset_def)
    ultimately show ?thesis using a(1) rt by blast
  qed
qed

lemma switch_xx:
  assumes "language_codes L = []"
  shows "\<exists>cb rb. switch_keyboard_layout stale_host (cstr ''xx'') 0 L D
            = Some (Inr (KEYB_LAYOUTNOTFOUND, L, None, 437,
                         D\<lparr> cp_read_buf := cb, kl_read_buf := rb \<rparr>)) \<and>
          rb 48 = 0 \<and> rb 49 = 0 \<and> rb 50 = 0x61"
proof -
  from load_xx [of "cp_read_buf D"] obtain cb where
    lc: "load_keyboard_buf stale_host (cp_read_buf D) (cstr ''xx'') = Inr (cb, Inr (51, 5))"
    and c: "\<forall>i<51. cb i = kl_xx i"
    by blast
  from c have cv: "cb 5 = 0" "cb 6 = 0" by (simp_all add: kl_xx_def)
  have x: "extract_codepage stale_host (cstr ''xx'') D = Inr (437, D\<lparr> cp_read_buf := cb \<rparr>)"
    unfolding extract_codepage_def using stale_names(2)
    by (simp add: lc rd_def read_buf_size_max_def cv ceil_udivide_def Let_def)
  from load_xx [of "kl_read_buf D"] obtain rb where
    lk: "load_keyboard_buf stale_host (kl_read_buf D) (cstr ''xx'') = Inr (rb, Inr (51, 5))"
    and r: "\<forall>i<51. rb i = kl_xx i"
    by blast
  from r have rv: "rb 5 = 0" "rb 6 = 0" "rb 7 = 0" "rb 48 = 0" "rb 49 = 0" "rb 50 = 0x61"
    by (simp_all add: kl_xx_def)
  have h: "parse_head stale_host rb 5 L0
      = Inr (L0\<lparr> language_codes := [], additional_planes := 0 \<rparr>, 6, 0)" for L0
    by (simp add: parse_head_def rd_def read_buf_size_max_def rv lang_codes_loop.simps
        layout_pages_def Let_def)
  have p: "\<exists>L2. parse_keyboard_buf stale_host rb 51 5 (- 1) 437 L0
      = Some (Inr (KEYB_LAYOUTNOTFOUND, L2))" for L0
    unfolding parse_keyboard_buf_def h
    by (simp add: submap_loop.simps)
  have "\<exists>T. read_keyboard_file_cp stale_host (cstr ''xx'') 437 new_keyboard_layout
           (D\<lparr> cp_read_buf := cb \<rparr>)
      = Some (Inr (KEYB_LAYOUTNOTFOUND, T, D\<lparr> cp_read_buf := cb, kl_read_buf := rb \<rparr>))"
  proof -
    from p obtain L2 where "parse_keyboard_buf stale_host rb 51 5 (- 1) 437
        ((reset new_keyboard_layout)\<lparr> current_keyboard_file_name := cstr ''xx'' \<rparr>)
      = Some (Inr (KEYB_LAYOUTNOTFOUND, L2))"
      by blast
    then show ?thesis
      unfolding read_keyboard_file_cp_def read_keyboard_file_def Let_def stale_names
      using stale_names(2) by (simp add: lk)
  qed
  then obtain T where rk: "read_keyboard_file_cp stale_host (cstr ''xx'') 437 new_keyboard_layout
           (D\<lparr> cp_read_buf := cb \<rparr>)
      = Some (Inr (KEYB_LAYOUTNOTFOUND, T, D\<lparr> cp_read_buf := cb, kl_read_buf := rb \<rparr>))"
    by blast
  have "switch_keyboard_layout stale_host (cstr ''xx'') 0 L D
            = Some (Inr (KEYB_LAYOUTNOTFOUND, L, None, 437,
                         D\<lparr> cp_read_buf := cb, kl_read_buf := rb \<rparr>))"
    unfolding switch_keyboard_layout_def stale_names using stale_names(3) assms
    by (simp add: language_code_found_def x rk)
  with rv show ?thesis by blast
qed

lemma key_10:
  assumes a: "layout_of_a v0 L" and n: "current_keyboard_file_name L = cstr ''a''"
    and t: "kl_read_buf D 48 = 0" "kl_read_buf D 49 = 0" "kl_read_buf D 50 = v"
    and cp: "loaded_codepage D = 437"
  shows "\<exists>L' rb. layout_key stale_host 0x10 0 0 0 L D
            = Some (Inr (True, L', D\<lparr> kl_read_buf := rb \<rparr>)) \<and>
          layout_of_a v L' \<and> current_keyboard_file_name L' = cstr ''a''"
proof -
  from read_a [OF t, of 1 L] n obtain L' rb where
    r: "read_keyboard_file stale_host (cstr ''a'') 1 437 L D
             = Some (Inr (KEYB_NOERROR, L', D\<lparr> kl_read_buf := rb \<rparr>))"
    and f: "layout_of_a v L'" "current_keyboard_file_name L' = cstr ''a''"
    by auto
  from a have v: "current_layout L 192 = 0x78" "current_layout L 202 = 1"
    "current_layout L 203 = 0" "use_foreign_layout L" "used_lock_modifiers L = 0x0f"
    by (simp_all add: layout_of_a_def)
  have s: "read_keyboard_file_specific stale_host 1 L D
      = Some (Inr (L', D\<lparr> kl_read_buf := rb \<rparr>))"
    unfolding read_keyboard_file_specific_def n cp using stale_names(1)
    by (simp add: r)
  have m: "map_key stale_host 0x10 0x78 True False L D
      = Some (Inr (True, L', D\<lparr> kl_read_buf := rb \<rparr>))"
    by (simp add: map_key_def s)
  have b: "base_planes stale_host 0x10 0 0 L D
      = Some (Inr (True, L', D\<lparr> kl_read_buf := rb \<rparr>))"
    by (simp add: base_planes_def rd_def stale_host_files layout_pages_def v shift_active_def m)
  have "layout_key stale_host 0x10 0 0 0 L D
            = Some (Inr (True, L', D\<lparr> kl_read_buf := rb \<rparr>))"
    by (simp add: layout_key_def stale_host_files v b)
  with f show ?thesis by blast
qed

lemma key_1e_unmapped:
  assumes a: "layout_of_a 0 L"
  shows "layout_key stale_host 0x1E 0 0 0 L D = Some (Inr (False, L, D))"
proof -
  from a have v: "current_layout L 360 = 0" "current_layout L 371 = 0"
    "use_foreign_layout L" "used_lock_modifiers L = 0x0f" "additional_planes L = 0"
    "diacritics_character L = 0"
    by (simp_all add: layout_of_a_def)
  have b: "base_planes stale_host 0x1E 0 0 L D = Some (Inr (False, L, D))"
    by (simp add: base_planes_def rd_def stale_host_files layout_pages_def v shift_active_def)
  show ?thesis
    by (simp add: layout_key_def stale_host_files v b rd_def layout_pages_def
        plane_loop.simps pending_diacritics_def)
qed

lemma key_1e_mapped:
  assumes a: "layout_of_a 0x61 L"
  shows "layout_key stale_host 0x1E 0 0 0 L D
           = Some (Inr (True, L, BIOS_AddKeyToBuffer 0x1E61 D))"
proof -
  from a have v: "current_layout L 360 = 0x61" "current_layout L 370 = 0"
    "current_layout L 371 = 0"
    "use_foreign_layout L" "used_lock_modifiers L = 0x0f" "additional_planes L = 0"
    "diacritics_character L = 0"
    by (simp_all add: layout_of_a_def)
  have m: "map_key stale_host 0x1E 0x61 False False L D
      = Some (Inr (True, L, BIOS_AddKeyToBuffer 0x1E61 D))"
    by (simp add: map_key_def map_key_diacritics_def v)
  have b: "base_planes stale_host 0x1E 0 0 L D
      = Some (Inr (True, L, BIOS_AddKeyToBuffer 0x1E61 D))"
    by (simp add: base_planes_def rd_def stale_host_files layout_pages_def v shift_active_def m)
  show ?thesis
    by (simp add: layout_key_def stale_host_files v b)
qed

lemma overrun_host_files:
  "dos_files overrun_host (cstr ''dia'' @ cstr ''.kl'') = Some (bytes_of kl_dia_overrun 2085)"
  "dos_files overrun_host (cstr ''b1'' @ cstr ''.kl'') = Some (bytes_of kl_scan_b1 41)"
  "MAX_SCAN_CODE overrun_host = 0x58"
  "layout_size overrun_host = 1068"
  by (simp_all add: overrun_host_def bare_host_def cstr_def layout_size_def layout_pages_def)

lemma overrun_names:
  "\<not> strcmp_eq (cstr ''dia'') (cstr ''none'')"
  "\<not> strcmp_eq (cstr ''b1'') (cstr ''none'')"
  by (simp_all add: strcmp_eq_def until_nul_def cstr_def)

lemma load_dia:
  "\<exists>rb. load_keyboard_buf overrun_host rb0 (cstr ''dia'') = Inr (rb, Inr (2085, 5)) \<and>
        (\<forall>i<2085. rb i = kl_dia_overrun i)"
  unfolding load_keyboard_buf_def overrun_host_files
  by (simp add: fread_into_bytes_of kl_dia_overrun_def Let_def)

lemma load_b1:
  "\<exists>rb. load_keyboard_buf overrun_host rb0 (cstr ''b1'') = Inr (rb, Inr (41, 5)) \<and>
        (\<forall>i<41. rb i = kl_scan_b1 i)"
  unfolding load_keyboard_buf_def overrun_host_files
  by (simp add: fread_into_bytes_of kl_scan_b1_def Let_def)

lemma scan_dia:
  assumes "\<forall>i<2085. rb i = kl_dia_overrun i"
  shows "diacritics_scan rb 34 0 0 = Inr (2050, 5)"
proof -
  from assms have v: "rb 34 = 1" "rb 35 = 255" "rb 546 = 1" "rb 547 = 255" "rb 1058 = 1"
    "rb 1059 = 255" "rb 1570 = 1" "rb 1571 = 254" "rb 2080 = 1" "rb 2081 = 1"
    by (simp_all add: kl_dia_overrun_def)
  show ?thesis
    by (simp add: diacritics_scan.simps rd_def read_buf_size_max_def v)
qed

lemma parse_dia:
  assumes r: "\<forall>i<2085. rb i = kl_dia_overrun i"
  shows "parse_keyboard_buf overrun_host rb 2085 5 (- 1) 437 L = Some (Inl OutOfBounds)"
proof -
  from r have v: "rb 5 = 0" "rb 6 = 1" "rb 7 = 0" "rb 26 = 0xB5" "rb 27 = 1" "rb 30 = 28"
    "rb 31 = 0"
    by (simp_all add: kl_dia_overrun_def)
  have h: "parse_head overrun_host rb 5 L
      = Inr (L\<lparr> language_codes := [], additional_planes := 0 \<rparr>, 6, 1)"
    by (simp add: parse_head_def rd_def read_buf_size_max_def v lang_codes_loop.simps
        layout_pages_def Let_def)
  have d: "read_diacritics rb 34 L0 = Inl OutOfBounds" if "diacritics_entries L0 = 0" for L0
    unfolding read_diacritics_def that scan_dia [OF r]
    by (simp add: diacritics_copy_overrun diacritics_size_def read_buf_size_max_def)
  have b: "submap_body overrun_host rb 2085 6 (- 1) 437
       (L\<lparr> language_codes := [], additional_planes := 0 \<rparr>) 0 = Inl OutOfBounds"
    by (simp add: submap_body_def host_readw_def rd_def read_buf_size_max_def v le16_def d)
  show ?thesis
    unfolding parse_keyboard_buf_def h
    by (simp add: submap_loop.simps b)
qed

lemma parse_b1:
  assumes r: "\<forall>i<41. rb i = kl_scan_b1 i"
  shows "parse_keyboard_buf overrun_host rb 41 5 (- 1) 437 L = Some (Inl OutOfBounds)"
proof -
  from r have v: "rb 5 = 0" "rb 6 = 1" "rb 7 = 0" "rb 26 = 0xB5" "rb 27 = 1" "rb 28 = 28"
    "rb 29 = 0" "rb 30 = 0" "rb 31 = 0" "rb 34 = 0xB1" "rb 35 = 2" "rb 36 = 0" "rb 37 = 0"
    "rb 38 = 0" "rb 39 = 5"
    by (simp_all add: kl_scan_b1_def)
  have h: "parse_head overrun_host rb 5 L
      = Inr (L\<lparr> language_codes := [], additional_planes := 0 \<rparr>, 6, 1)"
    by (simp add: parse_head_def rd_def read_buf_size_max_def v lang_codes_loop.simps
        layout_pages_def Let_def)
  have a0: "add_mapping overrun_host rb 37 0xB1 0 cl = Inr cl" for cl
    by (simp add: add_mapping_def rd_def read_buf_size_max_def v)
  have a1: "add_mapping overrun_host rb 37 0xB1 (Suc 0) cl = Inr cl" for cl
    by (simp add: add_mapping_def rd_def read_buf_size_max_def v)
  have a2: "add_mapping overrun_host rb 37 0xB1 (Suc (Suc 0)) cl = Inl OutOfBounds" for cl
    by (simp add: add_mapping_def rd_def wr_def read_buf_size_max_def v overrun_host_files
        layout_pages_def)
  have k: "key_record overrun_host rb 0 37 0xB1 cl = Inl OutOfBounds" for cl
    by (simp add: key_record_def rd_def read_buf_size_max_def v add_mappings.simps a0 a1 a2
        overrun_host_files)
  have t: "key_table_loop overrun_host rb 0 7 0 34 cl = Inl OutOfBounds" for cl
    by (subst key_table_loop.simps) (simp add: read_buf_size_max_def v k)
  have b: "submap_body overrun_host rb 41 6 (- 1) 437
       (L\<lparr> language_codes := [], additional_planes := 0 \<rparr>) 0 = Inl OutOfBounds"
    by (simp add: submap_body_def host_readw_def rd_def read_buf_size_max_def v le16_def t)
  show ?thesis
    unfolding parse_keyboard_buf_def h
    by (simp add: submap_loop.simps b)
qed

text \<open>
  What a failed switch keeps. When \<open>DOS_SwitchKeyboardLayout\<close> returns a code other than
  \<open>KEYB_NOERROR\<close>, the loaded layout is the one before the call, and so are the loaded
  code page, the BIOS key buffer and the record of font writes: the state differs at most
  in the parsers' scratch buffers. Whenever \<open>DOS_LayoutKey\<close> then returns for one key
  event both from the old and from the new session, it returns the same flag and has
  enqueued the same values.
\<close>

lemma switch_failure_keeps_session:
  assumes "DOS_SwitchKeyboardLayout h new_layout tried_cp S = Some (Inr (code, tried_cp', S'))"
    and "code \<noteq> KEYB_NOERROR"
  shows "loaded_layout S' = loaded_layout S \<and>
         dos S' = (dos S)\<lparr> kl_read_buf := kl_read_buf (dos S'),
                             cp_read_buf := cp_read_buf (dos S') \<rparr> \<and>
         (\<forall>key flags1 flags2 flags3 b1 S1 b2 S2.
            DOS_LayoutKey h key flags1 flags2 flags3 S = Some (Inr (b1, S1)) \<and>
            DOS_LayoutKey h key flags1 flags2 flags3 S' = Some (Inr (b2, S2)) \<longrightarrow>
            b1 = b2 \<and> bios_key_buffer (dos S1) = bios_key_buffer (dos S2))"
proof -
  from switch_failure_state [OF assms] have
    l: "loaded_layout S' = loaded_layout S"
    and d: "dos S' = (dos S)\<lparr> kl_read_buf := kl_read_buf (dos S'),
                               cp_read_buf := cp_read_buf (dos S') \<rparr>"
    by simp_all
  have "same_but_scratch (dos S) (dos S')"
    by (subst d) (simp add: same_but_scratch_def)
  with l d show ?thesis
    by (blast dest: DOS_LayoutKey_rel)
qed

lemma switch_failure_keeps_session_instance:
  "DOS_SwitchKeyboardLayout bare_host (cstr ''xx999'') 0 fresh_session
     = Some (Inr (KEYB_FILENOTFOUND, 437, fresh_session)) \<and>
   KEYB_FILENOTFOUND \<noteq> KEYB_NOERROR \<and>
   loaded_layout fresh_session = Some new_keyboard_layout"
proof -
  have n: "\<not> strcmp_eq (cstr ''xx999'') (cstr ''none'')"
    "\<not> strncasecmp_eq (cstr ''xx999'') (cstr ''US'') 2"
    by (simp_all add: strcmp_eq_def strncasecmp_eq_def until_nul_def cstr_def c_tolower_def)
  have x: "extract_codepage bare_host (cstr ''xx999'') initial_dos = Inr (437, initial_dos)"
    unfolding extract_codepage_def using n
    by (simp add: not_found_in_bare_host initial_dos_def)
  have r: "read_keyboard_file_cp bare_host (cstr ''xx999'') 437 new_keyboard_layout initial_dos
      = Some (Inr (KEYB_FILENOTFOUND,
                   new_keyboard_layout\<lparr> current_keyboard_file_name := cstr ''xx999'' \<rparr>,
                   initial_dos))"
  proof -
    have c: "safe_strcpy 256 (cstr ''xx999'') = cstr ''xx999''"
      by (simp add: safe_strcpy_def until_nul_def cstr_def)
    show ?thesis
      unfolding read_keyboard_file_cp_def read_keyboard_file_def c using n
      by (simp add: not_found_in_bare_host initial_dos_def new_keyboard_layout_def reset_def)
  qed
  have e: "DOS_SwitchKeyboardLayout bare_host (cstr ''xx999'') 0 fresh_session
     = Some (Inr (KEYB_FILENOTFOUND, 437, fresh_session))"
  proof -
    have lc: "language_codes new_keyboard_layout = []"
      by (simp add: new_keyboard_layout_def reset_def)
    show ?thesis
      unfolding DOS_SwitchKeyboardLayout_def switch_keyboard_layout_def using n
      by (simp add: fresh_session_def x r language_code_found_def lc)
  qed
  from switch_failure_keeps_session [OF e] e show ?thesis
    by (simp add: fresh_session_def)
qed

text \<open>
  The range of \<open>diacritics_character\<close> on the runs that stay inside the arrays: it is 0
  or lies in \<open>[200, diacritics_entries + 200)\<close> in the layout the constructor makes
  and in every layout \<open>read_keyboard_file\<close> returns; \<open>map_key\<close>, \<open>layout_key\<close> and
  \<open>switch_keyboard_layout\<close> keep it so, in the layout they work on and in the layout
  \<open>switch_keyboard_layout\<close> creates.
\<close>

lemma diacritics_character_invariant:
  "diacritics_inv new_keyboard_layout \<and>
   (read_keyboard_file h name specific_layout requested_codepage L D = Some (Inr (code, L1, D1))
      \<longrightarrow> diacritics_inv L1) \<and>
   (diacritics_inv L \<and>
    map_key h key layouted_key is_command is_keypair L D = Some (Inr (handled, L2, D2))
      \<longrightarrow> diacritics_inv L2) \<and>
   (diacritics_inv L \<and>
    layout_key h key flags1 flags2 flags3 L D = Some (Inr (handled', L3, D3))
      \<longrightarrow> diacritics_inv L3) \<and>
   (diacritics_inv L \<and>
    switch_keyboard_layout h new_layout tried_cp L D
      = Some (Inr (code', L4, created_layout, tried_cp', D4))
      \<longrightarrow> diacritics_inv L4 \<and>
          (case created_layout of None \<Rightarrow> True | Some C \<Rightarrow> diacritics_inv C))"
proof -
  have "diacritics_inv new_keyboard_layout"
    by (simp add: diacritics_inv_def new_keyboard_layout_def reset_def)
  moreover have "diacritics_inv L1"
    if "read_keyboard_file h name specific_layout requested_codepage L D = Some (Inr (code, L1, D1))"
    using read_keyboard_file_result [OF that] by (simp add: diacritics_inv_def)
  moreover have "diacritics_inv L2"
    if "diacritics_inv L"
      "map_key h key layouted_key is_command is_keypair L D = Some (Inr (handled, L2, D2))"
    using that by (rule map_key_inv)
  moreover have "diacritics_inv L3"
    if "diacritics_inv L"
      "layout_key h key flags1 flags2 flags3 L D = Some (Inr (handled', L3, D3))"
    using that by (rule layout_key_inv)
  moreover have "diacritics_inv L4 \<and>
      (case created_layout of None \<Rightarrow> True | Some C \<Rightarrow> diacritics_inv C)"
    if "diacritics_inv L"
      "switch_keyboard_layout h new_layout tried_cp L D
         = Some (Inr (code', L4, created_layout, tried_cp', D4))"
    using that by (rule switch_keyboard_layout_inv)
  ultimately show ?thesis
    by (intro conjI impI; (elim conjE)?; assumption?) simp_all
qed


lemma diacritics_character_invariant_instance:
  "diacritics_inv circumflex_layout \<and>
   read_keyboard_file bare_host (cstr ''none'') (- 1) 437 circumflex_layout initial_dos
     = Some (Inr (KEYB_NOERROR,
          (reset circumflex_layout)\<lparr> current_keyboard_file_name := cstr ''none'' \<rparr>,
          initial_dos)) \<and>
   diacritics_inv ((reset circumflex_layout)\<lparr> current_keyboard_file_name := cstr ''none'' \<rparr>) \<and>
   map_key bare_host 0x1A 200 True False circumflex_layout initial_dos
     = Some (Inr (True, circumflex_layout\<lparr> diacritics_character := 200 \<rparr>, initial_dos)) \<and>
   diacritics_inv (circumflex_layout\<lparr> diacritics_character := 200 \<rparr>) \<and>
   layout_key bare_host 0x10 0 0 0 (circumflex_layout\<lparr> diacritics_character := 200 \<rparr>)
       initial_dos
     = Some (Inr (False, circumflex_layout, initial_dos\<lparr> bios_key_buffer := [0x105E] \<rparr>)) \<and>
   switch_keyboard_layout bare_host (cstr ''US'') 0
       (circumflex_layout\<lparr> diacritics_character := 200 \<rparr>) initial_dos
     = Some (Inr (KEYB_NOERROR, circumflex_layout\<lparr> use_foreign_layout := False \<rparr>,
                  None, 0, initial_dos)) \<and>
   diacritics_inv (circumflex_layout\<lparr> use_foreign_layout := False \<rparr>)"
proof -
  let ?P = "circumflex_layout\<lparr> diacritics_character := 200 \<rparr>"
  have i0: "diacritics_inv circumflex_layout"
    by (simp add: diacritics_inv_def circumflex_layout_def new_keyboard_layout_def reset_def)
  have r: "read_keyboard_file bare_host (cstr ''none'') (- 1) 437 circumflex_layout initial_dos
     = Some (Inr (KEYB_NOERROR,
          (reset circumflex_layout)\<lparr> current_keyboard_file_name := cstr ''none'' \<rparr>,
          initial_dos))"
    by (simp add: read_keyboard_file_def strcmp_eq_def safe_strcpy_def until_nul_def cstr_def)
  have m: "map_key bare_host 0x1A 200 True False circumflex_layout initial_dos
     = Some (Inr (True, ?P, initial_dos))"
    by (simp add: map_key_def circumflex_layout_def new_keyboard_layout_def reset_def)
  have k: "layout_key bare_host 0x10 0 0 0 ?P initial_dos
     = Some (Inr (False, circumflex_layout, initial_dos\<lparr> bios_key_buffer := [0x105E] \<rparr>))"
    by (simp add: layout_key_def circumflex_layout_def new_keyboard_layout_def reset_def
      bare_host_def base_planes_def plane_loop.simps rd_def layout_size_def layout_pages_def
      state_changing_key_def shift_active_def pending_diacritics_def diacritics_size_def
      key_with_def BIOS_AddKeyToBuffer_def initial_dos_def)
  have s: "switch_keyboard_layout bare_host (cstr ''US'') 0 ?P initial_dos
     = Some (Inr (KEYB_NOERROR, circumflex_layout\<lparr> use_foreign_layout := False \<rparr>,
                  None, 0, initial_dos))"
    by (simp add: switch_keyboard_layout_def strncasecmp_eq_def until_nul_def cstr_def
        circumflex_layout_def new_keyboard_layout_def reset_def)
  from diacritics_character_invariant
    [where h = bare_host and L = circumflex_layout and D = initial_dos
       and name = "cstr ''none''" and specific_layout = "- 1" and requested_codepage = 437
       and code = KEYB_NOERROR
       and ?L1.0 = "(reset circumflex_layout)\<lparr> current_keyboard_file_name := cstr ''none'' \<rparr>"
       and ?D1.0 = initial_dos
       and key = "0x1A" and layouted_key = 200 and is_command = True and is_keypair = False
       and handled = True and ?L2.0 = ?P and ?D2.0 = initial_dos]
  have i1: "diacritics_inv ((reset circumflex_layout)\<lparr> current_keyboard_file_name := cstr ''none'' \<rparr>)"
    and i2: "diacritics_inv ?P"
    using i0 r m by simp_all
  from diacritics_character_invariant
    [where h = bare_host and L = ?P and D = initial_dos and new_layout = "cstr ''US''"
       and tried_cp = 0 and code' = KEYB_NOERROR
       and ?L4.0 = "circumflex_layout\<lparr> use_foreign_layout := False \<rparr>"
       and created_layout = None and tried_cp' = 0 and ?D4.0 = initial_dos
       and key = "0x10" and ?flags1.0 = 0 and ?flags2.0 = 0 and ?flags3.0 = 0
       and handled' = False and ?L3.0 = circumflex_layout
       and ?D3.0 = "initial_dos\<lparr> bios_key_buffer := [0x105E] \<rparr>"]
  have i4: "diacritics_inv (circumflex_layout\<lparr> use_foreign_layout := False \<rparr>)"
    using i2 s k by simp
  from i0 r i1 m i2 k s i4 show ?thesis
    by (intro conjI)
qed


section \<open>The claims\<close>

text \<open>
  C5. Whatever the scan code and the three flag bytes, a layout whose
  \<open>use_foreign_layout\<close> is false makes \<open>layout_key\<close> return false and leave the layout
  (table, user keys, pending dead key) and the state around it (the BIOS key buffer among
  it) exactly as they were.
\<close>

theorem layout_key_pass_through:
  "\<not> use_foreign_layout L \<Longrightarrow>
   layout_key h key flags1 flags2 flags3 L D = Some (Inr (False, L, D))"
  by (simp add: layout_key_def)

theorem layout_key_pass_through_witness:
  "\<not> use_foreign_layout new_keyboard_layout \<and>
   layout_key bare_host 0x1E 0 0 0 new_keyboard_layout initial_dos
     = Some (Inr (False, new_keyboard_layout, initial_dos))"
  using layout_key_pass_through [of new_keyboard_layout bare_host "0x1E" 0 0 0 initial_dos]
  by (simp add: new_keyboard_layout_def reset_def)

text \<open>
  C2, as amended. A dead key is pending (\<open>diacritics_character\<close> in
  \<open>[200, diacritics_entries + 200)\<close>, as a command code 200 to 234 leaves it) and its
  sub-table, found by the walk of the source, lies inside the diacritics array. Then a
  literal key through \<open>map_key\<close> is handled, clears the pending dead key, and enqueues
  exactly one value when the literal's low byte is the first byte of a pair of the
  sub-table (the scan code with the first such pair's second byte), and otherwise exactly
  two values: the scan code with the sub-table's lead byte, then the literal itself.
\<close>

theorem map_key_pending_dead_key:
  assumes pending: "200 \<le> unat (diacritics_character L)"
      "unat (diacritics_character L) < unat (diacritics_entries L) + 200"
    and walk: "diacritics_walk (diacritics L) (unat (diacritics_character L) - 200) 0 = Inr ds"
    and inside: "unat ds + 2 + 2 * unat (diacritics L (unat ds + 1)) \<le> diacritics_size"
  shows "map_key h key layouted_key False is_keypair L D =
    Some (Inr (True, L\<lparr> diacritics_character := 0 \<rparr>,
      D\<lparr> bios_key_buffer := bios_key_buffer D @
        (case map_of (subtable_pairs (diacritics L) (unat ds) (unat (diacritics L (unat ds + 1))))
                (ucast (layouted_key AND 0xff)) of
           Some out \<Rightarrow> [key_with key out]
         | None \<Rightarrow> [key_with key (diacritics L (unat ds)),
                     if is_keypair then layouted_key
                     else push_bit 8 (word_of_nat key) OR (layouted_key AND 0xff)]) \<rparr>))"
proof -
  let ?dia = "diacritics L"
  let ?len = "?dia (unat ds + 1)"
  let ?L0 = "L\<lparr> diacritics_character := 0 \<rparr>"
  from pending have pos: "diacritics_character L > 0"
    by (simp add: word_greater_zero_iff unat_gt_0 [symmetric] del: unat_gt_0)
  from pending have nge: "\<not> uint (diacritics_character L) - 200 \<ge> uint (diacritics_entries L)"
    unfolding uint_nat by linarith
  from pending have cnt: "nat (uint (diacritics_character L) - 200) = unat (diacritics_character L) - 200"
    unfolding uint_nat by linarith
  from inside have r1: "rd diacritics_size ?dia (unat ds + 1) = Inr ?len"
    by (simp add: rd_def)
  from inside have "unat ds + 2 < 2 ^ 16"
    by (simp add: diacritics_size_def)
  then have u: "unat (ds + 2) = unat ds + 2"
    by (simp add: unat_word_ariths)
  from inside have r2: "rd diacritics_size ?dia (unat (ds + 2) - 2) = Inr (?dia (unat ds))"
    by (simp add: rd_def u)
  have u2: "\<not> unat (ds + 2) < 2"
    by (simp add: u)
  have d: "map_key_diacritics key layouted_key L D =
      (case map_of (subtable_pairs ?dia (unat ds) (unat ?len)) (ucast (layouted_key AND 0xff)) of
         Some out \<Rightarrow> Inr (True, ?L0, BIOS_AddKeyToBuffer (key_with key out) D)
       | None \<Rightarrow> Inr (False, ?L0, BIOS_AddKeyToBuffer (key_with key (?dia (unat ds))) D))"
    unfolding map_key_diacritics_def cnt walk r1 bnd_simps Let_def search_subtable [OF inside]
    using pos nge u2 by (simp only: if_True if_False r2 bnd_simps split: option.split)
  show ?thesis
    unfolding map_key_def
    by (simp add: d BIOS_AddKeyToBuffer_def split: option.split)
qed


theorem map_key_pending_dead_key_witness:
  "200 \<le> unat (diacritics_character (circumflex_layout\<lparr> diacritics_character := 200 \<rparr>)) \<and>
   map_key bare_host 0x12 0x65 False False
      (circumflex_layout\<lparr> diacritics_character := 200 \<rparr>) initial_dos =
    Some (Inr (True, circumflex_layout, initial_dos\<lparr> bios_key_buffer := [0x12EA] \<rparr>))"
  using map_key_pending_dead_key [of "circumflex_layout\<lparr> diacritics_character := 200 \<rparr>" 0
          bare_host "0x12" "0x65" False initial_dos]
  by (simp add: circumflex_layout_def new_keyboard_layout_def reset_def diacritics_size_def
        subtable_pairs_def key_with_def initial_dos_def)

text \<open>
  C2 as stated fails: after the command 200 on the circumflex layout, the literal q (0x71),
  which no pair of the sub-table matches, enqueues two values, the lead byte and then q.
\<close>

theorem map_key_dead_key_two_values:
  "map_key bare_host 0x1A 200 True False circumflex_layout initial_dos =
     Some (Inr (True, circumflex_layout\<lparr> diacritics_character := 200 \<rparr>, initial_dos)) \<and>
   map_key bare_host 0x10 0x71 False False
      (circumflex_layout\<lparr> diacritics_character := 200 \<rparr>) initial_dos =
     Some (Inr (True, circumflex_layout, initial_dos\<lparr> bios_key_buffer := [0x105E, 0x1071] \<rparr>))"
  by (simp add: map_key_def map_key_diacritics_def circumflex_layout_def new_keyboard_layout_def
        reset_def diacritics_size_def rd_def key_with_def initial_dos_def BIOS_AddKeyToBuffer_def
        diacritics_search.simps)

text \<open>
  C3, as amended. \<open>layout_key\<close> reaches the pending-diacritic step: the scan code is
  in range, the layout is in use, neither the normal or shift plane nor an additional
  plane dispatched the key, a dead key is pending and the key is not one of the seven
  state-changing keys. Then the pending dead key is cleared in both cases; only when
  \<open>diacritics_character\<close> is \<open>diacritics_entries + 200\<close> or more does the call return
  true and enqueue nothing; otherwise (the sub-table's start \<open>ds\<close> lying in the array) it
  enqueues the scan code with the sub-table's lead byte and returns false.
\<close>

theorem layout_key_pending_diacritics:
  assumes key: "key \<le> MAX_SCAN_CODE h" and foreign: "use_foreign_layout L"
    and base: "base_planes h key flags1 flags3 L D = Some (Inr (False, L1, D1))"
    and planes: "plane_loop h key (current_flags flags1 flags2 flags3)
                   (current_layout L (key * layout_pages + layout_pages - 1) AND 0x80 = 0x80)
                   0 L D = Some (Inr (False, L2, D2))"
    and pending: "diacritics_character L > 0"
    and other: "\<not> state_changing_key key"
  shows "(unat (diacritics_character L) \<ge> unat (diacritics_entries L) + 200 \<longrightarrow>
            layout_key h key flags1 flags2 flags3 L D
              = Some (Inr (True, L\<lparr> diacritics_character := 0 \<rparr>, D))) \<and>
         (unat (diacritics_character L) < unat (diacritics_entries L) + 200 \<and>
          diacritics_walk (diacritics L) (unat (diacritics_character L) - 200) 0 = Inr ds \<and>
          unat ds < diacritics_size \<longrightarrow>
            layout_key h key flags1 flags2 flags3 L D
              = Some (Inr (False, L\<lparr> diacritics_character := 0 \<rparr>,
                  D\<lparr> bios_key_buffer :=
                       bios_key_buffer D @ [key_with key (diacritics L (unat ds))] \<rparr>)))"
proof -
  from base_planes_not_handled [OF base] have b: "L1 = L" "D1 = D" by simp_all
  from plane_loop_not_handled [OF planes] have p: "L2 = L" "D2 = D" by simp_all
  from key have "key * layout_pages + layout_pages - 1 < layout_size h"
    by (simp add: layout_size_def layout_pages_def)
  then have kf: "rd (layout_size h) (current_layout L) (key * layout_pages + layout_pages - 1)
      = Inr (current_layout L (key * layout_pages + layout_pages - 1))"
    by (simp add: rd_def)
  have cnt: "nat (uint (diacritics_character L) - 200) = unat (diacritics_character L) - 200"
    unfolding uint_nat by linarith
  have lk: "layout_key h key flags1 flags2 flags3 L D = Some (pending_diacritics key L D)"
    using key foreign unfolding layout_key_def
    by (simp add: base [unfolded b] kf planes [unfolded p] del: One_nat_def)
  show ?thesis
    unfolding lk pending_diacritics_def cnt
    using pending other
    by (auto simp: rd_def BIOS_AddKeyToBuffer_def)
qed

theorem layout_key_pending_diacritics_witness:
  "0x10 \<le> MAX_SCAN_CODE bare_host \<and>
   layout_key bare_host 0x10 0 0 0 (circumflex_layout\<lparr> diacritics_character := 200 \<rparr>) initial_dos
     = Some (Inr (False, circumflex_layout, initial_dos\<lparr> bios_key_buffer := [0x105E] \<rparr>))"
  using layout_key_pending_diacritics [of "0x10" bare_host
      "circumflex_layout\<lparr> diacritics_character := 200 \<rparr>" 0 0
      initial_dos "circumflex_layout\<lparr> diacritics_character := 200 \<rparr>" initial_dos 0
      "circumflex_layout\<lparr> diacritics_character := 200 \<rparr>" initial_dos 0]
  by (simp add: circumflex_layout_def new_keyboard_layout_def reset_def bare_host_def
      base_planes_def plane_loop.simps rd_def layout_size_def layout_pages_def
      state_changing_key_def shift_active_def diacritics_size_def key_with_def initial_dos_def)

text \<open>
  C3 as stated fails: with the circumflex pending (200, one entry loaded) and the key 0x1E
  dispatched by no plane, \<open>layout_key\<close> enqueues 0x1E5E and returns false.
\<close>

theorem layout_key_pending_emits_lead:
  "layout_key bare_host 0x1E 0 0 0 (circumflex_layout\<lparr> diacritics_character := 200 \<rparr>) initial_dos
     = Some (Inr (False, circumflex_layout, initial_dos\<lparr> bios_key_buffer := [0x1E5E] \<rparr>))"
  by (simp add: layout_key_def circumflex_layout_def new_keyboard_layout_def reset_def bare_host_def
      base_planes_def plane_loop.simps rd_def layout_size_def layout_pages_def
      state_changing_key_def shift_active_def pending_diacritics_def diacritics_size_def
      key_with_def BIOS_AddKeyToBuffer_def initial_dos_def)

text \<open>
  C6. The claim fails on the code: the test for the DR-DOS signature asks for the first
  byte 0x7F and for the next four bytes to differ from 'D', 'R', 'F', '_', so a file that
  starts with exactly 7F 44 52 46 5F is not rejected there. It is taken for packed data;
  with "UPX!" and a version of 10 or more in its bytes 5 to 104 it is handed to the
  decompression, and the call returns what the unpacked image gives, here
  \<open>KEYB_NOERROR\<close>.
\<close>

theorem drdos_header_not_rejected:
  "read_codepage_file drdos_host (cstr ''DRDOS.CPI'') 850 initial_dos
     = Inr (KEYB_NOERROR, initial_dos\<lparr> loaded_codepage := 850,
                                       video_calls := [INT10_SetupRomMemoryChecksum] \<rparr>)"
proof -
  from drdos_load obtain buf where
    l: "load_cpi_buf drdos_host (cstr ''DRDOS.CPI'') 850 = Inr (Inr (buf, 0, Some (105, 10)))" ..
  have u: "unpack_cpi_buf drdos_host buf 0 (Some (105, 10)) = Inr (tiny_cpi, 65536)"
    by (simp add: unpack_cpi_buf_def wr_def cpi_buf_size_max_def drdos_host_def)
  have b: "parse_cpi_body drdos_host tiny_cpi 65536 850 initial_dos
     = Inr (KEYB_NOERROR, initial_dos\<lparr> loaded_codepage := 850,
                                       video_calls := [INT10_SetupRomMemoryChecksum] \<rparr>)"
    by (simp add: parse_cpi_body_def tiny_cpi_def le32_def le16_def cpi_readw_def cpi_readd_def
        cpi_at_def rd_def cpi_buf_size_max_def initial_dos_def drdos_host_def
        bare_host_def)
  have n: "safe_strcpy 512 (cstr ''DRDOS.CPI'') = cstr ''DRDOS.CPI''"
    by (simp add: safe_strcpy_def until_nul_def cstr_def)
  have s: "\<not> strcmp_eq (cstr ''DRDOS.CPI'') (cstr ''none'')"
       "\<not> strcmp_eq (cstr ''DRDOS.CPI'') (cstr ''auto'')"
    by (simp_all add: until_nul_def cstr_def strcmp_eq_def)
  have c: "(850 :: int) \<noteq> uint (loaded_codepage initial_dos)"
    by (simp add: initial_dos_def)
  show ?thesis
    unfolding read_codepage_file_def n Let_def
    using s c by (simp add: l u b)
qed






text \<open>
  C10. When the file name is "none", or the wanted id is the loaded code page,
  \<open>read_codepage_file\<close> returns \<open>KEYB_NOERROR\<close> and the state (the loaded code page and
  the calls that write font memory among it) is as before; no file is looked up and the
  decompression is not called, as the result does not depend on the host. The layout
  object is no argument of the function.
\<close>

theorem read_codepage_file_nothing_to_do:
  "codepage_file_name = cstr ''none'' \<or> codepage_id = uint (loaded_codepage D) \<Longrightarrow>
   read_codepage_file h codepage_file_name codepage_id D = Inr (KEYB_NOERROR, D)"
  by (auto simp: read_codepage_file_def safe_strcpy_def until_nul_def cstr_def strcmp_eq_def
      Let_def)

theorem read_codepage_file_nothing_to_do_witness:
  "(437 :: int) = uint (loaded_codepage initial_dos) \<and>
   read_codepage_file bare_host (cstr ''auto'') 437 initial_dos = Inr (KEYB_NOERROR, initial_dos)"
  using read_codepage_file_nothing_to_do [of "cstr ''auto''" 437 initial_dos bare_host]
  by (simp add: initial_dos_def)

text \<open>
  C1. The parsers do write and read outside their arrays. A layout file whose key-mapping
  record has a scan byte with the high bit set passes the guard
  \<^verbatim>\<open>(scan & 0x7f) <= MAX_SCAN_CODE\<close>, and the entry is then stored at
  \<^verbatim>\<open>current_layout[scan*layout_pages+addmap]\<close> with the unmasked scan byte: for
  \<open>0x81\<close> that is index 1548 of an array of \<open>(0x58 + 1) * 12 = 1068\<close> elements. A
  diacritics table of four sub-tables of 255 pairs each ends the scan at offset 2048, and
  the copy \<^verbatim>\<open>for (j=0; j<=i; j++)\<close> then stores \<^verbatim>\<open>diacritics[2048]\<close> of an array of
  2048 bytes. A layout library of twelve bytes whose record announces six bytes of
  language ids is read at index 12 by \<open>read_kcl_data\<close>.
\<close>

theorem kl_parser_out_of_bounds:
  "read_keyboard_file_cp high_bit_host (cstr ''bad'') 437 new_keyboard_layout initial_dos
     = Some (Inl OutOfBounds) \<and>
   read_diacritics (\<lambda>_. 0xFF) 0x100 new_keyboard_layout = Inl OutOfBounds \<and>
   read_kcl_data [0x4B, 0x43, 0x46, 0, 0, 0, 0, 0, 0, 6, 0, 0] (cstr ''xx'') False
     = Inl OutOfBounds"
proof -
  obtain rb where l: "load_keyboard_buf high_bit_host (kl_read_buf initial_dos) (cstr ''bad'')
       = Inr (rb, Inr (64, 5))"
    and rb: "\<forall>i < 64. rb i = kl_high_bit_scan i"
    using load_bad by blast
  have n: "\<not> strcmp_eq (cstr ''bad'') (cstr ''none'')"
    by (simp add: strcmp_eq_def until_nul_def cstr_def)
  have p: "parse_keyboard_buf high_bit_host rb 64 5 (- 1) 437 L = Some (Inl OutOfBounds)" for L
    unfolding parse_keyboard_buf_def
    by (simp add: head_bad [OF rb] submap_loop.simps body_bad [OF rb])
  have a: "read_keyboard_file_cp high_bit_host (cstr ''bad'') 437 new_keyboard_layout initial_dos
     = Some (Inl OutOfBounds)"
    unfolding read_keyboard_file_cp_def read_keyboard_file_def Let_def using n
    by (simp add: l p)
  have s: "diacritics_scan (\<lambda>_. 0xFF) 0x100 0 0 = Inr (2048, 4)"
    by (simp add: diacritics_scan.simps rd_def read_buf_size_max_def)
  have b: "read_diacritics (\<lambda>_. 0xFF) 0x100 new_keyboard_layout = Inl OutOfBounds"
    unfolding read_diacritics_def
    by (simp add: new_keyboard_layout_def reset_def s
        diacritics_copy_overrun diacritics_size_def read_buf_size_max_def)
  have c: "read_kcl_data [0x4B, 0x43, 0x46, 0, 0, 0, 0, 0, 0, 6, 0, 0] (cstr ''xx'') False
     = Inl OutOfBounds"
    by (simp add: read_kcl_data_def vrd_def kcl_data_records.simps kcl_data_ids.simps
        kcl_data_chars.simps vreadw_def le16_def strcasecmp_eq_def until_nul_def cstr_def
        c_tolower_def)
  from a b c show ?thesis by simp
qed

text \<open>
  C7, as amended. A key-mapping record whose scan byte is at most \<open>MAX_SCAN_CODE\<close> and
  whose entries lie inside the read buffer is parsed without a fault. Of its first
  \<open>min(scan_length, additional_planes + 2)\<close> entries, each one whose first byte is not zero
  is stored in its plane of the scan code's row, and a plane whose entry has a zero first
  byte keeps its old value. The planes from \<open>scan_length\<close> on and the planes above
  \<open>additional_planes + 2\<close> (below the two bookkeeping columns 10 and 11) keep their old
  values, and so does every other row of the table.
\<close>

theorem key_record_installs:
  assumes "unat scan \<le> MAX_SCAN_CODE h" and "2 \<le> pos" and "pos + 16 \<le> read_buf_size_max"
  shows "\<exists>cl' adv. key_record h rb ap pos scan cl = Inr (cl', adv) \<and>
     (\<forall>p. p < record_length rb pos \<and> p < unat ap + 2 \<longrightarrow>
          cl' (unat scan * layout_pages + p) =
            (if rb (record_entry_pos rb pos p) \<noteq> 0 then record_entry rb pos p
             else cl (unat scan * layout_pages + p))) \<and>
     (\<forall>p. p < 10 \<and> (record_length rb pos \<le> p \<or> unat ap + 2 < p) \<longrightarrow>
          cl' (unat scan * layout_pages + p) = cl (unat scan * layout_pages + p)) \<and>
     (\<forall>i. i < unat scan * layout_pages \<or> unat scan * layout_pages + layout_pages \<le> i \<longrightarrow>
          cl' i = cl i)"
proof -
  from key_record_table [OF assms, of rb ap cl] obtain cl' adv where
    r: "key_record h rb ap pos scan cl = Inr (cl', adv)" and
    c: "\<And>i. i \<noteq> unat scan * layout_pages + 10 \<Longrightarrow> i \<noteq> unat scan * layout_pages + 11 \<Longrightarrow>
        cl' i = (if unat scan * layout_pages \<le> i \<and> i < unat scan * layout_pages + record_length rb pos \<and>
                    i \<le> unat scan * layout_pages + unat ap + 2 \<and>
                    rb (record_entry_pos rb pos (i - unat scan * layout_pages)) \<noteq> 0
                 then record_entry rb pos (i - unat scan * layout_pages) else cl i)"
    by auto
  have l8: "record_length rb pos \<le> 8" by (rule record_length_le)
  have a: "cl' (unat scan * layout_pages + p) =
            (if rb (record_entry_pos rb pos p) \<noteq> 0 then record_entry rb pos p
             else cl (unat scan * layout_pages + p))"
    if "p < record_length rb pos" "p < unat ap + 2" for p
    using c [of "unat scan * layout_pages + p"] that l8 by simp
  have b: "cl' (unat scan * layout_pages + p) = cl (unat scan * layout_pages + p)"
    if "p < 10" "record_length rb pos \<le> p \<or> unat ap + 2 < p" for p
    using c [of "unat scan * layout_pages + p"] that by auto
  have d: "cl' i = cl i"
    if "i < unat scan * layout_pages \<or> unat scan * layout_pages + layout_pages \<le> i" for i
    using c [of i] that l8 by (auto simp: layout_pages_def)
  from r a b d show ?thesis by blast
qed

theorem key_record_installs_witness:
  "unat (0x10 :: u8) \<le> MAX_SCAN_CODE bare_host \<and> (2 :: nat) \<le> 3 \<and> 3 + 16 \<le> read_buf_size_max \<and>
   (\<exists>cl' adv. key_record bare_host three_plane_record 0 3 0x10 empty_table = Inr (cl', adv) \<and>
     (\<forall>p. p < record_length three_plane_record 3 \<and> p < unat (0 :: u8) + 2 \<longrightarrow>
          cl' (unat (0x10 :: u8) * layout_pages + p) =
            (if three_plane_record (record_entry_pos three_plane_record 3 p) \<noteq> 0
             then record_entry three_plane_record 3 p
             else empty_table (unat (0x10 :: u8) * layout_pages + p))) \<and>
     (\<forall>p. p < 10 \<and> (record_length three_plane_record 3 \<le> p \<or> unat (0 :: u8) + 2 < p) \<longrightarrow>
          cl' (unat (0x10 :: u8) * layout_pages + p) = empty_table (unat (0x10 :: u8) * layout_pages + p)) \<and>
     (\<forall>i. i < unat (0x10 :: u8) * layout_pages \<or> unat (0x10 :: u8) * layout_pages + layout_pages \<le> i \<longrightarrow>
          cl' i = empty_table i))"
proof -
  have h: "unat (0x10 :: u8) \<le> MAX_SCAN_CODE bare_host" "(2 :: nat) \<le> 3"
    "3 + 16 \<le> read_buf_size_max"
    by (simp_all add: bare_host_def read_buf_size_max_def)
  from key_record_installs [OF h, of three_plane_record 0 empty_table] h show ?thesis
    by blast
qed

text \<open>
  The number of entries stored is not always \<open>min(scan_length, additional_planes + 2)\<close>.
  With no additional plane, a record of three non-zero entries has all three stored, the
  third in plane 2; and of a record of two entries the second of which is zero only
  the first is stored, plane 1 keeping its old value \<open>0x7A\<close>.
\<close>

theorem key_record_plane_count:
  "installed (key_record bare_host three_plane_record 0 3 0x10 empty_table) 0x10
     = Inr [0x61, 0x62, 0x63, 0, 0, 0, 0, 0, 0, 0] \<and>
   installed (key_record bare_host zero_entry_record 0 3 0x10 (empty_table(0xC1 := 0x7A))) 0x10
     = Inr [0x61, 0x7A, 0, 0, 0, 0, 0, 0, 0, 0]"
  by (simp add: installed_def key_record_def add_mappings.simps add_mapping_def
      three_plane_record_def zero_entry_record_def empty_table_def rd_def wr_def
      read_buf_size_max_def layout_size_def layout_pages_def bare_host_def Let_def)

text \<open>
  C4. A failed switch does change what a later key event yields. The layout \<^verbatim>\<open>a.kl\<close>
  is loaded; the switch to \<^verbatim>\<open>xx\<close> returns \<open>KEYB_LAYOUTNOTFOUND\<close> and leaves the loaded
  layout, the code page, the key buffer and the font writes as they were, but the bytes
  of \<^verbatim>\<open>xx.kl\<close> stay in the static \<^verbatim>\<open>read_buf\<close> of \<^verbatim>\<open>read_keyboard_file\<close>. The key
  \<open>0x10\<close> then re-reads \<^verbatim>\<open>a.kl\<close> (command 120); the record that starts on the last
  byte of the file is read on past the bytes of the file, from what the buffer held before.
  So the key \<open>0x1E\<close> that follows is not mapped in the session without the switch, and
  yields \<open>0x1E61\<close> in the session after the failed switch.
\<close>

theorem failed_switch_changes_translation:
  "\<exists>S0 S1.
     DOS_LoadKeyboardLayout stale_host (cstr ''a'') 437 (cstr ''none'') fresh_session
       = Some (Inr (KEYB_NOERROR, S0)) \<and>
     DOS_SwitchKeyboardLayout stale_host (cstr ''xx'') 0 S0
       = Some (Inr (KEYB_LAYOUTNOTFOUND, 437, S1)) \<and>
     loaded_layout S1 = loaded_layout S0 \<and>
     same_but_scratch (dos S1) (dos S0) \<and>
     capture stale_host [0x10, 0x1E] S0 = Some (Inr ([True, False], [])) \<and>
     capture stale_host [0x10, 0x1E] S1 = Some (Inr ([True, True], [0x1E61]))"
proof -
  have z: "kl_read_buf initial_dos 48 = 0" "kl_read_buf initial_dos 49 = 0"
    "kl_read_buf initial_dos 50 = 0"
    by (simp_all add: initial_dos_def)
  from read_a [OF z, of "- 1" new_keyboard_layout] obtain La ra where
    r: "read_keyboard_file stale_host (cstr ''a'') (- 1) 437 new_keyboard_layout initial_dos
             = Some (Inr (KEYB_NOERROR, La, initial_dos\<lparr> kl_read_buf := ra \<rparr>))"
    and a: "layout_of_a 0 La" and n: "current_keyboard_file_name La = cstr ''a''"
    and ra: "ra 48 = 0" "ra 49 = 0" "ra 50 = 0"
    by auto
  define D0 where "D0 = initial_dos\<lparr> kl_read_buf := ra \<rparr>"
  define S0 where "S0 = \<lparr> loaded_layout = Some La, dos = D0 \<rparr>"
  have d0: "kl_read_buf D0 48 = 0" "kl_read_buf D0 49 = 0" "kl_read_buf D0 50 = 0"
    "loaded_codepage D0 = 437" "bios_key_buffer D0 = []"
    using ra by (simp_all add: D0_def initial_dos_def)
  have c: "read_codepage_file stale_host (cstr ''none'') 437 D0 = Inr (KEYB_NOERROR, D0)"
    by (simp add: read_codepage_file_def safe_strcpy_def until_nul_def cstr_def strcmp_eq_def
        Let_def)
  have load: "DOS_LoadKeyboardLayout stale_host (cstr ''a'') 437 (cstr ''none'') fresh_session
       = Some (Inr (KEYB_NOERROR, S0))"
    unfolding DOS_LoadKeyboardLayout_def read_keyboard_file_cp_def
    by (simp add: fresh_session_def r D0_def [symmetric] c S0_def)
  from a have lc: "language_codes La = []" by (simp add: layout_of_a_def)
  from switch_xx [OF lc, of D0] obtain cb rx where
    sw: "switch_keyboard_layout stale_host (cstr ''xx'') 0 La D0
            = Some (Inr (KEYB_LAYOUTNOTFOUND, La, None, 437,
                         D0\<lparr> cp_read_buf := cb, kl_read_buf := rx \<rparr>))"
    and rx: "rx 48 = 0" "rx 49 = 0" "rx 50 = 0x61"
    by blast
  define D1 where "D1 = D0\<lparr> cp_read_buf := cb, kl_read_buf := rx \<rparr>"
  define S1 where "S1 = \<lparr> loaded_layout = Some La, dos = D1 \<rparr>"
  have d1: "kl_read_buf D1 48 = 0" "kl_read_buf D1 49 = 0" "kl_read_buf D1 50 = 0x61"
    "loaded_codepage D1 = 437" "bios_key_buffer D1 = []"
    using rx d0 by (simp_all add: D1_def)
  have switch: "DOS_SwitchKeyboardLayout stale_host (cstr ''xx'') 0 S0
       = Some (Inr (KEYB_LAYOUTNOTFOUND, 437, S1))"
    unfolding DOS_SwitchKeyboardLayout_def
    by (simp add: S0_def sw S1_def D1_def)
  have same: "loaded_layout S1 = loaded_layout S0" "same_but_scratch (dos S1) (dos S0)"
    by (simp_all add: S0_def S1_def D1_def same_but_scratch_def)
  have c0: "capture stale_host [0x10, 0x1E] S0 = Some (Inr ([True, False], []))"
  proof -
    from key_10 [OF a n d0(1-4)] obtain L' rb where
      k: "layout_key stale_host 0x10 0 0 0 La D0
            = Some (Inr (True, L', D0\<lparr> kl_read_buf := rb \<rparr>))"
      and f: "layout_of_a 0 L'"
      by blast
    show ?thesis
      by (simp add: capture_def DOS_LayoutKey_def S0_def k key_1e_unmapped [OF f] d0)
  qed
  have c1: "capture stale_host [0x10, 0x1E] S1 = Some (Inr ([True, True], [0x1E61]))"
  proof -
    from key_10 [OF a n d1(1-4)] obtain L' rb where
      k: "layout_key stale_host 0x10 0 0 0 La D1
            = Some (Inr (True, L', D1\<lparr> kl_read_buf := rb \<rparr>))"
      and f: "layout_of_a 0x61 L'"
      by blast
    show ?thesis
      by (simp add: capture_def DOS_LayoutKey_def S1_def k key_1e_mapped [OF f] d1
          BIOS_AddKeyToBuffer_def)
  qed
  from load switch same c0 c1 show ?thesis by blast
qed

text \<open>
  C9. \<^verbatim>\<open>read_keyboard_file\<close> stores outside its arrays at the very places where the
  object holds \<open>diacritics_character\<close>. For \<^verbatim>\<open>dia.kl\<close> the scan of the diacritics
  table ends at \<open>i = 2050\<close>, and the copy \<^verbatim>\<open>for (j=0; j<=i; j++)\<close> stores
  \<^verbatim>\<open>diacritics[2048]\<close> to \<^verbatim>\<open>diacritics[2050]\<close> of an array of 2048 bytes, which the
  members \<^verbatim>\<open>diacritics_entries\<close> and \<^verbatim>\<open>diacritics_character\<close> follow in the class. For
  \<^verbatim>\<open>b1.kl\<close> the entries of the planes 0 and 1 are zero and are skipped, and the entry
  5 of plane 2 is stored at \<^verbatim>\<open>current_layout[0xB1*12+2]\<close>, index 2126 of an array of 1068
  elements. In the embedding such a store is the fault \<open>OutOfBounds\<close>: there is no
  layout after the call of which the range of \<open>diacritics_character\<close> could be stated.
\<close>

theorem diacritics_character_overwritten:
  "read_keyboard_file_cp overrun_host (cstr ''dia'') 437 new_keyboard_layout initial_dos
     = Some (Inl OutOfBounds) \<and>
   diacritics_scan kl_dia_overrun 34 0 0 = Inr (2050, 5) \<and>
   read_keyboard_file_cp overrun_host (cstr ''b1'') 437 new_keyboard_layout initial_dos
     = Some (Inl OutOfBounds) \<and>
   add_mappings overrun_host kl_scan_b1 0 37 0xB1 3 0 empty_table = Inl OutOfBounds \<and>
   add_mappings overrun_host kl_scan_b1 0 37 0xB1 2 0 empty_table = Inr empty_table"
proof -
  obtain rd where ld: "load_keyboard_buf overrun_host (kl_read_buf initial_dos) (cstr ''dia'')
       = Inr (rd, Inr (2085, 5))"
    and rd: "\<forall>i<2085. rd i = kl_dia_overrun i"
    using load_dia by blast
  have a: "read_keyboard_file_cp overrun_host (cstr ''dia'') 437 new_keyboard_layout initial_dos
     = Some (Inl OutOfBounds)"
    unfolding read_keyboard_file_cp_def read_keyboard_file_def Let_def using overrun_names(1)
    by (simp add: ld parse_dia [OF rd])
  have b: "diacritics_scan kl_dia_overrun 34 0 0 = Inr (2050, 5)"
    by (rule scan_dia) simp
  obtain rb where lb: "load_keyboard_buf overrun_host (kl_read_buf initial_dos) (cstr ''b1'')
       = Inr (rb, Inr (41, 5))"
    and rb: "\<forall>i<41. rb i = kl_scan_b1 i"
    using load_b1 by blast
  have c: "read_keyboard_file_cp overrun_host (cstr ''b1'') 437 new_keyboard_layout initial_dos
     = Some (Inl OutOfBounds)"
    unfolding read_keyboard_file_cp_def read_keyboard_file_def Let_def using overrun_names(2)
    by (simp add: lb parse_b1 [OF rb])
  have d: "add_mappings overrun_host kl_scan_b1 0 37 0xB1 3 0 empty_table = Inl OutOfBounds"
    by (simp add: add_mappings.simps add_mapping_def rd_def wr_def read_buf_size_max_def
        kl_scan_b1_def overrun_host_files layout_pages_def)
  have e: "add_mappings overrun_host kl_scan_b1 0 37 0xB1 2 0 empty_table = Inr empty_table"
    by (simp add: add_mappings.simps add_mapping_def rd_def wr_def read_buf_size_max_def
        kl_scan_b1_def overrun_host_files layout_pages_def)
  from a b c d e show ?thesis by simp
qed

end
